theory Spec2Isabelle
  imports Main "HOL-Library.Word"
begin

section \<open>JavaScript strings and the string primitives the sources use\<close>

text \<open>
  A JavaScript string is a sequence of UTF-16 code units and \<open>length\<close> counts code
  units, so a string is modelled as a list of 16-bit words. ASCII literals of the
  sources are written through \<open>ascii\<close>.
\<close>

type_synonym jsstring = "16 word list"

definition ascii :: "string \<Rightarrow> jsstring" where
  "ascii s = map of_char s"

text \<open>
  The code units matched by \<open>\s\<close> in a regular expression and removed by
  \<open>String.prototype.trim\<close>: WhiteSpace and LineTerminator of ECMAScript.
\<close>

definition isWhiteSpace :: "16 word \<Rightarrow> bool" where
  "isWhiteSpace c \<longleftrightarrow>
     c = 0x09 \<or> c = 0x0A \<or> c = 0x0B \<or> c = 0x0C \<or> c = 0x0D \<or> c = 0x20 \<or>
     c = 0xA0 \<or> c = 0x1680 \<or> (0x2000 \<le> c \<and> c \<le> 0x200A) \<or>
     c = 0x2028 \<or> c = 0x2029 \<or> c = 0x202F \<or> c = 0x205F \<or> c = 0x3000 \<or>
     c = 0xFEFF"

text \<open>\<open>.\<close> in a regular expression without the \<open>s\<close> flag: any code unit but a line terminator.\<close>

definition isLineTerminator :: "16 word \<Rightarrow> bool" where
  "isLineTerminator c \<longleftrightarrow> c = 0x0A \<or> c = 0x0D \<or> c = 0x2028 \<or> c = 0x2029"

definition trim :: "jsstring \<Rightarrow> jsstring" where
  "trim s = rev (dropWhile isWhiteSpace (rev (dropWhile isWhiteSpace s)))"

text \<open>
  \<open>s.slice(0, end)\<close>: a negative \<open>end\<close> counts from the end of the string, and the
  bounds are clamped to the string.
\<close>

definition slice0 :: "'a list \<Rightarrow> int \<Rightarrow> 'a list" where
  "slice0 s e =
     (if e < 0 then take (nat (max (int (length s) + e) 0)) s
      else take (nat e) s)"

fun startsWith :: "'a list \<Rightarrow> 'a list \<Rightarrow> bool" where
  "startsWith s [] = True"
| "startsWith [] (p # ps) = False"
| "startsWith (c # cs) (p # ps) = (c = p \<and> startsWith cs ps)"

definition endsWith :: "'a list \<Rightarrow> 'a list \<Rightarrow> bool" where
  "endsWith s p = startsWith (rev s) (rev p)"

text \<open>\<open>s.includes(p)\<close>: \<open>p\<close> occurs in \<open>s\<close> as a contiguous run (the empty string always does).\<close>

fun includesStr :: "'a list \<Rightarrow> 'a list \<Rightarrow> bool" where
  "includesStr [] p = (p = [])"
| "includesStr (c # cs) p = (startsWith (c # cs) p \<or> includesStr cs p)"

text \<open>
  \<open>s.replace(p, "")\<close> with a string pattern \<open>p\<close>: the first occurrence of \<open>p\<close> is
  removed, and \<open>s\<close> is returned unchanged when there is none.
\<close>

fun removeFirst :: "'a list \<Rightarrow> 'a list \<Rightarrow> 'a list" where
  "removeFirst [] p = []"
| "removeFirst (c # cs) p =
     (if startsWith (c # cs) p then drop (length p) (c # cs) else c # removeFirst cs p)"

text \<open>\<open>s.split(sep)\<close> for a one-character separator: never the empty array.\<close>

fun splitOn :: "'a \<Rightarrow> 'a list \<Rightarrow> 'a list list" where
  "splitOn sep [] = [[]]"
| "splitOn sep (c # cs) =
     (if c = sep then [] # splitOn sep cs
      else (case splitOn sep cs of
              [] \<Rightarrow> [[c]]
            | w # ws \<Rightarrow> (c # w) # ws))"

text \<open>\<open>lines.join(sep)\<close>.\<close>

fun join :: "'a list \<Rightarrow> 'a list list \<Rightarrow> 'a list" where
  "join sep [] = []"
| "join sep [w] = w"
| "join sep (w # v # ws) = w @ sep @ join sep (v # ws)"

text \<open>
  \<open>s.split(/\s+/)\<close>: the pieces between maximal runs of white space. A leading or a
  trailing run leaves an empty first or last piece, and the empty string gives one
  empty piece.
\<close>

function splitWs :: "jsstring \<Rightarrow> jsstring list" where
  "splitWs [] = [[]]"
| "splitWs (c # cs) =
     (if isWhiteSpace c then [] # splitWs (dropWhile isWhiteSpace cs)
      else (case splitWs cs of
              [] \<Rightarrow> [[c]]
            | w # ws \<Rightarrow> (c # w) # ws))"
  by pat_completeness auto
termination
  by (relation "measure length") (auto simp: less_Suc_eq_le length_dropWhile_le)

section \<open>utils.js: converting a record URI to a post URL\<close>

text \<open>
  \<open>AT_URI = /at:\/\/(?<did>did:[^/]+)\/(?<type>[^/]+)\/(?<rkey>[^/]+)/\<close>.
  \<open>matchAtUriHere\<close> is a match of the expression at the start of its argument: each
  \<open>[^/]+\<close> is greedy and is followed by \<open>/\<close> or by the end of the expression, so it
  takes the maximal run without \<open>/\<close>, which must not be empty. \<open>execAtUri\<close> is
  \<open>uri.match(AT_URI)\<close>: the expression is not anchored, so the match is the one at the
  leftmost position that has one. The result holds the groups \<open>did\<close>, \<open>type\<close>, \<open>rkey\<close>.
\<close>

definition notSlash :: "16 word \<Rightarrow> bool" where
  "notSlash c \<longleftrightarrow> c \<noteq> 0x2F"

definition matchAtUriHere :: "jsstring \<Rightarrow> (jsstring \<times> jsstring \<times> jsstring) option" where
  "matchAtUriHere s =
     (if \<not> startsWith s (ascii ''at://did:'') then None
      else
        let r1 = drop 9 s;
            did = takeWhile notSlash r1;
            r2 = dropWhile notSlash r1
        in if did = [] \<or> r2 = [] then None
           else
             let r3 = tl r2;
                 rtype = takeWhile notSlash r3;
                 r4 = dropWhile notSlash r3
             in if rtype = [] \<or> r4 = [] then None
                else
                  let rkey = takeWhile notSlash (tl r4)
                  in if rkey = [] then None
                     else Some (ascii ''did:'' @ did, rtype, rkey))"

fun execAtUri :: "jsstring \<Rightarrow> (jsstring \<times> jsstring \<times> jsstring) option" where
  "execAtUri [] = None"
| "execAtUri (c # cs) =
     (case matchAtUriHere (c # cs) of
        Some groups \<Rightarrow> Some groups
      | None \<Rightarrow> execAtUri cs)"

text \<open>
  \<open>uriToPostUrl\<close> returns \<open>undefined\<close> (\<open>None\<close>) when the URI has no match;
  \<open>type.split(".").at(-1)\<close> is the last piece of the record type.
\<close>

definition uriToPostUrl :: "jsstring \<Rightarrow> jsstring \<Rightarrow> jsstring option" where
  "uriToPostUrl profileUrl uri =
     (case execAtUri uri of
        None \<Rightarrow> None
      | Some (did, rtype, rkey) \<Rightarrow>
          Some (profileUrl @ ascii ''/'' @ did @ ascii ''/'' @
                last (splitOn 0x2E rtype) @ ascii ''/'' @ rkey))"

section \<open>utils.js: the post properties and the text composer\<close>

text \<open>
  The JF2 properties the engine reads. A field that may be missing is an option;
  \<open>p_name\<close>, \<open>p_content\<close>, \<open>p_url\<close>, \<open>p_photo\<close> are \<open>properties.name\<close>,
  \<open>properties.content\<close>, \<open>properties.url\<close>, \<open>properties.photo\<close>, the four markers are
  \<open>properties["like-of"]\<close> and so on, and \<open>c_html\<close>, \<open>c_text\<close> are \<open>content.html\<close>,
  \<open>content.text\<close>. The permalink \<open>url\<close> is required by the data model.
\<close>

record content =
  c_html :: "jsstring option"
  c_text :: "jsstring option"

record photo =
  ph_url :: "jsstring option"
  ph_alt :: "jsstring option"

record properties =
  p_name :: "jsstring option"
  p_content :: "content option"
  p_url :: jsstring
  p_like_of :: "jsstring option"
  p_repost_of :: "jsstring option"
  p_bookmark_of :: "jsstring option"
  p_in_reply_to :: "jsstring option"
  p_photo :: "photo list option"

text \<open>A string-valued field in a condition: truthy when it is present and not empty.\<close>

definition truthy :: "jsstring option \<Rightarrow> bool" where
  "truthy v = (case v of None \<Rightarrow> False | Some s \<Rightarrow> s \<noteq> [])"

text \<open>\<open>v || ""\<close> for a string-valued field.\<close>

definition orEmpty :: "jsstring option \<Rightarrow> jsstring" where
  "orEmpty v = (case v of None \<Rightarrow> [] | Some s \<Rightarrow> s)"

text \<open>\<open>properties.content?.html\<close> and \<open>properties.content?.text\<close>.\<close>

definition contentHtml :: "properties \<Rightarrow> jsstring option" where
  "contentHtml properties = (case p_content properties of None \<Rightarrow> None | Some c \<Rightarrow> c_html c)"

definition contentText :: "properties \<Rightarrow> jsstring option" where
  "contentText properties = (case p_content properties of None \<Rightarrow> None | Some c \<Rightarrow> c_text c)"

subsection \<open>Global regular expression matches\<close>

text \<open>
  \<open>matchAll m skip s\<close> collects the matches of a global regular expression from left
  to right. \<open>m\<close> is the match at the start of a string: the text it contributes and
  the length of the whole match, which is never zero here. After a match the search
  goes on behind it: \<open>skip\<close> counts the code units of the last match still to pass.
\<close>

fun matchAll :: "(jsstring \<Rightarrow> (jsstring \<times> nat) option) \<Rightarrow> nat \<Rightarrow> jsstring \<Rightarrow> jsstring list" where
  "matchAll m skip [] = []"
| "matchAll m (Suc skip) (c # cs) = matchAll m skip cs"
| "matchAll m 0 (c # cs) =
     (case m (c # cs) of
        None \<Rightarrow> matchAll m 0 cs
      | Some (found, len) \<Rightarrow> found # matchAll m (len - 1) cs)"

text \<open>
  Case-insensitive matching of an ASCII literal (the \<open>i\<close> flag without \<open>u\<close>): only the
  ASCII letters fold, and no code unit above 127 matches an ASCII letter.
\<close>

definition lowerAscii :: "16 word \<Rightarrow> 16 word" where
  "lowerAscii c = (if 0x41 \<le> c \<and> c \<le> 0x5A then c + 0x20 else c)"

definition startsWithCI :: "jsstring \<Rightarrow> jsstring \<Rightarrow> bool" where
  "startsWithCI s p = startsWith (map lowerAscii s) (map lowerAscii p)"

text \<open>
  \<open>https?:\/\/\<close> at the start of a string, with or without the \<open>i\<close> flag: the length
  of the scheme and the two slashes (7 or 8), when it matches. \<open>s?\<close> is greedy, and
  giving the \<open>s\<close> back never helps, since \<open>:\<close> is not \<open>s\<close>.
\<close>

definition matchScheme :: "bool \<Rightarrow> jsstring \<Rightarrow> nat option" where
  "matchScheme ci s =
     (let sw = (if ci then startsWithCI else startsWith) in
      if \<not> sw s (ascii ''http'') then None
      else if sw (drop 4 s) (ascii ''s'') then
        (if startsWith (drop 5 s) (ascii ''://'') then Some 8 else None)
      else if startsWith (drop 4 s) (ascii ''://'') then Some 7
      else None)"

subsection \<open>Text extraction\<close>

text \<open>
  \<open>/href="(https?:\/\/.+?)"/g\<close> at the start of a string. \<open>.+?\<close> takes at least one
  code unit, which may be a double quote, and then as few as possible up to the next
  double quote; it never crosses a line terminator.
\<close>

definition matchHrefDq :: "jsstring \<Rightarrow> (jsstring \<times> nat) option" where
  "matchHrefDq s =
     (if \<not> startsWith s (ascii ''href='' @ [0x22]) then None
      else
        let r = drop 6 s in
        case matchScheme False r of
          None \<Rightarrow> None
        | Some n \<Rightarrow>
            (case drop n r of
               [] \<Rightarrow> None
             | c # rest \<Rightarrow>
                 if isLineTerminator c then None
                 else
                   let run = takeWhile (\<lambda>d. d \<noteq> 0x22 \<and> \<not> isLineTerminator d) rest;
                       after = dropWhile (\<lambda>d. d \<noteq> 0x22 \<and> \<not> isLineTerminator d) rest
                   in if after = [] \<or> hd after \<noteq> 0x22 then None
                      else Some (take (n + 1 + length run) r, 6 + n + 1 + length run + 1)))"

text \<open>
  \<open>htmlToStatusText\<close>: the plain text of the HTML and, when the HTML has an \<open>href\<close>,
  the last one appended. The renderer \<open>htmlToText\<close> of the html-to-text package is a
  parameter.
\<close>

definition htmlToStatusText :: "(jsstring \<Rightarrow> jsstring) \<Rightarrow> jsstring \<Rightarrow> jsstring" where
  "htmlToStatusText htmlToText html =
     (let hrefs = matchAll matchHrefDq 0 html;
          text = htmlToText html
      in if hrefs \<noteq> [] then text @ ascii '' '' @ last hrefs else text)"

subsection \<open>Composed text of a new post and of a like\<close>

text \<open>The like marker: a heavy black heart and its variation selector, two code units.\<close>

definition heart :: jsstring where
  "heart = [0x2764, 0xFE0F]"

definition newlines :: jsstring where
  "newlines = [0x0A, 0x0A]"

text \<open>The text of \<open>getPostText\<close> before the length check.\<close>

definition postTextDraft :: "(jsstring \<Rightarrow> jsstring) \<Rightarrow> properties \<Rightarrow> jsstring" where
  "postTextDraft htmlToText properties =
     (if truthy (p_name properties) then
        orEmpty (p_name properties) @ ascii '' '' @ p_url properties
      else if truthy (contentHtml properties) then
        htmlToStatusText htmlToText (orEmpty (contentHtml properties))
      else if truthy (contentText properties) then
        orEmpty (contentText properties)
      else [])"

definition getPostText :: "(jsstring \<Rightarrow> jsstring) \<Rightarrow> properties \<Rightarrow> bool \<Rightarrow> jsstring" where
  "getPostText htmlToText properties includePermalink =
     (let text = postTextDraft htmlToText properties in
      if length text > 300 then
        let suffix = newlines @ p_url properties;
            maxLen = 300 - int (length suffix) - 3
        in trim (slice0 text maxLen) @ ascii ''...'' @ suffix
      else if includePermalink \<and> \<not> includesStr text (p_url properties) then
        text @ newlines @ p_url properties
      else text)"

text \<open>The text of \<open>getLikePostText\<close> before the length check.\<close>

definition likeTextDraft :: "(jsstring \<Rightarrow> jsstring) \<Rightarrow> properties \<Rightarrow> jsstring \<Rightarrow> jsstring" where
  "likeTextDraft htmlToText properties likedUrl =
     (let text =
           (if truthy (contentHtml properties) then
              htmlToStatusText htmlToText (orEmpty (contentHtml properties))
            else if truthy (contentText properties) then
              orEmpty (contentText properties)
            else [])
      in if text \<noteq> [] then
           (if \<not> includesStr text likedUrl then
              text @ newlines @ heart @ ascii '' '' @ likedUrl
            else text)
         else heart @ ascii '' '' @ likedUrl)"

definition getLikePostText :: "(jsstring \<Rightarrow> jsstring) \<Rightarrow> properties \<Rightarrow> jsstring \<Rightarrow> jsstring" where
  "getLikePostText htmlToText properties likedUrl =
     (let text = likeTextDraft htmlToText properties likedUrl in
      if length text > 300 then
        let suffix = newlines @ heart @ ascii '' '' @ likedUrl;
            maxLen = 300 - int (length suffix) - 3;
            contentPart = trim (slice0 (removeFirst text suffix) maxLen)
        in contentPart @ ascii ''...'' @ suffix
      else text)"

section \<open>utils.js: the URL harvester\<close>

text \<open>
  \<open>/href=["'](https?:\/\/[^"']+)["']/gi\<close> at the start of a string: the run of
  \<open>[^"']+\<close> is maximal, so the closing quote is whatever stopped it.
\<close>

definition notQuote :: "16 word \<Rightarrow> bool" where
  "notQuote c \<longleftrightarrow> c \<noteq> 0x22 \<and> c \<noteq> 0x27"

definition matchHrefAny :: "jsstring \<Rightarrow> (jsstring \<times> nat) option" where
  "matchHrefAny s =
     (if \<not> startsWithCI s (ascii ''href='') then None
      else
        case drop 5 s of
          [] \<Rightarrow> None
        | q # r \<Rightarrow>
            if notQuote q then None
            else
              (case matchScheme True r of
                 None \<Rightarrow> None
               | Some n \<Rightarrow>
                   let run = takeWhile notQuote (drop n r);
                       after = dropWhile notQuote (drop n r)
                   in if run = [] \<or> after = [] then None
                      else Some (take (n + length run) r, 5 + 1 + n + length run + 1)))"

text \<open>\<open>/https?:\/\/[^\s<>"')\]]+/gi\<close> at the start of a string.\<close>

definition urlChar :: "16 word \<Rightarrow> bool" where
  "urlChar c \<longleftrightarrow>
     \<not> isWhiteSpace c \<and> c \<noteq> 0x3C \<and> c \<noteq> 0x3E \<and> c \<noteq> 0x22 \<and> c \<noteq> 0x27 \<and>
     c \<noteq> 0x29 \<and> c \<noteq> 0x5D"

definition matchBareUrl :: "jsstring \<Rightarrow> (jsstring \<times> nat) option" where
  "matchBareUrl s =
     (case matchScheme True s of
        None \<Rightarrow> None
      | Some n \<Rightarrow>
          let run = takeWhile urlChar (drop n s)
          in if run = [] then None
             else Some (take (n + length run) s, n + length run))"

text \<open>
  \<open>url.replace(/[.,;:!?)]+$/, "").replace(/\)+$/, "")\<close>: the trailing run of
  punctuation is removed, then a trailing run of closing parentheses.
\<close>

definition trailingPunct :: "16 word \<Rightarrow> bool" where
  "trailingPunct c \<longleftrightarrow>
     c = 0x2E \<or> c = 0x2C \<or> c = 0x3B \<or> c = 0x3A \<or> c = 0x21 \<or> c = 0x3F \<or> c = 0x29"

definition stripTrailing :: "('a \<Rightarrow> bool) \<Rightarrow> 'a list \<Rightarrow> 'a list" where
  "stripTrailing P s = rev (dropWhile P (rev s))"

definition extractUrlsFromText :: "jsstring \<Rightarrow> jsstring list" where
  "extractUrlsFromText text =
     (if text = [] then []
      else map (\<lambda>url. stripTrailing (\<lambda>c. c = 0x29) (stripTrailing trailingPunct url))
             (matchAll matchBareUrl 0 text))"

text \<open>\<open>[...new Set(urls)]\<close>: the first occurrence of each URL, in order.\<close>

definition dedupe :: "'a list \<Rightarrow> 'a list" where
  "dedupe urls = foldl (\<lambda>seen url. if url \<in> set seen then seen else seen @ [url]) [] urls"

text \<open>
  \<open>getExternalUrl\<close>. \<open>hostname\<close> is \<open>new URL(url).hostname\<close> of the platform, \<open>None\<close>
  when the constructor throws. The result \<open>None\<close> is \<open>null\<close>.
\<close>

definition getExternalUrl ::
  "(jsstring \<Rightarrow> jsstring option) \<Rightarrow> properties \<Rightarrow> jsstring option \<Rightarrow> jsstring option" where
  "getExternalUrl hostname properties ownDomain =
     (if truthy (p_like_of properties) then p_like_of properties
      else if truthy (p_bookmark_of properties) then p_bookmark_of properties
      else if truthy (p_in_reply_to properties) then p_in_reply_to properties
      else
        let html = orEmpty (contentHtml properties);
            fromHrefs = (if truthy (contentHtml properties) then matchAll matchHrefAny 0 html else []);
            fromHtml = (if truthy (contentHtml properties) then extractUrlsFromText html else []);
            fromText = (if truthy (contentText properties)
                        then extractUrlsFromText (orEmpty (contentText properties)) else []);
            urls = dedupe (fromHrefs @ fromHtml @ fromText)
        in if urls = [] then None
           else if truthy ownDomain then
             (let externalUrls =
                    filter (\<lambda>url. case hostname url of
                                     None \<Rightarrow> True
                                   | Some h \<Rightarrow> \<not> includesStr h (orEmpty ownDomain)) urls
              in if externalUrls \<noteq> [] then Some (last externalUrls)
                 else Some (last urls))
           else Some (last urls))"

section \<open>utils.js: the image compressor\<close>

text \<open>
  Errors are values: \<open>JsError msg\<close> is a thrown \<open>Error\<close> (or a rejected promise) with
  its message. A buffer is a list of bytes.
\<close>

datatype js_error = JsError jsstring

type_synonym buffer = "8 word list"

text \<open>
  \<open>constrainImage\<close>. \<open>jpeg buffer quality\<close> is
  \<open>sharp(buffer).jpeg({ quality }).toBuffer()\<close>, a parameter, which may reject. The
  recursion has no floor on \<open>quality\<close>: a call that never returns is \<open>None\<close>.
\<close>

partial_function (option) constrainImage ::
  "(buffer \<Rightarrow> int \<Rightarrow> js_error + buffer) \<Rightarrow> buffer \<Rightarrow> nat \<Rightarrow> int \<Rightarrow> (js_error + buffer) option" where
  "constrainImage jpeg buffer maxBytes quality =
     (case jpeg buffer quality of
        Inl e \<Rightarrow> Some (Inl e)
      | Inr compressed \<Rightarrow>
          if length compressed > maxBytes
          then constrainImage jpeg buffer maxBytes (quality - 5)
          else Some (Inr compressed))"

declare constrainImage.simps [code]

record postImage =
  i_buffer :: buffer
  i_mimeType :: jsstring

definition MAX_SIZE :: nat where
  "MAX_SIZE = 1024 * 1024"

definition getPostImage ::
  "(buffer \<Rightarrow> int \<Rightarrow> js_error + buffer) \<Rightarrow> buffer \<Rightarrow> jsstring \<Rightarrow> (js_error + postImage) option" where
  "getPostImage jpeg buffer mimeType =
     (if length buffer < MAX_SIZE then Some (Inr \<lparr> i_buffer = buffer, i_mimeType = mimeType \<rparr>)
      else
        case constrainImage jpeg buffer MAX_SIZE 90 of
          None \<Rightarrow> None
        | Some (Inl e) \<Rightarrow> Some (Inl e)
        | Some (Inr compressed) \<Rightarrow>
            Some (Inr \<lparr> i_buffer = compressed, i_mimeType = ascii ''image/jpeg'' \<rparr>))"

section \<open>utils.js: the thumbnail word-wrapper\<close>

text \<open>
  The loop of \<open>wrapText\<close> over the words, with the lines pushed so far and the current
  line. \<open>break\<close> leaves the loop with both as they are.
\<close>

fun wrapLoop :: "nat \<Rightarrow> nat \<Rightarrow> jsstring list \<Rightarrow> jsstring list \<Rightarrow> jsstring \<Rightarrow> jsstring list \<times> jsstring" where
  "wrapLoop maxCharsPerLine maxLines [] lines currentLine = (lines, currentLine)"
| "wrapLoop maxCharsPerLine maxLines (word # words) lines currentLine =
     (if length lines \<ge> maxLines then (lines, currentLine)
      else
        let testLine = (if currentLine \<noteq> [] then currentLine @ ascii '' '' @ word else word)
        in if length testLine \<le> maxCharsPerLine
           then wrapLoop maxCharsPerLine maxLines words lines testLine
           else if currentLine \<noteq> []
           then wrapLoop maxCharsPerLine maxLines words (lines @ [currentLine]) word
           else wrapLoop maxCharsPerLine maxLines words
                  (lines @ [slice0 word (int maxCharsPerLine - 3) @ ascii ''...'']) [])"

text \<open>
  \<open>wrapText\<close>. With \<open>maxLines = 0\<close> and more than one word the last line read is
  \<open>lines[-1]\<close>, which is \<open>undefined\<close>, and reading its length throws.
\<close>

definition wrapText :: "jsstring \<Rightarrow> nat \<Rightarrow> nat \<Rightarrow> js_error + jsstring list" where
  "wrapText text maxCharsPerLine maxLines =
     (let words = splitWs text;
          (pushed, currentLine) = wrapLoop maxCharsPerLine maxLines words [] [];
          lines = (if currentLine \<noteq> [] \<and> length pushed < maxLines
                   then pushed @ [currentLine] else pushed)
      in if length lines = maxLines \<and> length words > length (splitWs (join (ascii '' '') lines))
         then
           (if maxLines = 0 then Inl (JsError (ascii ''TypeError''))
            else
              let lastLine = lines ! (maxLines - 1)
              in if int (length lastLine) > int maxCharsPerLine - 3
                 then Inr (lines[maxLines - 1 :=
                             slice0 lastLine (int maxCharsPerLine - 3) @ ascii ''...''])
                 else if \<not> endsWith lastLine (ascii ''...'')
                 then Inr (lines[maxLines - 1 := lastLine @ ascii ''...''])
                 else Inr lines)
         else Inr lines)"

section \<open>The world outside: effects, errors and calls that do not return\<close>

text \<open>
  What the engine hands to the posting backend. A blob reference is the string the
  backend returned for an uploaded blob; facets are the spans (start, end, target) the
  annotator found.
\<close>

type_synonym blobRef = jsstring

type_synonym facets = "(nat \<times> nat \<times> jsstring) list"

record imageEntry =
  im_alt :: jsstring
  im_image :: "blobRef option"

record externalCard =
  ex_uri :: jsstring
  ex_title :: jsstring
  ex_description :: jsstring
  ex_thumb :: "blobRef option"

record strongRef =
  sr_uri :: jsstring
  sr_cid :: jsstring

datatype embed =
    EmbedImages "imageEntry list"
  | EmbedExternal externalCard
  | EmbedRecord strongRef
  | EmbedRecordWithMedia strongRef "imageEntry list"

record postData =
  pd_text :: jsstring
  pd_facets :: "facets option"
  pd_createdAt :: jsstring
  pd_embed :: "embed option"

record richText =
  rt_text :: jsstring
  rt_facets :: "facets option"

text \<open>
  A call on the AT Protocol agent. The engine's state is the state of the world and the
  list of the agent calls made so far, oldest first.
\<close>

datatype call =
    Login jsstring jsstring jsstring
  | GetPost "jsstring option" "jsstring option"
  | Like jsstring jsstring
  | Repost jsstring jsstring
  | CreatePost postData
  | UploadBlob buffer "jsstring option"

text \<open>
  An asynchronous computation: from a state it returns a value or throws, in a new
  state, or it never returns (\<open>None\<close>).
\<close>

type_synonym ('a, 'w) io = "'w \<times> call list \<Rightarrow> ((js_error + 'a) \<times> ('w \<times> call list)) option"

definition io_return :: "'a \<Rightarrow> ('a, 'w) io" where
  "io_return a = (\<lambda>s. Some (Inr a, s))"

definition io_throw :: "js_error \<Rightarrow> ('a, 'w) io" where
  "io_throw e = (\<lambda>s. Some (Inl e, s))"

definition io_bind :: "('a, 'w) io \<Rightarrow> ('a \<Rightarrow> ('b, 'w) io) \<Rightarrow> ('b, 'w) io" where
  "io_bind m f =
     (\<lambda>s. case m s of
             None \<Rightarrow> None
           | Some (Inl e, s') \<Rightarrow> Some (Inl e, s')
           | Some (Inr a, s') \<Rightarrow> f a s')"

text \<open>\<open>try { m } catch (error) { h error }\<close>.\<close>

definition io_catch :: "('a, 'w) io \<Rightarrow> (js_error \<Rightarrow> ('a, 'w) io) \<Rightarrow> ('a, 'w) io" where
  "io_catch m h =
     (\<lambda>s. case m s of
             None \<Rightarrow> None
           | Some (Inl e, s') \<Rightarrow> h e s'
           | Some (Inr a, s') \<Rightarrow> Some (Inr a, s'))"

text \<open>A pure step that may throw, and a pure step that may not return.\<close>

definition io_lift :: "js_error + 'a \<Rightarrow> ('a, 'w) io" where
  "io_lift r = (\<lambda>s. Some (r, s))"

definition io_partial :: "(js_error + 'a) option \<Rightarrow> ('a, 'w) io" where
  "io_partial r = (\<lambda>s. case r of None \<Rightarrow> None | Some v \<Rightarrow> Some (v, s))"

text \<open>An effect on the world that is no agent call, and an agent call, which is recorded.\<close>

definition io_effect :: "('w \<Rightarrow> (js_error + 'a) \<times> 'w) \<Rightarrow> ('a, 'w) io" where
  "io_effect f = (\<lambda>(w, calls). case f w of (r, w') \<Rightarrow> Some (r, (w', calls)))"

definition io_call :: "call \<Rightarrow> ('w \<Rightarrow> (js_error + 'a) \<times> 'w) \<Rightarrow> ('a, 'w) io" where
  "io_call c f = (\<lambda>(w, calls). case f w of (r, w') \<Rightarrow> Some (r, (w', calls @ [c])))"

text \<open>
  What \<open>fetch\<close> resolves to, with the outcomes of reading its body as text and as
  bytes. The status is held as the digits a template literal prints.
\<close>

record response =
  r_ok :: bool
  r_status :: jsstring
  r_statusText :: jsstring
  r_contentType :: "jsstring option"
  r_text :: "js_error + jsstring"
  r_blob :: "js_error + buffer"

text \<open>
  What \<open>fetchOpenGraphData\<close> reads from the parsed document:
  \<open>querySelector('meta[property="og:title"]')?.getAttribute("content")\<close>,
  \<open>querySelector("title")?.textContent\<close>, and the \<open>content\<close> of
  \<open>meta[property="og:description"]\<close>, \<open>meta[name="description"]\<close> and
  \<open>meta[property="og:image"]\<close>.
\<close>

record document =
  d_ogTitle :: "jsstring option"
  d_title :: "jsstring option"
  d_ogDescription :: "jsstring option"
  d_metaDescription :: "jsstring option"
  d_ogImage :: "jsstring option"

text \<open>
  The collaborators, as parameters. Pure library functions: \<open>htmlToTextLib\<close>
  (html-to-text), \<open>sharpJpeg\<close> and \<open>sharpPng\<close> (sharp: the JPEG encoder at a quality,
  and the rasteriser of the thumbnail's SVG, given the wrapped title lines, the font
  size and the site name), \<open>jsdomParse\<close> (JSDOM), \<open>urlHostname\<close>, \<open>urlPathname\<close> and
  \<open>urlResolve\<close> (the URL class: \<open>new URL(u).hostname\<close>, \<open>new URL(u).pathname\<close>,
  \<open>new URL(ref, new URL(base).origin).href\<close>), \<open>utilIsSameOrigin\<close> and
  \<open>utilGetCanonicalUrl\<close> (@indiekit/util). The functions bluesky.js imports from
  utils.js that utils.js does not define are parameters too: \<open>utilsGetRepostPostText\<close>,
  \<open>utilsGetBookmarkPostText\<close>, \<open>utilsBuildPostText\<close>, \<open>utilsExtractHtmlLinks\<close>,
  \<open>utilsBuildLinkFacets\<close>. Effects on the world: \<open>netFetch\<close> (with the request
  headers), the agent's \<open>login\<close>, \<open>getPost\<close>, \<open>like\<close>, \<open>repost\<close>, \<open>post\<close>,
  \<open>uploadBlob\<close>, the annotator \<open>detectFacets\<close>, and the clock. The event loop is a
  parameter as well: when several asynchronous calls are pending, \<open>scheduler\<close> reads
  from the world which of them is resumed next (the number it gives is taken modulo
  the number of pending calls).
\<close>

record 'w env =
  htmlToTextLib :: "jsstring \<Rightarrow> jsstring"
  sharpJpeg :: "buffer \<Rightarrow> int \<Rightarrow> js_error + buffer"
  sharpPng :: "jsstring list \<Rightarrow> nat \<Rightarrow> jsstring \<Rightarrow> js_error + buffer"
  jsdomParse :: "jsstring \<Rightarrow> js_error + document"
  urlHostname :: "jsstring \<Rightarrow> jsstring option"
  urlPathname :: "jsstring \<Rightarrow> js_error + jsstring"
  urlResolve :: "jsstring \<Rightarrow> jsstring \<Rightarrow> js_error + jsstring"
  utilIsSameOrigin :: "jsstring \<Rightarrow> jsstring \<Rightarrow> js_error + bool"
  utilGetCanonicalUrl :: "jsstring \<Rightarrow> jsstring \<Rightarrow> js_error + jsstring"
  utilsGetRepostPostText :: "properties \<Rightarrow> jsstring \<Rightarrow> jsstring"
  utilsGetBookmarkPostText :: "properties \<Rightarrow> jsstring \<Rightarrow> jsstring"
  utilsBuildPostText :: "properties \<Rightarrow> jsstring option \<Rightarrow> jsstring"
  utilsExtractHtmlLinks :: "jsstring \<Rightarrow> (jsstring \<times> jsstring) list"
  utilsBuildLinkFacets :: "jsstring \<Rightarrow> (jsstring \<times> jsstring) list \<Rightarrow> facets"
  netFetch :: "jsstring \<Rightarrow> (jsstring \<times> jsstring) list \<Rightarrow> 'w \<Rightarrow> (js_error + response) \<times> 'w"
  agentLogin :: "jsstring \<Rightarrow> jsstring \<Rightarrow> jsstring \<Rightarrow> 'w \<Rightarrow> (js_error + unit) \<times> 'w"
  agentGetPost :: "jsstring option \<Rightarrow> jsstring option \<Rightarrow> 'w \<Rightarrow> (js_error + strongRef) \<times> 'w"
  agentLike :: "jsstring \<Rightarrow> jsstring \<Rightarrow> 'w \<Rightarrow> (js_error + jsstring) \<times> 'w"
  agentRepost :: "jsstring \<Rightarrow> jsstring \<Rightarrow> 'w \<Rightarrow> (js_error + jsstring) \<times> 'w"
  agentPost :: "postData \<Rightarrow> 'w \<Rightarrow> (js_error + jsstring) \<times> 'w"
  agentUploadBlob :: "buffer \<Rightarrow> jsstring option \<Rightarrow> 'w \<Rightarrow> (js_error + blobRef) \<times> 'w"
  agentDetectFacets :: "jsstring \<Rightarrow> 'w \<Rightarrow> (js_error + facets option) \<times> 'w"
  clockNow :: "'w \<Rightarrow> (js_error + jsstring) \<times> 'w"
  scheduler :: "'w \<Rightarrow> nat"

section \<open>utils.js: the metadata fetcher\<close>

record metadata =
  m_title :: jsstring
  m_description :: jsstring
  m_imageUrl :: "jsstring option"

text \<open>\<open>a || b\<close> on optional strings: the first operand when it is truthy.\<close>

definition orElse :: "jsstring option \<Rightarrow> jsstring option \<Rightarrow> jsstring option" where
  "orElse a b = (if truthy a then a else b)"

definition ogRequestHeaders :: "(jsstring \<times> jsstring) list" where
  "ogRequestHeaders =
     [(ascii ''User-Agent'', ascii ''Mozilla/5.0 (compatible; IndiekitBot/1.0)''),
      (ascii ''Accept'', ascii ''text/html,application/xhtml+xml'')]"

text \<open>The value both failure paths of \<open>fetchOpenGraphData\<close> return.\<close>

definition ogFallback :: "jsstring \<Rightarrow> metadata" where
  "ogFallback url = \<lparr> m_title = url, m_description = [], m_imageUrl = None \<rparr>"

text \<open>The body of the \<open>try\<close> block of \<open>fetchOpenGraphData\<close>.\<close>

definition fetchOpenGraphDataBody :: "'w env \<Rightarrow> jsstring \<Rightarrow> (metadata, 'w) io" where
  "fetchOpenGraphDataBody env url =
     io_bind (io_effect (netFetch env url ogRequestHeaders)) (\<lambda>response.
       if \<not> r_ok response then io_return (ogFallback url)
       else
         io_bind (io_lift (r_text response)) (\<lambda>html.
         io_bind (io_lift (jsdomParse env html)) (\<lambda>doc.
           let ogTitle = orEmpty (orElse (orElse (d_ogTitle doc) (d_title doc)) (Some url));
               ogDescription =
                 orEmpty (orElse (orElse (d_ogDescription doc) (d_metaDescription doc)) (Some []));
               ogImage = orElse (d_ogImage doc) None
           in
             io_bind
               (if truthy ogImage \<and> \<not> startsWith (orEmpty ogImage) (ascii ''http'')
                then io_bind (io_lift (urlResolve env (orEmpty ogImage) url))
                       (\<lambda>href. io_return (Some href))
                else io_return ogImage) (\<lambda>ogImage.
               io_return \<lparr> m_title = slice0 ogTitle 300,
                           m_description = slice0 ogDescription 1000,
                           m_imageUrl = ogImage \<rparr>))))"

definition fetchOpenGraphData :: "'w env \<Rightarrow> jsstring \<Rightarrow> (metadata, 'w) io" where
  "fetchOpenGraphData env url =
     io_catch (fetchOpenGraphDataBody env url) (\<lambda>error. io_return (ogFallback url))"

section \<open>utils.js: the rest of what bluesky.js imports\<close>

text \<open>
  \<open>generateDefaultOgImage\<close> is only called with a \<open>siteName\<close> option. The title is
  wrapped into at most 4 lines of 35 characters, the font size is 48 for more than
  two lines and 56 otherwise, and the SVG text with its rasterisation is \<open>sharpPng\<close>.
\<close>

definition generateDefaultOgImage :: "'w env \<Rightarrow> jsstring \<Rightarrow> jsstring \<Rightarrow> js_error + buffer" where
  "generateDefaultOgImage env title siteName =
     (case wrapText title 35 4 of
        Inl e \<Rightarrow> Inl e
      | Inr titleLines \<Rightarrow>
          let fontSize = (if length titleLines > 2 then 48 else 56)
          in sharpPng env titleLines fontSize siteName)"

text \<open>\<open>createRichText\<close>: the text with the facets the annotator detects.\<close>

definition createRichText :: "'w env \<Rightarrow> jsstring \<Rightarrow> (richText, 'w) io" where
  "createRichText env text =
     io_bind (io_effect (agentDetectFacets env text)) (\<lambda>detected.
       io_return \<lparr> rt_text = text, rt_facets = detected \<rparr>)"

text \<open>\<open>xs[i]\<close>: \<open>undefined\<close> out of range.\<close>

definition nthOpt :: "'a list \<Rightarrow> nat \<Rightarrow> 'a option" where
  "nthOpt xs i = (if i < length xs then Some (xs ! i) else None)"

text \<open>\<open>getPostParts\<close>: the third and the fifth piece of the path of a post URL.\<close>

definition getPostParts :: "'w env \<Rightarrow> jsstring \<Rightarrow> js_error + (jsstring option \<times> jsstring option)" where
  "getPostParts env url =
     (case urlPathname env url of
        Inl e \<Rightarrow> Inl e
      | Inr pathname \<Rightarrow>
          let pathParts = splitOn 0x2F pathname
          in Inr (nthOpt pathParts 2, nthOpt pathParts 4))"

section \<open>bluesky.js: the dispatcher\<close>

text \<open>
  The constructor's options and the fields of a \<open>Bluesky\<close> object:
  \<open>includePermalink\<close> defaults to false, and the two syndication flags are true
  unless the option is \<open>false\<close>.
\<close>

record options =
  o_identifier :: jsstring
  o_password :: jsstring
  o_profileUrl :: jsstring
  o_serviceUrl :: jsstring
  o_includePermalink :: "bool option"
  o_syndicateExternalLikes :: "bool option"
  o_syndicateExternalReposts :: "bool option"

record bluesky =
  this_identifier :: jsstring
  this_password :: jsstring
  this_profileUrl :: jsstring
  this_serviceUrl :: jsstring
  this_includePermalink :: bool
  this_syndicateExternalLikes :: bool
  this_syndicateExternalReposts :: bool

definition newBluesky :: "options \<Rightarrow> bluesky" where
  "newBluesky opts =
     \<lparr> this_identifier = o_identifier opts,
       this_password = o_password opts,
       this_profileUrl = o_profileUrl opts,
       this_serviceUrl = o_serviceUrl opts,
       this_includePermalink = (o_includePermalink opts = Some True),
       this_syndicateExternalLikes = (o_syndicateExternalLikes opts \<noteq> Some False),
       this_syndicateExternalReposts = (o_syndicateExternalReposts opts \<noteq> Some False) \<rparr>"

text \<open>\<open>#client\<close>: a new agent, logged in.\<close>

definition client :: "'w env \<Rightarrow> bluesky \<Rightarrow> (unit, 'w) io" where
  "client env self =
     io_call (Login (this_serviceUrl self) (this_identifier self) (this_password self))
       (agentLogin env (this_serviceUrl self) (this_identifier self) (this_password self))"

definition getPost :: "'w env \<Rightarrow> bluesky \<Rightarrow> jsstring \<Rightarrow> (strongRef, 'w) io" where
  "getPost env self postUrl =
     io_bind (client env self) (\<lambda>_.
     io_bind (io_lift (getPostParts env postUrl)) (\<lambda>(did, rkey).
       io_call (GetPost did rkey) (agentGetPost env did rkey)))"

definition postLike :: "'w env \<Rightarrow> bluesky \<Rightarrow> jsstring \<Rightarrow> (jsstring option, 'w) io" where
  "postLike env self postUrl =
     io_bind (client env self) (\<lambda>_.
     io_bind (getPost env self postUrl) (\<lambda>post.
     io_bind (io_call (Like (sr_uri post) (sr_cid post))
                (agentLike env (sr_uri post) (sr_cid post))) (\<lambda>likeUri.
       io_return (uriToPostUrl (this_profileUrl self) likeUri))))"

definition postRepost :: "'w env \<Rightarrow> bluesky \<Rightarrow> jsstring \<Rightarrow> (jsstring option, 'w) io" where
  "postRepost env self postUrl =
     io_bind (client env self) (\<lambda>_.
     io_bind (getPost env self postUrl) (\<lambda>post.
     io_bind (io_call (Repost (sr_uri post) (sr_cid post))
                (agentRepost env (sr_uri post) (sr_cid post))) (\<lambda>repostUri.
       io_return (uriToPostUrl (this_profileUrl self) repostUri))))"

definition postQuotePost ::
  "'w env \<Rightarrow> bluesky \<Rightarrow> jsstring \<Rightarrow> richText \<Rightarrow> imageEntry list \<Rightarrow> (jsstring option, 'w) io" where
  "postQuotePost env self postUrl richText images =
     io_bind (client env self) (\<lambda>_.
     io_bind (getPost env self postUrl) (\<lambda>post.
       let embed = (if length images > 0 then EmbedRecordWithMedia post images
                    else EmbedRecord post)
       in
         io_bind (io_effect (clockNow env)) (\<lambda>createdAt.
           let postData = \<lparr> pd_text = rt_text richText,
                            pd_facets = rt_facets richText,
                            pd_createdAt = createdAt,
                            pd_embed = Some embed \<rparr>
           in
             io_bind (io_call (CreatePost postData) (agentPost env postData)) (\<lambda>quotePostUri.
               io_return (uriToPostUrl (this_profileUrl self) quotePostUri)))))"

text \<open>
  \<open>uploadImageFromUrl\<close>: every failure inside the \<open>try\<close> block gives \<open>null\<close>. The
  second test of the content type always holds where it stands.
\<close>

definition uploadImageFromUrl :: "'w env \<Rightarrow> bluesky \<Rightarrow> jsstring option \<Rightarrow> (blobRef option, 'w) io" where
  "uploadImageFromUrl env self imageUrl =
     (if \<not> truthy imageUrl then io_return None
      else
        io_catch
          (io_bind (client env self) (\<lambda>_.
           io_bind (io_effect (netFetch env (orEmpty imageUrl)
                      [(ascii ''User-Agent'', ascii ''Mozilla/5.0 (compatible; IndiekitBot/1.0)'')]))
             (\<lambda>response.
               if \<not> r_ok response then io_return None
               else
                 io_bind (io_lift (r_blob response)) (\<lambda>blob.
                   let encoding = orEmpty (orElse (r_contentType response) (Some (ascii ''image/jpeg'')))
                   in if \<not> startsWith encoding (ascii ''image/'') then io_return None
                      else
                        io_bind (io_partial (getPostImage (sharpJpeg env) blob encoding)) (\<lambda>image.
                        io_bind (io_call (UploadBlob (i_buffer image) (Some (i_mimeType image)))
                                   (agentUploadBlob env (i_buffer image) (Some (i_mimeType image))))
                          (\<lambda>uploaded. io_return (Some uploaded)))))))
          (\<lambda>error. io_return None))"

text \<open>
  \<open>createExternalEmbed\<close>, with its options \<open>generateDefaultImage\<close> and \<open>siteName\<close>.
  The generated thumbnail has a \<open>try\<close> block of its own.
\<close>

definition createExternalEmbed ::
  "'w env \<Rightarrow> bluesky \<Rightarrow> jsstring \<Rightarrow> bool \<Rightarrow> jsstring option \<Rightarrow> (externalCard option, 'w) io" where
  "createExternalEmbed env self url generateDefaultImage siteName =
     (if url = [] then io_return None
      else
        io_catch
          (io_bind (fetchOpenGraphData env url) (\<lambda>ogData.
           io_bind (if truthy (m_imageUrl ogData)
                    then uploadImageFromUrl env self (m_imageUrl ogData)
                    else io_return None) (\<lambda>thumb.
           io_bind
             (if thumb = None \<and> generateDefaultImage \<and> m_title ogData \<noteq> [] \<and> m_title ogData \<noteq> url
              then
                io_catch
                  (io_bind
                     (if truthy siteName
                      then io_return (orEmpty siteName)
                      else (case urlHostname env url of
                              None \<Rightarrow> io_throw (JsError (ascii ''Invalid URL''))
                            | Some h \<Rightarrow> io_return h)) (\<lambda>site.
                   io_bind (io_lift (generateDefaultOgImage env (m_title ogData) site))
                     (\<lambda>defaultImageBuffer.
                   io_bind (client env self) (\<lambda>_.
                   io_bind (io_call (UploadBlob defaultImageBuffer (Some (ascii ''image/png'')))
                              (agentUploadBlob env defaultImageBuffer (Some (ascii ''image/png''))))
                     (\<lambda>uploaded. io_return (Some uploaded))))))
                  (\<lambda>imageError. io_return thumb)
              else io_return thumb) (\<lambda>thumb.
             io_return
               (Some \<lparr> ex_uri = url,
                       ex_title = (if m_title ogData \<noteq> [] then m_title ogData else url),
                       ex_description = m_description ogData,
                       ex_thumb = thumb \<rparr>)))))
          (\<lambda>error. io_return None))"

text \<open>\<open>postPost\<close>: images take priority over the external card.\<close>

definition postPost ::
  "'w env \<Rightarrow> bluesky \<Rightarrow> richText \<Rightarrow> imageEntry list \<Rightarrow> externalCard option \<Rightarrow> (jsstring option, 'w) io" where
  "postPost env self richText images externalEmbed =
     io_bind (client env self) (\<lambda>_.
       let embed = (if length images > 0 then Some (EmbedImages images)
                    else (case externalEmbed of
                            Some ext \<Rightarrow> Some (EmbedExternal ext)
                          | None \<Rightarrow> None))
       in
         io_bind (io_effect (clockNow env)) (\<lambda>createdAt.
           let postData = \<lparr> pd_text = rt_text richText,
                            pd_facets = rt_facets richText,
                            pd_createdAt = createdAt,
                            pd_embed = embed \<rparr>
           in
             io_bind (io_call (CreatePost postData) (agentPost env postData)) (\<lambda>postUri.
               io_return (uriToPostUrl (this_profileUrl self) postUri))))"

text \<open>
  \<open>uploadMedia\<close>, as a computation that is suspended at its awaits, since \<open>post\<close> has
  several calls of it in flight at once. A call waits for the login of \<open>#client\<close>, for
  the fetch or for \<open>uploadBlob\<close>, or it has settled: fulfilled with the blob reference
  (\<open>undefined\<close> for a photo whose \<open>url\<close> is not a string), or rejected (any failure
  inside the \<open>try\<close> block is thrown again with its message). \<open>uploadMedia\<close> resumes a
  call: the awaited effect takes place, it is recorded if it is an agent call, and the
  call runs on to its next await. Reading the body of the response and compressing the
  image touch nothing outside; they are part of the step that follows the fetch, and a
  compression that never returns leaves the call hanging.
\<close>

datatype upload =
    AwaitClient
  | AwaitFetch jsstring
  | AwaitUploadBlob buffer "jsstring option"
  | Fulfilled "blobRef option"
  | Rejected js_error
  | Hanging

fun uploadMedia ::
  "'w env \<Rightarrow> bluesky \<Rightarrow> photo \<Rightarrow> jsstring \<Rightarrow> upload \<Rightarrow> 'w \<times> call list \<Rightarrow> upload \<times> ('w \<times> call list)" where
  "uploadMedia env self media me AwaitClient (w, calls) =
     (case agentLogin env (this_serviceUrl self) (this_identifier self) (this_password self) w of
        (r, w') \<Rightarrow>
          (case r of
             Inl e \<Rightarrow> Rejected e
           | Inr agent \<Rightarrow>
               (case ph_url media of
                  None \<Rightarrow> Fulfilled None
                | Some url \<Rightarrow>
                    (case utilGetCanonicalUrl env url me of
                       Inl e \<Rightarrow> Rejected e
                     | Inr mediaUrl \<Rightarrow> AwaitFetch mediaUrl)),
           (w', calls @ [Login (this_serviceUrl self) (this_identifier self) (this_password self)])))"
| "uploadMedia env self media me (AwaitFetch mediaUrl) (w, calls) =
     (case netFetch env mediaUrl [] w of
        (r, w') \<Rightarrow>
          (case r of
             Inl e \<Rightarrow> Rejected e
           | Inr mediaResponse \<Rightarrow>
               if \<not> r_ok mediaResponse
               then Rejected (JsError (ascii ''Failed to fetch media: '' @ r_status mediaResponse
                                        @ ascii '' '' @ r_statusText mediaResponse))
               else
                 (case r_blob mediaResponse of
                    Inl e \<Rightarrow> Rejected e
                  | Inr blob \<Rightarrow>
                      if startsWith (orEmpty (r_contentType mediaResponse)) (ascii ''image/'')
                      then
                        (case getPostImage (sharpJpeg env) blob
                                (orEmpty (r_contentType mediaResponse)) of
                           None \<Rightarrow> Hanging
                         | Some (Inl e) \<Rightarrow> Rejected e
                         | Some (Inr compressed) \<Rightarrow>
                             AwaitUploadBlob (i_buffer compressed) (Some (i_mimeType compressed)))
                      else AwaitUploadBlob blob (r_contentType mediaResponse)),
           (w', calls)))"
| "uploadMedia env self media me (AwaitUploadBlob blob encoding) (w, calls) =
     (case agentUploadBlob env blob encoding w of
        (r, w') \<Rightarrow>
          (case r of
             Inl e \<Rightarrow> Rejected e
           | Inr uploaded \<Rightarrow> Fulfilled (Some uploaded),
           (w', calls @ [UploadBlob blob encoding])))"
| "uploadMedia env self media me (Fulfilled uploaded) s = (Fulfilled uploaded, s)"
| "uploadMedia env self media me (Rejected e) s = (Rejected e, s)"
| "uploadMedia env self media me Hanging s = (Hanging, s)"

text \<open>The calls the event loop can resume, and the awaits a call has ahead of it at most.\<close>

fun pendingUpload :: "upload \<Rightarrow> bool" where
  "pendingUpload AwaitClient = True"
| "pendingUpload (AwaitFetch mediaUrl) = True"
| "pendingUpload (AwaitUploadBlob blob encoding) = True"
| "pendingUpload (Fulfilled uploaded) = False"
| "pendingUpload (Rejected e) = False"
| "pendingUpload Hanging = False"

fun awaitsLeft :: "upload \<Rightarrow> nat" where
  "awaitsLeft AwaitClient = 3"
| "awaitsLeft (AwaitFetch mediaUrl) = 2"
| "awaitsLeft (AwaitUploadBlob blob encoding) = 1"
| "awaitsLeft (Fulfilled uploaded) = 0"
| "awaitsLeft (Rejected e) = 0"
| "awaitsLeft Hanging = 0"

definition pendingIndices :: "upload list \<Rightarrow> nat list" where
  "pendingIndices uploads = filter (\<lambda>i. pendingUpload (uploads ! i)) [0..<length uploads]"

definition nextUpload :: "'w env \<Rightarrow> upload list \<Rightarrow> 'w \<times> call list \<Rightarrow> nat" where
  "nextUpload env uploads s =
     pendingIndices uploads ! (scheduler env (fst s) mod length (pendingIndices uploads))"

text \<open>What \<open>Promise.all\<close> rejects with: the error of the call that is rejected first.\<close>

definition noteRejection :: "js_error option \<Rightarrow> upload \<Rightarrow> js_error option" where
  "noteRejection firstRejection upload =
     (case firstRejection of
        Some e \<Rightarrow> Some e
      | None \<Rightarrow> (case upload of Rejected e \<Rightarrow> Some e | _ \<Rightarrow> None))"

text \<open>
  The calls that \<open>photos.map\<close> has started, run by the event loop: as long as one of
  them is pending, the scheduler picks one and it is resumed. The result is the calls
  once none is pending, the first rejection if there was one, and the state then. No
  order of the steps of different calls is fixed; the steps of one call keep theirs.
\<close>

function promiseAll ::
  "'w env \<Rightarrow> bluesky \<Rightarrow> jsstring \<Rightarrow> photo list \<Rightarrow> upload list \<Rightarrow> js_error option \<Rightarrow>
   'w \<times> call list \<Rightarrow> upload list \<times> js_error option \<times> ('w \<times> call list)" where
  "promiseAll env self me photos uploads firstRejection s =
     (if pendingIndices uploads = [] then (uploads, firstRejection, s)
      else
        let i = nextUpload env uploads s;
            (upload, s') = uploadMedia env self (photos ! i) me (uploads ! i) s
        in promiseAll env self me photos (uploads[i := upload])
             (noteRejection firstRejection upload) s')"
  by pat_completeness auto
termination
proof (relation "measure (\<lambda>(env, self, me, photos, uploads, firstRejection, s). sum_list (map awaitsLeft uploads))")
  show "wf (measure (\<lambda>(env :: 'w env, self, me, photos, uploads, firstRejection, s). sum_list (map awaitsLeft uploads)))"
    by simp
next
  fix env :: "'w env" and self me photos uploads firstRejection s i x upload s'
  assume p: "pendingIndices uploads \<noteq> []"
    and i: "i = nextUpload env uploads s"
    and st: "x = uploadMedia env self (photos ! i) me (uploads ! i) s" "(upload, s') = x"
  have "i \<in> set (pendingIndices uploads)"
    unfolding i nextUpload_def using p by simp
  then have il: "i < length uploads" and ip: "pendingUpload (uploads ! i)"
    unfolding pendingIndices_def by auto
  have u: "upload = fst (uploadMedia env self (photos ! i) me (uploads ! i) s)"
    using st by (metis fst_conv)
  have "awaitsLeft upload < awaitsLeft (uploads ! i)"
    unfolding u using ip
    by (cases "uploads ! i"; cases s) (auto simp: Let_def split: prod.splits sum.splits option.splits)
  moreover have "awaitsLeft (uploads ! i) \<le> sum_list (map awaitsLeft uploads)"
    using il by (intro member_le_sum_list) auto
  ultimately have
    "sum_list ((map awaitsLeft uploads)[i := awaitsLeft upload]) < sum_list (map awaitsLeft uploads)"
    using il by (simp add: sum_list_update)
  then show "((env, self, me, photos, uploads[i := upload], noteRejection firstRejection upload, s'),
              (env, self, me, photos, uploads, firstRejection, s))
        \<in> measure (\<lambda>(env, self, me, photos, uploads, firstRejection, s). sum_list (map awaitsLeft uploads))"
    by (simp add: map_update)
qed

text \<open>
  The uploads of \<open>post\<close>: \<open>photos.map\<close> starts a call of \<open>uploadMedia\<close> for each of the
  first four photos, and \<open>Promise.all\<close> waits for them. It rejects with the first
  rejection; it never settles when no call is rejected and one hangs; otherwise it
  gives the images in the order of the photos, each with the alternative text of its
  photo. The calls that are still pending when \<open>Promise.all\<close> rejects are not
  cancelled: the state returned is the one in which every call has run as far as it
  goes.
\<close>

definition uploadedImage :: "upload \<Rightarrow> blobRef option" where
  "uploadedImage upload = (case upload of Fulfilled uploaded \<Rightarrow> uploaded | _ \<Rightarrow> None)"

definition uploadImages :: "'w env \<Rightarrow> bluesky \<Rightarrow> properties \<Rightarrow> jsstring \<Rightarrow> (imageEntry list, 'w) io" where
  "uploadImages env self properties me =
     (case p_photo properties of
        None \<Rightarrow> io_return []
      | Some photo \<Rightarrow>
          (\<lambda>s. let photos = take 4 photo;
                   (uploads, firstRejection, s') =
                      promiseAll env self me photos (map (\<lambda>photo. AwaitClient) photos) None s
               in case firstRejection of
                    Some e \<Rightarrow> Some (Inl e, s')
                  | None \<Rightarrow>
                      if Hanging \<in> set uploads then None
                      else Some (Inr (map2 (\<lambda>photo upload.
                                             \<lparr> im_alt = orEmpty (ph_alt photo),
                                               im_image = uploadedImage upload \<rparr>)
                                        photos uploads), s')))"

text \<open>The repost branch of \<open>post\<close>.\<close>

definition handleRepost ::
  "'w env \<Rightarrow> bluesky \<Rightarrow> properties \<Rightarrow> imageEntry list \<Rightarrow> jsstring \<Rightarrow> (jsstring option, 'w) io" where
  "handleRepost env self properties images repostUrl =
     io_bind (io_lift (utilIsSameOrigin env repostUrl (this_profileUrl self))) (\<lambda>sameOrigin.
       if sameOrigin \<and> p_content properties \<noteq> None then
         io_bind (createRichText env
                    (getPostText (htmlToTextLib env) properties (this_includePermalink self)))
           (\<lambda>richText. postQuotePost env self repostUrl richText images)
       else
         io_bind (io_lift (utilIsSameOrigin env repostUrl (this_profileUrl self))) (\<lambda>sameOrigin.
           if sameOrigin then postRepost env self repostUrl
           else if this_syndicateExternalReposts self then
             io_bind (createRichText env (utilsGetRepostPostText env properties repostUrl))
               (\<lambda>richText.
             io_bind (createExternalEmbed env self repostUrl True None) (\<lambda>externalEmbed.
               postPost env self richText images externalEmbed))
           else io_return None))"

text \<open>The like branch of \<open>post\<close>.\<close>

definition handleLike ::
  "'w env \<Rightarrow> bluesky \<Rightarrow> properties \<Rightarrow> imageEntry list \<Rightarrow> jsstring \<Rightarrow> (jsstring option, 'w) io" where
  "handleLike env self properties images likeOfUrl =
     io_bind (io_lift (utilIsSameOrigin env likeOfUrl (this_profileUrl self))) (\<lambda>sameOrigin.
       if sameOrigin then postLike env self likeOfUrl
       else if this_syndicateExternalLikes self then
         io_bind (createRichText env (getLikePostText (htmlToTextLib env) properties likeOfUrl))
           (\<lambda>richText.
         io_bind (createExternalEmbed env self likeOfUrl True None) (\<lambda>externalEmbed.
           postPost env self richText images externalEmbed))
       else io_return None)"

text \<open>The bookmark branch of \<open>post\<close>.\<close>

definition handleBookmark ::
  "'w env \<Rightarrow> bluesky \<Rightarrow> properties \<Rightarrow> imageEntry list \<Rightarrow> jsstring \<Rightarrow> (jsstring option, 'w) io" where
  "handleBookmark env self properties images bookmarkOfUrl =
     io_bind (createRichText env (utilsGetBookmarkPostText env properties bookmarkOfUrl))
       (\<lambda>richText.
     io_bind (createExternalEmbed env self bookmarkOfUrl True None) (\<lambda>externalEmbed.
       postPost env self richText images externalEmbed))"

text \<open>
  The regular branch of \<open>post\<close>. The link facets are computed and passed to
  \<open>createRichText\<close> as a third argument, which \<open>createRichText\<close> does not take.
\<close>

definition handleRegular ::
  "'w env \<Rightarrow> bluesky \<Rightarrow> properties \<Rightarrow> imageEntry list \<Rightarrow> (jsstring option, 'w) io" where
  "handleRegular env self properties images =
     (let externalUrl = getExternalUrl (urlHostname env) properties None;
          text = utilsBuildPostText env properties externalUrl;
          linkFacets = (if truthy (contentHtml properties)
                        then utilsBuildLinkFacets env text
                               (utilsExtractHtmlLinks env (orEmpty (contentHtml properties)))
                        else [])
      in
        io_bind (createRichText env text) (\<lambda>richText.
        io_bind
          (if length images = 0 then
             (let embedUrl = orElse externalUrl (Some (p_url properties))
              in if truthy embedUrl
                 then createExternalEmbed env self (orEmpty embedUrl) True None
                 else io_return None)
           else io_return None) (\<lambda>externalEmbed.
          postPost env self richText images externalEmbed)))"

text \<open>
  \<open>post\<close>: log in, upload the photos, then the cascade over the markers. An error is
  thrown again with its message. The result \<open>None\<close> is \<open>undefined\<close>.
\<close>

definition post :: "'w env \<Rightarrow> bluesky \<Rightarrow> properties \<Rightarrow> jsstring \<Rightarrow> (jsstring option, 'w) io" where
  "post env self properties me =
     io_catch
       (io_bind (client env self) (\<lambda>_.
        io_bind (uploadImages env self properties me) (\<lambda>images.
          if truthy (p_repost_of properties) then
            handleRepost env self properties images (orEmpty (p_repost_of properties))
          else if truthy (p_like_of properties) then
            handleLike env self properties images (orEmpty (p_like_of properties))
          else if truthy (p_bookmark_of properties) then
            handleBookmark env self properties images (orEmpty (p_bookmark_of properties))
          else handleRegular env self properties images)))
       (\<lambda>error. case error of JsError message \<Rightarrow> io_throw (JsError message))"

section \<open>Posting actions\<close>

text \<open>
  The agent calls that create a record on the backend (a post, a like or a repost), in
  a list of calls, and the computations that make none.
\<close>

fun isPostingCall :: "call \<Rightarrow> bool" where
  "isPostingCall (CreatePost postData) = True"
| "isPostingCall (Like uri cid) = True"
| "isPostingCall (Repost uri cid) = True"
| "isPostingCall (Login service identifier password) = False"
| "isPostingCall (GetPost did rkey) = False"
| "isPostingCall (UploadBlob blob encoding) = False"

definition postingCalls :: "call list \<Rightarrow> call list" where
  "postingCalls calls = filter isPostingCall calls"

definition keepsPosting :: "('a, 'w) io \<Rightarrow> bool" where
  "keepsPosting m \<longleftrightarrow>
     (\<forall>s r s'. m s = Some (r, s') \<longrightarrow> postingCalls (snd s') = postingCalls (snd s))"

section \<open>Example inputs and collaborators\<close>

subsection \<open>Example posts\<close>

text \<open>
  A note whose text is 273 letters, a space and 40 more letters (314 code units), and a
  note of 301 letters, both with a 21-character permalink.
\<close>

definition noteWithSpaceAtCut :: properties where
  "noteWithSpaceAtCut =
     \<lparr> p_name = None,
       p_content = Some \<lparr> c_html = None,
                          c_text = Some (replicate 273 0x61 @ [0x20] @ replicate 40 0x62) \<rparr>,
       p_url = ascii ''https://me.example/p1'',
       p_like_of = None, p_repost_of = None, p_bookmark_of = None, p_in_reply_to = None,
       p_photo = None \<rparr>"

definition longNote :: properties where
  "longNote =
     \<lparr> p_name = None,
       p_content = Some \<lparr> c_html = None, c_text = Some (replicate 301 0x61) \<rparr>,
       p_url = ascii ''https://me.example/p1'',
       p_like_of = None, p_repost_of = None, p_bookmark_of = None, p_in_reply_to = None,
       p_photo = None \<rparr>"

text \<open>The note of 301 letters with a permalink of 300 code units.\<close>

definition longNoteLongPermalink :: properties where
  "longNoteLongPermalink =
     longNote \<lparr> p_url := ascii ''https://me.example/'' @ replicate 281 0x70 \<rparr>"

definition likeAndBookmark :: properties where
  "likeAndBookmark =
     \<lparr> p_name = None, p_content = None,
       p_url = ascii ''https://me.example/p2'',
       p_like_of = Some (ascii ''https://liked.example/a''),
       p_repost_of = None,
       p_bookmark_of = Some (ascii ''https://bookmarked.example/b''),
       p_in_reply_to = None,
       p_photo = None \<rparr>"

subsection \<open>Example collaborators\<close>

text \<open>
  An encoder that, like sharp, rejects a quality outside 1 to 100 and otherwise returns
  two bytes, an encoder that returns two bytes at every quality, and an encoder whose
  output has as many bytes as the quality.
\<close>

definition sharpLikeJpeg :: "buffer \<Rightarrow> int \<Rightarrow> js_error + buffer" where
  "sharpLikeJpeg buffer quality =
     (if quality < 1 \<or> 100 < quality
      then Inl (JsError (ascii ''Expected integer between 1 and 100 for quality''))
      else Inr [0xFF, 0xD8])"

definition twoByteJpeg :: "buffer \<Rightarrow> int \<Rightarrow> js_error + buffer" where
  "twoByteJpeg buffer quality = Inr [0xFF, 0xD8]"

definition shrinkingJpeg :: "buffer \<Rightarrow> int \<Rightarrow> js_error + buffer" where
  "shrinkingJpeg buffer quality = Inr (replicate (nat quality) 0)"

text \<open>
  A world that counts its effects, in which every collaborator succeeds: pages have no
  metadata, every fetched body is a three-byte PNG, the backend answers with fixed
  record URIs, and the event loop resumes the first of the pending calls.
\<close>

definition exampleResponse :: response where
  "exampleResponse =
     \<lparr> r_ok = True, r_status = ascii ''200'', r_statusText = ascii ''OK'',
       r_contentType = Some (ascii ''image/png''),
       r_text = Inr [], r_blob = Inr [1, 2, 3] \<rparr>"

definition exampleEnv :: "nat env" where
  "exampleEnv =
     \<lparr> htmlToTextLib = (\<lambda>html. html),
       sharpJpeg = sharpLikeJpeg,
       sharpPng = (\<lambda>titleLines fontSize siteName. Inr [0x89, 0x50, 0x4E, 0x47]),
       jsdomParse = (\<lambda>html. Inr \<lparr> d_ogTitle = None, d_title = None, d_ogDescription = None,
                                   d_metaDescription = None, d_ogImage = None \<rparr>),
       urlHostname = (\<lambda>url. Some (takeWhile notSlash (drop 8 url))),
       urlPathname = (\<lambda>url. Inr (dropWhile notSlash (drop 8 url))),
       urlResolve = (\<lambda>ref base. Inr (base @ ref)),
       utilIsSameOrigin = (\<lambda>url other. Inr (takeWhile notSlash (drop 8 url)
                                              = takeWhile notSlash (drop 8 other))),
       utilGetCanonicalUrl = (\<lambda>url me. Inr url),
       utilsGetRepostPostText = (\<lambda>properties repostUrl. repostUrl),
       utilsGetBookmarkPostText = (\<lambda>properties bookmarkOfUrl. p_url properties),
       utilsBuildPostText = (\<lambda>properties externalUrl. orEmpty (contentText properties)),
       utilsExtractHtmlLinks = (\<lambda>html. []),
       utilsBuildLinkFacets = (\<lambda>text links. []),
       netFetch = (\<lambda>url headers w. (Inr exampleResponse, Suc w)),
       agentLogin = (\<lambda>service identifier password w. (Inr (), Suc w)),
       agentGetPost = (\<lambda>did rkey w.
                         (Inr \<lparr> sr_uri = ascii ''at://did:plc:abc/app.bsky.feed.post/xyz'',
                                sr_cid = ascii ''cid'' \<rparr>, Suc w)),
       agentLike = (\<lambda>uri cid w. (Inr (ascii ''at://did:plc:me/app.bsky.feed.like/l1''), Suc w)),
       agentRepost = (\<lambda>uri cid w. (Inr (ascii ''at://did:plc:me/app.bsky.feed.repost/r1''), Suc w)),
       agentPost = (\<lambda>postData w. (Inr (ascii ''at://did:plc:me/app.bsky.feed.post/p1''), Suc w)),
       agentUploadBlob = (\<lambda>blob encoding w. (Inr (ascii ''blob''), Suc w)),
       agentDetectFacets = (\<lambda>text w. (Inr None, w)),
       clockNow = (\<lambda>w. (Inr (ascii ''2024-01-01T00:00:00.000Z''), w)),
       scheduler = (\<lambda>w. 0) \<rparr>"

text \<open>The same world with the network down: every fetch rejects.\<close>

definition offlineEnv :: "nat env" where
  "offlineEnv =
     exampleEnv \<lparr> netFetch := (\<lambda>url headers w. (Inl (JsError (ascii ''fetch failed'')), Suc w)) \<rparr>"

text \<open>An account that does not syndicate likes of external URLs.\<close>

definition exampleSelf :: bluesky where
  "exampleSelf =
     newBluesky \<lparr> o_identifier = ascii ''me.bsky.social'',
                  o_password = ascii ''app-password'',
                  o_profileUrl = ascii ''https://bsky.app/profile'',
                  o_serviceUrl = ascii ''https://bsky.social'',
                  o_includePermalink = None,
                  o_syndicateExternalLikes = Some False,
                  o_syndicateExternalReposts = None \<rparr>"

text \<open>
  Worlds in which the page answers 404, in which reading the body of the answer fails,
  and in which the HTML parser throws.
\<close>

definition notFoundResponse :: response where
  "notFoundResponse =
     \<lparr> r_ok = False, r_status = ascii ''404'', r_statusText = ascii ''Not Found'',
       r_contentType = Some (ascii ''text/html''), r_text = Inr [], r_blob = Inr [] \<rparr>"

definition brokenBodyResponse :: response where
  "brokenBodyResponse =
     \<lparr> r_ok = True, r_status = ascii ''200'', r_statusText = ascii ''OK'',
       r_contentType = Some (ascii ''text/html''),
       r_text = Inl (JsError (ascii ''terminated'')),
       r_blob = Inl (JsError (ascii ''terminated'')) \<rparr>"

definition notFoundEnv :: "nat env" where
  "notFoundEnv = exampleEnv \<lparr> netFetch := (\<lambda>url headers w. (Inr notFoundResponse, Suc w)) \<rparr>"

definition brokenBodyEnv :: "nat env" where
  "brokenBodyEnv = exampleEnv \<lparr> netFetch := (\<lambda>url headers w. (Inr brokenBodyResponse, Suc w)) \<rparr>"

definition brokenParserEnv :: "nat env" where
  "brokenParserEnv = exampleEnv \<lparr> jsdomParse := (\<lambda>html. Inl (JsError (ascii ''parse error''))) \<rparr>"

text \<open>A world in which the backend refuses the login.\<close>

definition lockedOutEnv :: "nat env" where
  "lockedOutEnv =
     exampleEnv \<lparr> agentLogin := (\<lambda>service identifier password w.
        (Inl (JsError (ascii ''Invalid identifier or password'')), Suc w)) \<rparr>"

text \<open>A URL of 310 code units.\<close>

definition longUrl :: jsstring where
  "longUrl = ascii ''https://example.com/'' @ replicate 290 0x61"

text \<open>
  A like of an external URL with one photo, a post that is both a like of an external
  URL and a repost of a post of the account's own network, and a note with five photos.
\<close>

definition examplePhoto :: photo where
  "examplePhoto = \<lparr> ph_url = Some (ascii ''https://me.example/a.png''), ph_alt = Some (ascii ''a'') \<rparr>"

definition externalLike :: properties where
  "externalLike =
     \<lparr> p_name = None, p_content = None,
       p_url = ascii ''https://me.example/p3'',
       p_like_of = Some (ascii ''https://other.example/post''),
       p_repost_of = None, p_bookmark_of = None, p_in_reply_to = None,
       p_photo = Some [examplePhoto] \<rparr>"

definition likeAndRepost :: properties where
  "likeAndRepost =
     \<lparr> p_name = None, p_content = None,
       p_url = ascii ''https://me.example/p4'',
       p_like_of = Some (ascii ''https://other.example/post''),
       p_repost_of = Some (ascii ''https://bsky.app/profile/did:plc:abc/post/xyz''),
       p_bookmark_of = None, p_in_reply_to = None,
       p_photo = None \<rparr>"

definition namedPhoto :: "string \<Rightarrow> photo" where
  "namedPhoto name =
     \<lparr> ph_url = Some (ascii ''https://me.example/'' @ ascii name @ ascii ''.png''),
       ph_alt = Some (ascii name) \<rparr>"

definition photoNote :: properties where
  "photoNote =
     \<lparr> p_name = None,
       p_content = Some \<lparr> c_html = None, c_text = Some (ascii ''hello'') \<rparr>,
       p_url = ascii ''https://me.example/p5'',
       p_like_of = None, p_repost_of = None, p_bookmark_of = None, p_in_reply_to = None,
       p_photo = Some [namedPhoto ''a'', namedPhoto ''b'',
                       (namedPhoto ''c'') \<lparr> ph_alt := None \<rparr>,
                       namedPhoto ''d'', namedPhoto ''e''] \<rparr>"

text \<open>
  A world for the note with five photos: the body of a fetched URL is what follows the
  19 code units of the origin, the backend names a blob after its bytes, and the event
  loop resumes the pending call that the count of effects so far picks, so that the
  uploads run interleaved.
\<close>

definition busyEnv :: "nat env" where
  "busyEnv =
     exampleEnv \<lparr> netFetch := (\<lambda>url headers w.
                     (Inr (exampleResponse \<lparr> r_blob := Inr (map ucast (drop 19 url)) \<rparr>), Suc w)),
                  agentUploadBlob := (\<lambda>blob encoding w.
                     (Inr (ascii ''blob:'' @ map ucast blob), Suc w)),
                  scheduler := (\<lambda>w. w) \<rparr>"

text \<open>The calls of the example runs.\<close>

definition exampleLogin :: call where
  "exampleLogin = Login (ascii ''https://bsky.social'') (ascii ''me.bsky.social'') (ascii ''app-password'')"

definition exampleUpload :: call where
  "exampleUpload = UploadBlob [1, 2, 3] (Some (ascii ''image/png''))"

definition exampleImage :: imageEntry where
  "exampleImage = \<lparr> im_alt = ascii ''a'', im_image = Some (ascii ''blob'') \<rparr>"

definition namedUpload :: "string \<Rightarrow> call" where
  "namedUpload name = UploadBlob (map of_char (name @ ''.png'')) (Some (ascii ''image/png''))"

text \<open>
  The calls once the uploads of the note with five photos have run in that world, after
  the login of \<open>post\<close>: four logins, then the uploads of the second, third, fourth and
  first photo.
\<close>

definition photoNoteUploads :: "call list" where
  "photoNoteUploads =
     [exampleLogin, exampleLogin, exampleLogin, exampleLogin, exampleLogin,
      namedUpload ''b'', namedUpload ''c'', namedUpload ''d'', namedUpload ''a'']"

definition namedImage :: "string \<Rightarrow> imageEntry" where
  "namedImage name =
     \<lparr> im_alt = ascii name, im_image = Some (ascii ''blob:'' @ ascii name @ ascii ''.png'') \<rparr>"

definition exampleGallery :: "imageEntry list" where
  "exampleGallery =
     [namedImage ''a'', namedImage ''b'', (namedImage ''c'') \<lparr> im_alt := [] \<rparr>, namedImage ''d'']"

definition examplePostData :: postData where
  "examplePostData =
     \<lparr> pd_text = ascii ''hello'', pd_facets = None,
       pd_createdAt = ascii ''2024-01-01T00:00:00.000Z'',
       pd_embed = Some (EmbedImages exampleGallery) \<rparr>"

section \<open>Properties of the string primitives\<close>

lemma startsWith_append: "startsWith (p @ s) p"
  by (induction p) auto

lemma splitOn_nonempty: "splitOn c t \<noteq> []"
  by (cases t) (auto split: list.splits)

lemma splitOn_none: "c \<notin> set t \<Longrightarrow> splitOn c t = [t]"
  by (induction t) auto

lemma splitOn_length2: "2 \<le> length (splitOn c (u @ c # v))"
proof (induction u)
  case Nil
  have "splitOn c v \<noteq> []" by (rule splitOn_nonempty)
  then show ?case by (cases "splitOn c v") auto
next
  case (Cons a u)
  then show ?case by (auto split: list.splits)
qed

lemma last_splitOn_append: "last (splitOn c (u @ c # v)) = last (splitOn c v)"
proof (induction u)
  case Nil
  then show ?case by (simp add: splitOn_nonempty)
next
  case (Cons a u)
  have "2 \<le> length (splitOn c (u @ c # v))" by (rule splitOn_length2)
  then obtain w ws where e: "splitOn c (u @ c # v) = w # ws" and ne: "ws \<noteq> []"
    by (cases "splitOn c (u @ c # v)") fastforce+
  then show ?case using Cons by auto
qed

lemma last_splitOn: "last (splitOn c t) = rev (takeWhile (\<lambda>x. x \<noteq> c) (rev t))"
proof (cases "c \<in> set t")
  case False
  then have "takeWhile (\<lambda>x. x \<noteq> c) (rev t) = rev t"
    by (auto simp: takeWhile_eq_all_conv)
  then have "rev (takeWhile (\<lambda>x. x \<noteq> c) (rev t)) = t"
    by (simp only: rev_rev_ident)
  moreover have "last (splitOn c t) = t"
    using False by (simp add: splitOn_none)
  ultimately show ?thesis by simp
next
  case True
  then obtain u v where t: "t = u @ c # v" and v: "c \<notin> set v"
    by (auto dest: split_list_last)
  have "takeWhile (\<lambda>x. x \<noteq> c) (rev v @ c # rev u) = rev v"
    using v by (induction v rule: rev_induct) auto
  then show ?thesis using v by (simp add: t last_splitOn_append splitOn_none)
qed

subsection \<open>The record URI\<close>

lemma takeWhile_notSlash: "0x2F \<notin> set x \<Longrightarrow> takeWhile notSlash (x @ 0x2F # r) = x"
  by (induction x) (auto simp: notSlash_def)

lemma dropWhile_notSlash: "0x2F \<notin> set x \<Longrightarrow> dropWhile notSlash (x @ 0x2F # r) = 0x2F # r"
  by (induction x) (auto simp: notSlash_def)

lemma takeWhile_notSlash_end: "0x2F \<notin> set x \<Longrightarrow> takeWhile notSlash x = x"
  by (induction x) (auto simp: notSlash_def)

lemma matchAtUriHere_wf:
  assumes "x \<noteq> []" "0x2F \<notin> set x" "t \<noteq> []" "0x2F \<notin> set t" "k \<noteq> []" "0x2F \<notin> set k"
  shows "matchAtUriHere (ascii ''at://did:'' @ x @ ascii ''/'' @ t @ ascii ''/'' @ k)
         = Some (ascii ''did:'' @ x, t, k)"
proof -
  define r3 where "r3 = t @ 0x2F # k"
  define r1 where "r1 = x @ 0x2F # r3"
  have a: "ascii ''at://did:'' @ x @ ascii ''/'' @ t @ ascii ''/'' @ k = ascii ''at://did:'' @ r1"
    by (simp add: ascii_def r1_def r3_def)
  have s: "startsWith (ascii ''at://did:'' @ r1) (ascii ''at://did:'')"
    by (rule startsWith_append)
  have d: "drop 9 (ascii ''at://did:'' @ r1) = r1"
    by (simp add: ascii_def)
  have t1: "takeWhile notSlash r1 = x" and d1: "dropWhile notSlash r1 = 0x2F # r3"
    unfolding r1_def using assms(2) by (rule takeWhile_notSlash, rule dropWhile_notSlash)
  have t3: "takeWhile notSlash r3 = t" and d3: "dropWhile notSlash r3 = 0x2F # k"
    unfolding r3_def using assms(4) by (rule takeWhile_notSlash, rule dropWhile_notSlash)
  have t5: "takeWhile notSlash k = k"
    using assms(6) by (rule takeWhile_notSlash_end)
  show ?thesis
    unfolding a matchAtUriHere_def
    by (simp only: s d t1 d1 t3 d3 t5 Let_def list.sel assms(1,3,5) simp_thms if_False list.simps)
qed

subsection \<open>The text composer\<close>

lemma length_trim_le: "length (trim s) \<le> length s"
  unfolding trim_def
  by (metis length_dropWhile_le length_rev order_trans)

lemma length_removeFirst: "length s \<le> length (removeFirst s p) + length p"
  by (induction s) auto

lemma dropWhile_same_length: "length (dropWhile P xs) = length xs \<Longrightarrow> dropWhile P xs = xs"
  using length_dropWhile_le[of P "tl xs"] by (cases xs) (auto split: if_splits)

lemma trim_id_iff: "length (trim s) = length s \<longleftrightarrow> trim s = s"
proof
  assume l: "length (trim s) = length s"
  have a: "length (dropWhile isWhiteSpace s) \<le> length s" by (rule length_dropWhile_le)
  have b: "length (dropWhile isWhiteSpace (rev (dropWhile isWhiteSpace s))) \<le> length (dropWhile isWhiteSpace s)"
    by (metis length_dropWhile_le length_rev)
  from l a b have a': "length (dropWhile isWhiteSpace s) = length s"
    and b': "length (dropWhile isWhiteSpace (rev (dropWhile isWhiteSpace s))) = length (rev (dropWhile isWhiteSpace s))"
    by (auto simp: trim_def)
  show "trim s = s" unfolding trim_def
    using dropWhile_same_length[OF a'] dropWhile_same_length[OF b'] by simp
qed simp

lemma truncated_shape:
  assumes "length suffix \<le> 297" "297 - length suffix \<le> length body"
  defines "kept \<equiv> trim (slice0 body (300 - int (length suffix) - 3))"
  shows "kept = trim (take (297 - length suffix) body)"
    and "length (kept @ ascii ''...'' @ suffix) \<le> 300"
    and "length (kept @ ascii ''...'' @ suffix) = 300 \<longleftrightarrow>
           trim (take (297 - length suffix) body) = take (297 - length suffix) body"
proof -
  have n: "nat (300 - int (length suffix) - 3) = 297 - length suffix"
    and nn: "\<not> 300 - int (length suffix) - 3 < 0"
    using assms(1) by auto
  show k: "kept = trim (take (297 - length suffix) body)"
    unfolding kept_def slice0_def using n nn by simp
  have lt: "length (take (297 - length suffix) body) = 297 - length suffix"
    using assms(2) by simp
  have le: "length kept \<le> 297 - length suffix"
    unfolding k using length_trim_le[of "take (297 - length suffix) body"] lt by simp
  have l3: "length (ascii ''...'') = 3" by (simp add: ascii_def)
  show "length (kept @ ascii ''...'' @ suffix) \<le> 300"
    using le assms(1) l3 by simp
  have "length (kept @ ascii ''...'' @ suffix) = 300 \<longleftrightarrow> length kept = 297 - length suffix"
    using le assms(1) l3 by auto
  also have "\<dots> \<longleftrightarrow> length (trim (take (297 - length suffix) body)) = length (take (297 - length suffix) body)"
    unfolding k lt ..
  also have "\<dots> \<longleftrightarrow> trim (take (297 - length suffix) body) = take (297 - length suffix) body"
    by (rule trim_id_iff)
  finally show "length (kept @ ascii ''...'' @ suffix) = 300 \<longleftrightarrow>
           trim (take (297 - length suffix) body) = take (297 - length suffix) body" .
qed

lemma getPostText_truncated:
  assumes big: "length (postTextDraft htmlToText properties) > 300"
      and url: "length (p_url properties) \<le> 295"
  defines "suffix \<equiv> newlines @ p_url properties"
  defines "piece \<equiv> take (297 - length suffix) (postTextDraft htmlToText properties)"
  shows "getPostText htmlToText properties includePermalink = trim piece @ ascii ''...'' @ suffix"
    and "length (getPostText htmlToText properties includePermalink) \<le> 300"
    and "length (getPostText htmlToText properties includePermalink) = 300 \<longleftrightarrow> trim piece = piece"
proof -
  have s: "length suffix \<le> 297" using url by (simp add: suffix_def newlines_def)
  have b: "297 - length suffix \<le> length (postTextDraft htmlToText properties)" using big by simp
  have g: "getPostText htmlToText properties includePermalink =
       trim (slice0 (postTextDraft htmlToText properties) (300 - int (length suffix) - 3)) @ ascii ''...'' @ suffix"
    unfolding getPostText_def Let_def suffix_def using big by simp
  show "getPostText htmlToText properties includePermalink = trim piece @ ascii ''...'' @ suffix"
    unfolding g piece_def using truncated_shape(1)[OF s b] by simp
  show "length (getPostText htmlToText properties includePermalink) \<le> 300"
    unfolding g using truncated_shape(2)[OF s b] .
  show "length (getPostText htmlToText properties includePermalink) = 300 \<longleftrightarrow> trim piece = piece"
    unfolding g piece_def using truncated_shape(3)[OF s b] .
qed

lemma getLikePostText_truncated:
  assumes big: "length (likeTextDraft htmlToText properties likedUrl) > 300"
      and url: "length likedUrl \<le> 292"
  defines "suffix \<equiv> newlines @ heart @ ascii '' '' @ likedUrl"
  defines "piece \<equiv> take (297 - length suffix)
                      (removeFirst (likeTextDraft htmlToText properties likedUrl) suffix)"
  shows "getLikePostText htmlToText properties likedUrl = trim piece @ ascii ''...'' @ suffix"
    and "length (getLikePostText htmlToText properties likedUrl) \<le> 300"
    and "length (getLikePostText htmlToText properties likedUrl) = 300 \<longleftrightarrow> trim piece = piece"
proof -
  let ?d = "likeTextDraft htmlToText properties likedUrl"
  have s: "length suffix \<le> 297" using url by (simp add: suffix_def newlines_def heart_def ascii_def)
  have "length ?d \<le> length (removeFirst ?d suffix) + length suffix" by (rule length_removeFirst)
  then have b: "297 - length suffix \<le> length (removeFirst ?d suffix)" using big by simp
  have g: "getLikePostText htmlToText properties likedUrl =
       trim (slice0 (removeFirst ?d suffix) (300 - int (length suffix) - 3)) @ ascii ''...'' @ suffix"
    unfolding getLikePostText_def Let_def suffix_def using big by simp
  show "getLikePostText htmlToText properties likedUrl = trim piece @ ascii ''...'' @ suffix"
    unfolding g piece_def using truncated_shape(1)[OF s b] by simp
  show "length (getLikePostText htmlToText properties likedUrl) \<le> 300"
    unfolding g using truncated_shape(2)[OF s b] .
  show "length (getLikePostText htmlToText properties likedUrl) = 300 \<longleftrightarrow> trim piece = piece"
    unfolding g piece_def using truncated_shape(3)[OF s b] .
qed

lemma uriToPostUrl_wellformed:
  assumes "x \<noteq> []" "0x2F \<notin> set x" "t \<noteq> []" "0x2F \<notin> set t" "k \<noteq> []" "0x2F \<notin> set k"
  shows "uriToPostUrl profileBase (ascii ''at://did:'' @ x @ ascii ''/'' @ t @ ascii ''/'' @ k)
         = Some (profileBase @ ascii ''/'' @ (ascii ''did:'' @ x) @ ascii ''/'' @
                 rev (takeWhile (\<lambda>c. c \<noteq> 0x2E) (rev t)) @ ascii ''/'' @ k)"
proof -
  have "ascii ''at://did:'' @ x @ ascii ''/'' @ t @ ascii ''/'' @ k \<noteq> []"
    by (simp add: ascii_def)
  then obtain c cs where e: "ascii ''at://did:'' @ x @ ascii ''/'' @ t @ ascii ''/'' @ k = c # cs"
    by (cases "ascii ''at://did:'' @ x @ ascii ''/'' @ t @ ascii ''/'' @ k") auto
  have "execAtUri (c # cs) = Some (ascii ''did:'' @ x, t, k)"
    using matchAtUriHere_wf[OF assms] unfolding e by simp
  then show ?thesis unfolding uriToPostUrl_def e by (simp add: last_splitOn)
qed

lemmas text_defs = postTextDraft_def likeTextDraft_def truthy_def contentHtml_def contentText_def orEmpty_def
     newlines_def heart_def ascii_def

lemma draft_longNote: "postTextDraft id longNote = replicate 301 0x61"
  by (simp add: text_defs longNote_def)

lemma includes_replicate: "c \<noteq> d \<Longrightarrow> \<not> includesStr (replicate n c) (d # p)"
  by (induction n) auto

lemma removeFirst_replicate: "c \<noteq> d \<Longrightarrow> removeFirst (replicate n c @ d # p) (d # p) = replicate n c"
proof (induction n)
  case 0
  have "startsWith (d # p) (d # p)" using startsWith_append[of "d # p" "[]"] by simp
  then show ?case by simp
next
  case (Suc n)
  then show ?case by simp
qed

lemma like_draft_longNote: "likeTextDraft id longNote (ascii ''https://other.example/post'') = 
   replicate 301 0x61 @ newlines @ heart @ ascii '' https://other.example/post''"
  by (simp add: text_defs longNote_def includes_replicate)

text \<open>
  Outside the bound on the reference line the result is not within 300 code units: with
  a permalink of 300 code units \<open>maxLen\<close> is negative, \<open>slice\<close> counts it from the
  end of the text, and the result has 601 code units.
\<close>

lemma getPostText_long_permalink:
  "length (p_url longNoteLongPermalink) = 300 \<and>
   length (getPostText id longNoteLongPermalink False) = 601"
  by (simp add: getPostText_def text_defs longNoteLongPermalink_def longNote_def slice0_def
        trim_def isWhiteSpace_def)

subsection \<open>The image compressor\<close>

lemma constrainImage_skip:
  "(\<forall>j<k. \<exists>c. jpeg buffer (quality - 5 * int j) = Inr c \<and> maxBytes < length c) \<Longrightarrow>
   constrainImage jpeg buffer maxBytes quality =
   constrainImage jpeg buffer maxBytes (quality - 5 * int k)"
proof (induction k arbitrary: quality)
  case 0
  then show ?case by simp
next
  case (Suc k)
  from Suc.prems have "\<exists>c. jpeg buffer (quality - 5 * int 0) = Inr c \<and> maxBytes < length c"
    by blast
  then obtain c where c: "jpeg buffer quality = Inr c" "maxBytes < length c" by auto
  have step: "constrainImage jpeg buffer maxBytes quality =
      constrainImage jpeg buffer maxBytes (quality - 5)"
    by (subst constrainImage.simps) (simp add: c)
  have "\<forall>j<k. \<exists>c. jpeg buffer ((quality - 5) - 5 * int j) = Inr c \<and> maxBytes < length c"
  proof (intro allI impI)
    fix j assume "j < k"
    then have "Suc j < Suc k" by simp
    with Suc.prems have *: "\<exists>c. jpeg buffer (quality - 5 * int (Suc j)) = Inr c \<and> maxBytes < length c"
      by blast
    have eq: "quality - 5 * int (Suc j) = (quality - 5) - 5 * int j" by simp
    show "\<exists>c. jpeg buffer ((quality - 5) - 5 * int j) = Inr c \<and> maxBytes < length c"
      using * unfolding eq .
  qed
  from Suc.IH[OF this] have **: "constrainImage jpeg buffer maxBytes (quality - 5) =
     constrainImage jpeg buffer maxBytes (quality - 5 - 5 * int k)" .
  have eq: "quality - 5 - 5 * int k = quality - 5 * int (Suc k)" by simp
  show ?case using step ** unfolding eq by simp
qed

lemma constrainImage_fits_aux:
  assumes "constrainImage jpeg buffer maxBytes quality = Some r"
  shows "\<forall>c. r = Inr c \<longrightarrow>
           length c \<le> maxBytes \<and> (\<exists>k. jpeg buffer (quality - 5 * int k) = Inr c)"
  using assms
proof (induction rule: constrainImage.raw_induct[rotated 1, consumes 1])
  case (1 rec jpeg buffer maxBytes quality r)
  show ?case
  proof (intro allI impI)
    fix d assume r: "r = Inr d"
    show "length d \<le> maxBytes \<and> (\<exists>k. jpeg buffer (quality - 5 * int k) = Inr d)"
    proof (cases "jpeg buffer quality")
      case (Inl e)
      with 1(2) r show ?thesis by auto
    next
      case (Inr c)
      show ?thesis
      proof (cases "maxBytes < length c")
        case True
        with 1(2) Inr have "rec jpeg buffer maxBytes (quality - 5) = Some r" by simp
        from 1(1)[OF this] r obtain k
          where d: "length d \<le> maxBytes" "jpeg buffer (quality - 5 - 5 * int k) = Inr d"
          by auto
        have eq: "quality - 5 - 5 * int k = quality - 5 * int (Suc k)" by simp
        have "\<exists>k. jpeg buffer (quality - 5 * int k) = Inr d"
          using d(2) unfolding eq by (rule exI)
        with d(1) show ?thesis by simp
      next
        case False
        with 1(2) Inr r have dc: "d = c" by simp
        have "jpeg buffer (quality - 5 * int 0) = Inr c" using Inr by simp
        then have "\<exists>k. jpeg buffer (quality - 5 * int k) = Inr c" by (rule exI)
        with dc False show ?thesis by (simp add: not_less)
      qed
    qed
  qed
qed

lemma constrainImage_fits:
  "constrainImage jpeg buffer maxBytes quality = Some (Inr c) \<Longrightarrow>
   length c \<le> maxBytes \<and> (\<exists>k. jpeg buffer (quality - 5 * int k) = Inr c)"
  using constrainImage_fits_aux by blast

lemma constrainImage_never:
  assumes "constrainImage jpeg buffer maxBytes quality = Some r"
    and "\<forall>q. \<exists>c. jpeg buffer q = Inr c \<and> maxBytes < length c"
  shows "False"
  using assms
proof (induction rule: constrainImage.raw_induct[rotated 1, consumes 1])
  case (1 rec jpeg buffer maxBytes quality r)
  from 1(3) obtain c where c: "jpeg buffer quality = Inr c" "maxBytes < length c" by blast
  with 1(2) have "rec jpeg buffer maxBytes (quality - 5) = Some r" by simp
  from 1(1)[OF this 1(3)] show ?case .
qed


lemma constrainImage_stop:
  "jpeg buffer quality = Inr fit \<Longrightarrow> length fit \<le> maxBytes \<Longrightarrow>
   constrainImage jpeg buffer maxBytes quality = Some (Inr fit)"
  by (subst constrainImage.simps) simp

lemma constrainImage_reject:
  "jpeg buffer quality = Inl e \<Longrightarrow> constrainImage jpeg buffer maxBytes quality = Some (Inl e)"
  by (subst constrainImage.simps) simp

subsection \<open>The word-wrapper\<close>

lemma wrapLoop_length:
  "length lines \<le> maxLines \<Longrightarrow>
   length (fst (wrapLoop maxCharsPerLine maxLines words lines currentLine)) \<le> maxLines"
  by (induction maxCharsPerLine maxLines words lines currentLine rule: wrapLoop.induct)
     (auto simp: Let_def)

lemma wrapText_at_most_maxLines:
  assumes "wrapText text maxCharsPerLine maxLines = Inr lines"
  shows "length lines \<le> maxLines"
proof -
  obtain pushed currentLine
    where w: "wrapLoop maxCharsPerLine maxLines (splitWs text) [] [] = (pushed, currentLine)"
    by (cases "wrapLoop maxCharsPerLine maxLines (splitWs text) [] []") auto
  have "length (fst (wrapLoop maxCharsPerLine maxLines (splitWs text) [] [])) \<le> maxLines"
    by (rule wrapLoop_length) simp
  then have p: "length pushed \<le> maxLines" using w by simp
  show ?thesis
    using assms p unfolding wrapText_def w Let_def
    by (auto split: if_splits)
qed

subsection \<open>The metadata fetcher\<close>

lemmas io_defs = io_return_def io_throw_def io_bind_def io_catch_def io_lift_def io_partial_def
  io_effect_def io_call_def

lemma fetchOpenGraphData_returns:
  "\<exists>m w'. fetchOpenGraphData env url (w, calls) = Some (Inr m, (w', calls))"
  unfolding fetchOpenGraphData_def fetchOpenGraphDataBody_def io_defs Let_def
  by (auto split: prod.splits sum.splits option.splits if_splits)

lemma fetchOpenGraphData_fetch_rejected:
  "netFetch env url ogRequestHeaders w = (Inl e, w') \<Longrightarrow>
   fetchOpenGraphData env url (w, calls) = Some (Inr (ogFallback url), (w', calls))"
  unfolding fetchOpenGraphData_def fetchOpenGraphDataBody_def io_defs
  by simp

lemma fetchOpenGraphData_not_ok:
  "netFetch env url ogRequestHeaders w = (Inr r, w') \<Longrightarrow> \<not> r_ok r \<Longrightarrow>
   fetchOpenGraphData env url (w, calls) = Some (Inr (ogFallback url), (w', calls))"
  unfolding fetchOpenGraphData_def fetchOpenGraphDataBody_def io_defs
  by simp

lemma fetchOpenGraphData_text_rejected:
  "netFetch env url ogRequestHeaders w = (Inr r, w') \<Longrightarrow> r_text r = Inl e \<Longrightarrow>
   fetchOpenGraphData env url (w, calls) = Some (Inr (ogFallback url), (w', calls))"
  unfolding fetchOpenGraphData_def fetchOpenGraphDataBody_def io_defs
  by simp

lemma fetchOpenGraphData_parse_error:
  "netFetch env url ogRequestHeaders w = (Inr r, w') \<Longrightarrow> r_text r = Inr html \<Longrightarrow>
   jsdomParse env html = Inl e \<Longrightarrow>
   fetchOpenGraphData env url (w, calls) = Some (Inr (ogFallback url), (w', calls))"
  unfolding fetchOpenGraphData_def fetchOpenGraphDataBody_def io_defs
  by simp

lemma length_slice0_nat: "length (slice0 s (int n)) \<le> n"
  by (simp add: slice0_def)

lemma fetchOpenGraphData_caps:
  assumes "fetchOpenGraphData env url s = Some (Inr m, s')"
  shows "m = ogFallback url \<or> (length (m_title m) \<le> 300 \<and> length (m_description m) \<le> 1000)"
proof -
  have a: "length (slice0 t 300) \<le> 300" for t :: jsstring
    using length_slice0_nat[of t 300] by simp
  have b: "length (slice0 t 1000) \<le> 1000" for t :: jsstring
    using length_slice0_nat[of t 1000] by simp
  show ?thesis
    using assms unfolding fetchOpenGraphData_def fetchOpenGraphDataBody_def io_defs Let_def
    by (auto simp: a b split: prod.splits sum.splits option.splits if_splits)
qed

lemmas example_env_defs = exampleEnv_def offlineEnv_def notFoundEnv_def brokenBodyEnv_def
  brokenParserEnv_def notFoundResponse_def brokenBodyResponse_def exampleResponse_def

section \<open>Properties of the dispatcher\<close>

subsection \<open>Running a computation step by step\<close>

lemma io_bind_cases:
  assumes "io_bind m f s = Some (r, s')"
  obtains (thrown) e where "m s = Some (Inl e, s')" "r = Inl e"
        | (returned) a s1 where "m s = Some (Inr a, s1)" "f a s1 = Some (r, s')"
  using assms unfolding io_bind_def
  by (auto split: option.splits sum.splits prod.splits)

lemma io_catch_cases:
  assumes "io_catch m h s = Some (r, s')"
  obtains (caught) e s1 where "m s = Some (Inl e, s1)" "h e s1 = Some (r, s')"
        | (returned) a where "m s = Some (Inr a, s')" "r = Inr a"
  using assms unfolding io_catch_def
  by (auto split: option.splits sum.splits prod.splits)

lemma io_bind_returned:
  "m s = Some (Inr a, s1) \<Longrightarrow> io_bind m f s = f a s1"
  by (simp add: io_bind_def)

lemma io_bind_thrown:
  "m s = Some (Inl e, s1) \<Longrightarrow> io_bind m f s = Some (Inl e, s1)"
  by (simp add: io_bind_def)

subsection \<open>Computations that make no posting call\<close>

lemma keepsPostingI:
  "(\<And>s r s'. m s = Some (r, s') \<Longrightarrow> postingCalls (snd s') = postingCalls (snd s)) \<Longrightarrow>
   keepsPosting m"
  unfolding keepsPosting_def by blast

lemma keepsPostingD:
  "keepsPosting m \<Longrightarrow> m s = Some (r, s') \<Longrightarrow> postingCalls (snd s') = postingCalls (snd s)"
  unfolding keepsPosting_def by blast

lemma keeps_return [intro!, simp]: "keepsPosting (io_return a)"
  by (auto simp: keepsPosting_def io_return_def)

lemma keeps_throw [intro!, simp]: "keepsPosting (io_throw e)"
  by (auto simp: keepsPosting_def io_throw_def)

lemma keeps_lift [intro!, simp]: "keepsPosting (io_lift r)"
  by (auto simp: keepsPosting_def io_lift_def)

lemma keeps_partial [intro!, simp]: "keepsPosting (io_partial r)"
  by (auto simp: keepsPosting_def io_partial_def split: option.splits)

lemma keeps_effect [intro!, simp]: "keepsPosting (io_effect f)"
  by (auto simp: keepsPosting_def io_effect_def split: prod.splits)

lemma keeps_call: "\<not> isPostingCall c \<Longrightarrow> keepsPosting (io_call c f)"
  by (auto simp: keepsPosting_def io_call_def postingCalls_def split: prod.splits)

lemma keeps_bind [intro!]:
  assumes "keepsPosting m" "\<And>a. keepsPosting (f a)"
  shows "keepsPosting (io_bind m f)"
proof (rule keepsPostingI)
  fix s r s' assume "io_bind m f s = Some (r, s')"
  then show "postingCalls (snd s') = postingCalls (snd s)"
  proof (cases rule: io_bind_cases)
    case (thrown e)
    then show ?thesis using assms(1) by (auto dest: keepsPostingD)
  next
    case (returned a s1)
    then show ?thesis using assms(1) assms(2)[of a] by (auto dest!: keepsPostingD)
  qed
qed

lemma keeps_catch [intro!]:
  assumes "keepsPosting m" "\<And>e. keepsPosting (h e)"
  shows "keepsPosting (io_catch m h)"
proof (rule keepsPostingI)
  fix s r s' assume "io_catch m h s = Some (r, s')"
  then show "postingCalls (snd s') = postingCalls (snd s)"
  proof (cases rule: io_catch_cases)
    case (caught e s1)
    then show ?thesis using assms(1) assms(2)[of e] by (auto dest!: keepsPostingD)
  next
    case (returned a)
    then show ?thesis using assms(1) by (auto dest: keepsPostingD)
  qed
qed

lemma keeps_if [intro!]:
  "(c \<Longrightarrow> keepsPosting m) \<Longrightarrow> (\<not> c \<Longrightarrow> keepsPosting n) \<Longrightarrow> keepsPosting (if c then m else n)"
  by simp

lemma keeps_client [intro!, simp]: "keepsPosting (client env self)"
  unfolding client_def by (rule keeps_call) simp

lemma nextUpload_pending:
  assumes "pendingIndices uploads \<noteq> []"
  shows "nextUpload env uploads s < length uploads"
    and "pendingUpload (uploads ! nextUpload env uploads s)"
proof -
  have "nextUpload env uploads s \<in> set (pendingIndices uploads)"
    unfolding nextUpload_def using assms by simp
  then show "nextUpload env uploads s < length uploads"
    and "pendingUpload (uploads ! nextUpload env uploads s)"
    unfolding pendingIndices_def by auto
qed

lemma pendingIndices_empty:
  "pendingIndices uploads = [] \<longleftrightarrow> (\<forall>i<length uploads. \<not> pendingUpload (uploads ! i))"
  by (auto simp: pendingIndices_def filter_empty_conv)

declare promiseAll.simps [simp del]

lemma promiseAll_done:
  "pendingIndices uploads = [] \<Longrightarrow>
   promiseAll env self me photos uploads firstRejection s = (uploads, firstRejection, s)"
  by (subst promiseAll.simps) simp

lemma promiseAll_step:
  "pendingIndices uploads \<noteq> [] \<Longrightarrow>
   promiseAll env self me photos uploads firstRejection s =
   promiseAll env self me photos
     (uploads[nextUpload env uploads s :=
        fst (uploadMedia env self (photos ! nextUpload env uploads s) me
               (uploads ! nextUpload env uploads s) s)])
     (noteRejection firstRejection
        (fst (uploadMedia env self (photos ! nextUpload env uploads s) me
               (uploads ! nextUpload env uploads s) s)))
     (snd (uploadMedia env self (photos ! nextUpload env uploads s) me
               (uploads ! nextUpload env uploads s) s))"
  by (subst promiseAll.simps) (simp add: Let_def split: prod.splits)

text \<open>
  What holds of the calls at the start, and is kept when a pending call is resumed,
  holds when none is pending any more.
\<close>

lemma promiseAll_invariant:
  assumes "I uploads firstRejection s"
    and "\<And>uploads firstRejection s i.
           I uploads firstRejection s \<Longrightarrow> i < length uploads \<Longrightarrow> pendingUpload (uploads ! i) \<Longrightarrow>
           I (uploads[i := fst (uploadMedia env self (photos ! i) me (uploads ! i) s)])
             (noteRejection firstRejection (fst (uploadMedia env self (photos ! i) me (uploads ! i) s)))
             (snd (uploadMedia env self (photos ! i) me (uploads ! i) s))"
  shows "I (fst (promiseAll env self me photos uploads firstRejection s))
           (fst (snd (promiseAll env self me photos uploads firstRejection s)))
           (snd (snd (promiseAll env self me photos uploads firstRejection s))) \<and>
         pendingIndices (fst (promiseAll env self me photos uploads firstRejection s)) = []"
  using assms
proof (induction env self me photos uploads firstRejection s rule: promiseAll.induct)
  case (1 env self me photos uploads firstRejection s)
  show ?case
  proof (cases "pendingIndices uploads = []")
    case True
    then show ?thesis using 1(2) by (simp add: promiseAll_done)
  next
    case False
    let ?i = "nextUpload env uploads s"
    let ?r = "uploadMedia env self (photos ! ?i) me (uploads ! ?i) s"
    have "I (uploads[?i := fst ?r]) (noteRejection firstRejection (fst ?r)) (snd ?r)"
      using 1(3)[OF 1(2) nextUpload_pending[OF False, of env s]] .
    from 1(1)[OF False refl refl prod.collapse this 1(3)]
    show ?thesis unfolding promiseAll_step[OF False] by simp
  qed
qed

text \<open>A call of \<open>uploadMedia\<close> logs in and uploads; it makes no posting call.\<close>

lemma postingCalls_append: "postingCalls (xs @ ys) = postingCalls xs @ postingCalls ys"
  by (simp add: postingCalls_def)

lemma uploadMedia_extends:
  "\<exists>extra. snd (snd (uploadMedia env self media me upload s)) = snd s @ extra \<and>
           postingCalls extra = []"
  by (cases upload; cases s) (auto simp: postingCalls_def split: prod.splits)

lemma promiseAll_extends:
  "\<exists>extra. snd (snd (snd (promiseAll env self me photos uploads firstRejection s))) = snd s @ extra \<and>
           postingCalls extra = []"
proof -
  let ?I = "\<lambda>(uploads :: upload list) (firstRejection :: js_error option) t.
              \<exists>extra. snd t = snd s @ extra \<and> postingCalls extra = []"
  have "?I uploads firstRejection s" by (simp add: postingCalls_def)
  moreover have "?I (uploads[i := fst (uploadMedia env self (photos ! i) me (uploads ! i) t)])
             (noteRejection firstRejection (fst (uploadMedia env self (photos ! i) me (uploads ! i) t)))
             (snd (uploadMedia env self (photos ! i) me (uploads ! i) t))"
    if "?I uploads firstRejection t" for uploads firstRejection t i
  proof -
    from that obtain extra where e: "snd t = snd s @ extra" "postingCalls extra = []" by blast
    from uploadMedia_extends[of env self "photos ! i" me "uploads ! i" t]
    obtain more where m: "snd (snd (uploadMedia env self (photos ! i) me (uploads ! i) t)) = snd t @ more"
      "postingCalls more = []" by blast
    have "snd (snd (uploadMedia env self (photos ! i) me (uploads ! i) t)) = snd s @ (extra @ more)"
      using e m by simp
    moreover have "postingCalls (extra @ more) = []" using e m by (simp add: postingCalls_append)
    ultimately show ?thesis by blast
  qed
  ultimately show ?thesis
    using promiseAll_invariant[where I = ?I and uploads = uploads and firstRejection = firstRejection
        and s = s and env = env and self = self and me = me and photos = photos]
    by blast
qed

text \<open>What \<open>uploadImages\<close> makes of the calls once none is pending.\<close>

lemma uploadImages_unfold:
  assumes "p_photo properties = Some photos"
    and "uploadImages env self properties me s = Some (r, s')"
  shows "s' = snd (snd (promiseAll env self me (take 4 photos)
                  (map (\<lambda>photo. AwaitClient) (take 4 photos)) None s))"
    and "r = (case fst (snd (promiseAll env self me (take 4 photos)
                  (map (\<lambda>photo. AwaitClient) (take 4 photos)) None s)) of
                Some e \<Rightarrow> Inl e
              | None \<Rightarrow>
                  Inr (map2 (\<lambda>photo upload. \<lparr> im_alt = orEmpty (ph_alt photo),
                                              im_image = uploadedImage upload \<rparr>)
                         (take 4 photos)
                         (fst (promiseAll env self me (take 4 photos)
                            (map (\<lambda>photo. AwaitClient) (take 4 photos)) None s))))"
    and "r = Inr images \<Longrightarrow>
         fst (snd (promiseAll env self me (take 4 photos)
                  (map (\<lambda>photo. AwaitClient) (take 4 photos)) None s)) = None \<and>
         Hanging \<notin> set (fst (promiseAll env self me (take 4 photos)
                  (map (\<lambda>photo. AwaitClient) (take 4 photos)) None s))"
  using assms unfolding uploadImages_def
  by (auto simp: Let_def split: prod.splits option.splits if_splits)

lemma keeps_uploadImages [intro!, simp]: "keepsPosting (uploadImages env self properties me)"
proof (cases "p_photo properties")
  case None
  then show ?thesis unfolding uploadImages_def by simp
next
  case (Some photos)
  show ?thesis
  proof (rule keepsPostingI)
    fix s r s' assume "uploadImages env self properties me s = Some (r, s')"
    from uploadImages_unfold(1)[OF Some this]
      promiseAll_extends[of env self me "take 4 photos" "map (\<lambda>photo. AwaitClient) (take 4 photos)" None s]
    show "postingCalls (snd s') = postingCalls (snd s)"
      by (auto simp: postingCalls_append)
  qed
qed

lemma keeps_createRichText [intro!, simp]: "keepsPosting (createRichText env text)"
  unfolding createRichText_def by auto


subsection \<open>The dispatcher\<close>

lemma io_catch_rethrow:
  "io_catch m (\<lambda>error. case error of JsError message \<Rightarrow> io_throw (JsError message)) = m"
  by (rule ext) (auto simp: io_catch_def io_throw_def split: option.splits sum.splits js_error.splits)

lemma post_unfold:
  "post env self properties me =
     io_bind (client env self) (\<lambda>_.
     io_bind (uploadImages env self properties me) (\<lambda>images.
       if truthy (p_repost_of properties) then
         handleRepost env self properties images (orEmpty (p_repost_of properties))
       else if truthy (p_like_of properties) then
         handleLike env self properties images (orEmpty (p_like_of properties))
       else if truthy (p_bookmark_of properties) then
         handleBookmark env self properties images (orEmpty (p_bookmark_of properties))
       else handleRegular env self properties images))"
  unfolding post_def by (rule io_catch_rethrow)

text \<open>
  The images that the uploads give, whatever the order in which the event loop resumed
  the calls: one for each of the first four photos, in the order of the photos, with
  the alternative text of its photo; its blob reference is \<open>undefined\<close> just when the
  photo has no URL, and otherwise it is the answer to an \<open>uploadBlob\<close> call made since
  the uploads started.
\<close>

lemma uploadImages_gallery:
  fixes env :: "'w env"
  assumes "p_photo properties = Some photos"
    and "uploadImages env self properties me s = Some (Inr images, s')"
  shows "length images = min 4 (length photos)"
    and "list_all2 (\<lambda>photo im. im_alt im = orEmpty (ph_alt photo) \<and>
                                (im_image im = None \<longleftrightarrow> ph_url photo = None))
           (take 4 photos) images"
    and "\<forall>im\<in>set images. \<forall>b. im_image im = Some b \<longrightarrow>
           (\<exists>blob encoding w. UploadBlob blob encoding \<in> set (drop (length (snd s)) (snd s')) \<and>
                              fst (agentUploadBlob env blob encoding w) = Inr b)"
proof -
  let ?photos = "take 4 photos"
  let ?all = "promiseAll env self me ?photos (map (\<lambda>photo. AwaitClient) ?photos) None s"
  define G where "G = (\<lambda>extra (media :: photo) upload.
     case upload of
       AwaitClient \<Rightarrow> True
     | AwaitFetch mediaUrl \<Rightarrow> ph_url media \<noteq> None
     | AwaitUploadBlob blob encoding \<Rightarrow> ph_url media \<noteq> None
     | Fulfilled uploaded \<Rightarrow>
         (case uploaded of
            None \<Rightarrow> ph_url media = None
          | Some b \<Rightarrow> ph_url media \<noteq> None \<and>
              (\<exists>blob encoding w. UploadBlob blob encoding \<in> set extra \<and>
                                 fst (agentUploadBlob env blob encoding w) = Inr b))
     | Rejected e \<Rightarrow> True
     | Hanging \<Rightarrow> True)"
  define I where "I = (\<lambda>uploads (firstRejection :: js_error option) (t :: 'w \<times> call list).
     length uploads = length ?photos \<and>
     (firstRejection = None \<longrightarrow> (\<forall>i<length uploads. \<forall>e. uploads ! i \<noteq> Rejected e)) \<and>
     (\<exists>extra. snd t = snd s @ extra \<and> (\<forall>i<length uploads. G extra (?photos ! i) (uploads ! i))))"
  have G_mono: "G (extra @ more) media upload" if "G extra media upload" for extra more media upload
    using that unfolding G_def by (auto split: upload.splits option.splits)
  have G_step: "\<exists>more. snd (snd (uploadMedia env self media me upload t)) = snd t @ more \<and>
                       G (extra @ more) media (fst (uploadMedia env self media me upload t))"
    if "pendingUpload upload" "G extra media upload" for extra media upload t
  proof (cases upload)
    case (AwaitUploadBlob blob encoding)
    obtain w calls where t: "t = (w, calls)" by (cases t)
    obtain r w' where r: "agentUploadBlob env blob encoding w = (r, w')"
      by (cases "agentUploadBlob env blob encoding w")
    have "fst (agentUploadBlob env blob encoding w) = r" using r by simp
    then have "G (extra @ [UploadBlob blob encoding]) media
                 (case r of Inl e \<Rightarrow> Rejected e | Inr uploaded \<Rightarrow> Fulfilled (Some uploaded))"
      using that(2) unfolding G_def AwaitUploadBlob
      by (cases r) auto
    then show ?thesis unfolding AwaitUploadBlob t by (simp add: r)
  qed (use that in \<open>cases t; auto simp: G_def split: prod.splits sum.splits option.splits\<close>)+
  have init: "I (map (\<lambda>photo. AwaitClient) ?photos) None s"
    unfolding I_def G_def by simp
  have step: "I (uploads[i := fst (uploadMedia env self (?photos ! i) me (uploads ! i) t)])
             (noteRejection firstRejection (fst (uploadMedia env self (?photos ! i) me (uploads ! i) t)))
             (snd (uploadMedia env self (?photos ! i) me (uploads ! i) t))"
    if inv: "I uploads firstRejection t" and i: "i < length uploads" and p: "pendingUpload (uploads ! i)"
    for uploads firstRejection t i
  proof -
    let ?r = "uploadMedia env self (?photos ! i) me (uploads ! i) t"
    from inv obtain extra where len: "length uploads = length ?photos"
      and rej: "firstRejection = None \<longrightarrow> (\<forall>i<length uploads. \<forall>e. uploads ! i \<noteq> Rejected e)"
      and ext: "snd t = snd s @ extra"
      and g: "\<forall>j<length uploads. G extra (?photos ! j) (uploads ! j)"
      unfolding I_def by blast
    from G_step[OF p g[rule_format, OF i], where t = t]
    obtain more where m: "snd (snd ?r) = snd t @ more" "G (extra @ more) (?photos ! i) (fst ?r)"
      by blast
    have a: "length (uploads[i := fst ?r]) = length ?photos" using len by simp
    have b: "noteRejection firstRejection (fst ?r) = None \<longrightarrow>
             (\<forall>j<length (uploads[i := fst ?r]). \<forall>e. uploads[i := fst ?r] ! j \<noteq> Rejected e)"
    proof (intro impI allI)
      fix j e
      assume nr: "noteRejection firstRejection (fst ?r) = None"
        and j: "j < length (uploads[i := fst ?r])"
      from nr have fe: "firstRejection = None" and new: "\<forall>e. fst ?r \<noteq> Rejected e"
        by (auto simp: noteRejection_def split: option.splits upload.splits)
      show "uploads[i := fst ?r] ! j \<noteq> Rejected e"
        using j rej fe new by (cases "j = i") simp_all
    qed
    have c: "snd (snd ?r) = snd s @ (extra @ more)" using ext m(1) by simp
    have d: "\<forall>j<length (uploads[i := fst ?r]). G (extra @ more) (?photos ! j) (uploads[i := fst ?r] ! j)"
    proof (intro allI impI)
      fix j assume j: "j < length (uploads[i := fst ?r])"
      show "G (extra @ more) (?photos ! j) (uploads[i := fst ?r] ! j)"
      proof (cases "j = i")
        case True
        then show ?thesis using m(2) j by simp
      next
        case False
        then show ?thesis using G_mono[OF g[rule_format, of j]] j by simp
      qed
    qed
    show ?thesis unfolding I_def using a b c d by blast
  qed
  from promiseAll_invariant[where I = I, OF init step]
  have fin: "I (fst ?all) (fst (snd ?all)) (snd (snd ?all))" and settled: "pendingIndices (fst ?all) = []"
    by blast+
  note u = uploadImages_unfold[OF assms]
  from u(3) have none: "fst (snd ?all) = None" and hang: "Hanging \<notin> set (fst ?all)" by simp_all
  from fin none obtain extra where len: "length (fst ?all) = length ?photos"
    and rej: "\<forall>i<length (fst ?all). \<forall>e. fst ?all ! i \<noteq> Rejected e"
    and ext: "snd (snd (snd ?all)) = snd s @ extra"
    and g: "\<forall>i<length (fst ?all). G extra (?photos ! i) (fst ?all ! i)"
    unfolding I_def by auto
  have ims: "images = map2 (\<lambda>photo upload. \<lparr> im_alt = orEmpty (ph_alt photo),
                                              im_image = uploadedImage upload \<rparr>) ?photos (fst ?all)"
    using u(2) none by simp
  have extra: "drop (length (snd s)) (snd s') = extra" using u(1) ext by simp
  have ful: "\<exists>uploaded. fst ?all ! i = Fulfilled uploaded \<and> G extra (?photos ! i) (Fulfilled uploaded)"
    if "i < length (fst ?all)" for i
  proof -
    from settled that have "\<not> pendingUpload (fst ?all ! i)" by (simp add: pendingIndices_empty)
    moreover from hang that have "fst ?all ! i \<noteq> Hanging" by (metis nth_mem)
    moreover from rej that have "\<forall>e. fst ?all ! i \<noteq> Rejected e" by simp
    ultimately obtain uploaded where "fst ?all ! i = Fulfilled uploaded"
      by (cases "fst ?all ! i") auto
    with g that show ?thesis by metis
  qed
  show l: "length images = min 4 (length photos)" unfolding ims using len by simp
  have li: "length images = length (fst ?all)" unfolding ims using len by simp
  have nth: "images ! i = \<lparr> im_alt = orEmpty (ph_alt (?photos ! i)),
                           im_image = uploadedImage (fst ?all ! i) \<rparr>"
    if "i < length images" for i
    using that len unfolding ims by simp
  show "list_all2 (\<lambda>photo im. im_alt im = orEmpty (ph_alt photo) \<and>
                                (im_image im = None \<longleftrightarrow> ph_url photo = None))
           (take 4 photos) images"
  proof (rule list_all2_all_nthI)
    show "length ?photos = length images" using li len by simp
  next
    fix i assume "i < length ?photos"
    then have i: "i < length images" "i < length (fst ?all)" using li len by simp_all
    from ful[OF i(2)] obtain uploaded where f: "fst ?all ! i = Fulfilled uploaded"
      "G extra (?photos ! i) (Fulfilled uploaded)" by blast
    show "im_alt (images ! i) = orEmpty (ph_alt (?photos ! i)) \<and>
          (im_image (images ! i) = None \<longleftrightarrow> ph_url (?photos ! i) = None)"
      using f unfolding nth[OF i(1)] G_def uploadedImage_def
      by (auto split: option.splits)
  qed
  show "\<forall>im\<in>set images. \<forall>b. im_image im = Some b \<longrightarrow>
           (\<exists>blob encoding w. UploadBlob blob encoding \<in> set (drop (length (snd s)) (snd s')) \<and>
                              fst (agentUploadBlob env blob encoding w) = Inr b)"
  proof (intro ballI allI impI)
    fix im b assume "im \<in> set images" and b: "im_image im = Some b"
    then obtain i where i: "i < length images" "im = images ! i" by (metis in_set_conv_nth)
    then have i2: "i < length (fst ?all)" using li by simp
    from ful[OF i2] obtain uploaded where f: "fst ?all ! i = Fulfilled uploaded"
      "G extra (?photos ! i) (Fulfilled uploaded)" by blast
    from b have "uploaded = Some b" unfolding i(2) nth[OF i(1)] f(1) uploadedImage_def by simp
    with f(2) show "\<exists>blob encoding w. UploadBlob blob encoding \<in> set (drop (length (snd s)) (snd s')) \<and>
                              fst (agentUploadBlob env blob encoding w) = Inr b"
      unfolding extra G_def by simp
  qed
qed

text \<open>
  The uploads return when no awaited step of them fails: every login succeeds, the
  URLs of the photos are resolved, every fetch gives an \<open>ok\<close> response whose body
  can be read and, if it is an image, compressed, and every \<open>uploadBlob\<close> succeeds.
\<close>

lemma uploadImages_returns:
  fixes env :: "'w env"
  assumes login: "\<forall>w. fst (agentLogin env (this_serviceUrl self) (this_identifier self)
                        (this_password self) w) = Inr ()"
    and canonical: "\<forall>photo\<in>set (take 4 photos). \<forall>url. ph_url photo = Some url \<longrightarrow>
                      (\<exists>mediaUrl. utilGetCanonicalUrl env url me = Inr mediaUrl)"
    and fetch: "\<forall>mediaUrl w. \<exists>mediaResponse blob.
                  fst (netFetch env mediaUrl [] w) = Inr mediaResponse \<and> r_ok mediaResponse \<and>
                  r_blob mediaResponse = Inr blob \<and>
                  (startsWith (orEmpty (r_contentType mediaResponse)) (ascii ''image/'') \<longrightarrow>
                   (\<exists>compressed. getPostImage (sharpJpeg env) blob
                                   (orEmpty (r_contentType mediaResponse)) = Some (Inr compressed)))"
    and upload: "\<forall>blob encoding w. \<exists>uploaded. fst (agentUploadBlob env blob encoding w) = Inr uploaded"
    and photos: "p_photo properties = Some photos"
  shows "\<exists>images s'. uploadImages env self properties me s = Some (Inr images, s')"
proof -
  let ?photos = "take 4 photos"
  let ?all = "promiseAll env self me ?photos (map (\<lambda>photo. AwaitClient) ?photos) None s"
  define I where "I = (\<lambda>uploads (firstRejection :: js_error option) (t :: 'w \<times> call list).
     length uploads = length ?photos \<and> firstRejection = None \<and>
     (\<forall>i<length uploads. (\<forall>e. uploads ! i \<noteq> Rejected e) \<and> uploads ! i \<noteq> Hanging))"
  have one: "(\<forall>e. fst (uploadMedia env self media me upload t) \<noteq> Rejected e) \<and>
             fst (uploadMedia env self media me upload t) \<noteq> Hanging"
    if "pendingUpload upload" "media \<in> set ?photos" for media upload t
  proof (cases upload)
    case AwaitClient
    obtain w calls where t: "t = (w, calls)" by (cases t)
    from login have l: "fst (agentLogin env (this_serviceUrl self) (this_identifier self)
                        (this_password self) w) = Inr ()" by simp
    show ?thesis
    proof (cases "ph_url media")
      case None
      then show ?thesis unfolding AwaitClient t using l by (auto split: prod.splits)
    next
      case (Some url)
      with canonical that(2) obtain mediaUrl where "utilGetCanonicalUrl env url me = Inr mediaUrl"
        by blast
      then show ?thesis unfolding AwaitClient t using l Some by (auto split: prod.splits)
    qed
  next
    case (AwaitFetch mediaUrl)
    obtain w calls where t: "t = (w, calls)" by (cases t)
    from fetch obtain mediaResponse blob where
      f: "fst (netFetch env mediaUrl [] w) = Inr mediaResponse" "r_ok mediaResponse"
        "r_blob mediaResponse = Inr blob"
        "startsWith (orEmpty (r_contentType mediaResponse)) (ascii ''image/'') \<longrightarrow>
           (\<exists>compressed. getPostImage (sharpJpeg env) blob
                           (orEmpty (r_contentType mediaResponse)) = Some (Inr compressed))"
      by blast
    show ?thesis unfolding AwaitFetch t using f by (auto split: prod.splits if_splits)
  next
    case (AwaitUploadBlob blob encoding)
    obtain w calls where t: "t = (w, calls)" by (cases t)
    from upload obtain uploaded where "fst (agentUploadBlob env blob encoding w) = Inr uploaded"
      by blast
    then show ?thesis unfolding AwaitUploadBlob t by (auto split: prod.splits)
  qed (use that in simp_all)
  have init: "I (map (\<lambda>photo. AwaitClient) ?photos) None s"
    unfolding I_def by simp
  have step: "I (uploads[i := fst (uploadMedia env self (?photos ! i) me (uploads ! i) t)])
             (noteRejection firstRejection (fst (uploadMedia env self (?photos ! i) me (uploads ! i) t)))
             (snd (uploadMedia env self (?photos ! i) me (uploads ! i) t))"
    if inv: "I uploads firstRejection t" and i: "i < length uploads" and p: "pendingUpload (uploads ! i)"
    for uploads firstRejection t i
  proof -
    let ?r = "uploadMedia env self (?photos ! i) me (uploads ! i) t"
    from inv have len: "length uploads = length ?photos" and none: "firstRejection = None"
      and ok: "\<forall>j<length uploads. (\<forall>e. uploads ! j \<noteq> Rejected e) \<and> uploads ! j \<noteq> Hanging"
      unfolding I_def by simp_all
    from i len have "?photos ! i \<in> set ?photos" by (metis nth_mem)
    from one[OF p this, of t] have new: "\<forall>e. fst ?r \<noteq> Rejected e" "fst ?r \<noteq> Hanging"
      by simp_all
    have a: "length (uploads[i := fst ?r]) = length ?photos" using len by simp
    have b: "noteRejection firstRejection (fst ?r) = None"
      using new(1) none by (cases "fst ?r") (simp_all add: noteRejection_def)
    have c: "(\<forall>e. uploads[i := fst ?r] ! j \<noteq> Rejected e) \<and> uploads[i := fst ?r] ! j \<noteq> Hanging"
      if "j < length (uploads[i := fst ?r])" for j
      using that ok new by (cases "j = i") simp_all
    show ?thesis unfolding I_def using a b c by blast
  qed
  from promiseAll_invariant[where I = I, OF init step]
  have fin: "I (fst ?all) (fst (snd ?all)) (snd (snd ?all))" by blast
  then have "fst (snd ?all) = None" and "Hanging \<notin> set (fst ?all)"
    unfolding I_def by (auto simp: in_set_conv_nth)
  then show ?thesis
    unfolding uploadImages_def photos by (auto simp: Let_def split: prod.splits)
qed

text \<open>
  \<open>postPost\<close> with images, once the login and the clock have succeeded: the record
  with the gallery is handed to the backend, and the outcome is the backend's.
\<close>

lemma postPost_run:
  assumes "client env self s = Some (Inr (), s4)"
    and "clockNow env (fst s4) = (Inr createdAt, w5)"
    and "images \<noteq> []"
  shows "postPost env self richText images externalEmbed s =
           Some (map_sum id (uriToPostUrl (this_profileUrl self))
                   (fst (agentPost env \<lparr> pd_text = rt_text richText, pd_facets = rt_facets richText,
                                         pd_createdAt = createdAt,
                                         pd_embed = Some (EmbedImages images) \<rparr> w5)),
                 (snd (agentPost env \<lparr> pd_text = rt_text richText, pd_facets = rt_facets richText,
                                       pd_createdAt = createdAt,
                                       pd_embed = Some (EmbedImages images) \<rparr> w5),
                  snd s4 @ [CreatePost \<lparr> pd_text = rt_text richText, pd_facets = rt_facets richText,
                                         pd_createdAt = createdAt,
                                         pd_embed = Some (EmbedImages images) \<rparr>]))"
proof -
  obtain w4 calls4 where s4: "s4 = (w4, calls4)" by (cases s4)
  show ?thesis
    unfolding postPost_def Let_def
    using assms(2,3) unfolding s4
    by (simp add: io_bind_def assms(1)[unfolded s4] io_effect_def io_call_def io_return_def
          split: prod.splits sum.splits)
qed

text \<open>
  The run of \<open>post\<close> for a regular post with images, step by step: the login, the
  uploads, the annotator, the login of \<open>postPost\<close> and the clock.
\<close>

lemma post_regular_run:
  assumes "\<not> truthy (p_repost_of properties)" "\<not> truthy (p_like_of properties)"
      "\<not> truthy (p_bookmark_of properties)"
    and "images \<noteq> []"
    and "client env self s = Some (Inr (), s1)"
    and "uploadImages env self properties me s1 = Some (Inr images, s2)"
    and "createRichText env
           (utilsBuildPostText env properties (getExternalUrl (urlHostname env) properties None)) s2
         = Some (Inr richText, s3)"
    and "client env self s3 = Some (Inr (), s4)"
    and "clockNow env (fst s4) = (Inr createdAt, w5)"
  shows "post env self properties me s =
           Some (map_sum id (uriToPostUrl (this_profileUrl self))
                   (fst (agentPost env \<lparr> pd_text = rt_text richText, pd_facets = rt_facets richText,
                                         pd_createdAt = createdAt,
                                         pd_embed = Some (EmbedImages images) \<rparr> w5)),
                 (snd (agentPost env \<lparr> pd_text = rt_text richText, pd_facets = rt_facets richText,
                                       pd_createdAt = createdAt,
                                       pd_embed = Some (EmbedImages images) \<rparr> w5),
                  snd s4 @ [CreatePost \<lparr> pd_text = rt_text richText, pd_facets = rt_facets richText,
                                         pd_createdAt = createdAt,
                                         pd_embed = Some (EmbedImages images) \<rparr>]))"
    and "postingCalls (snd s4) = postingCalls (snd s)"
proof -
  have "handleRegular env self properties images s2 =
          postPost env self richText images None s3"
    unfolding handleRegular_def Let_def using assms(4,7)
    by (simp add: io_bind_def io_return_def)
  then have "post env self properties me s = postPost env self richText images None s3"
    unfolding post_unfold using assms(1-3,5,6) by (simp add: io_bind_def)
  then show "post env self properties me s =
           Some (map_sum id (uriToPostUrl (this_profileUrl self))
                   (fst (agentPost env \<lparr> pd_text = rt_text richText, pd_facets = rt_facets richText,
                                         pd_createdAt = createdAt,
                                         pd_embed = Some (EmbedImages images) \<rparr> w5)),
                 (snd (agentPost env \<lparr> pd_text = rt_text richText, pd_facets = rt_facets richText,
                                       pd_createdAt = createdAt,
                                       pd_embed = Some (EmbedImages images) \<rparr> w5),
                  snd s4 @ [CreatePost \<lparr> pd_text = rt_text richText, pd_facets = rt_facets richText,
                                         pd_createdAt = createdAt,
                                         pd_embed = Some (EmbedImages images) \<rparr>]))"
    using postPost_run[OF assms(8,9,4)] by simp
  have "postingCalls (snd s1) = postingCalls (snd s)"
    using assms(5) by (rule keepsPostingD[OF keeps_client])
  moreover have "postingCalls (snd s2) = postingCalls (snd s1)"
    using assms(6) by (rule keepsPostingD[OF keeps_uploadImages])
  moreover have "postingCalls (snd s3) = postingCalls (snd s2)"
    using assms(7) by (rule keepsPostingD[OF keeps_createRichText])
  moreover have "postingCalls (snd s4) = postingCalls (snd s3)"
    using assms(8) by (rule keepsPostingD[OF keeps_client])
  ultimately show "postingCalls (snd s4) = postingCalls (snd s)" by simp
qed

lemma client_returns:
  assumes "\<forall>w. fst (agentLogin env (this_serviceUrl self) (this_identifier self)
                    (this_password self) w) = Inr ()"
  shows "\<exists>s1. client env self s = Some (Inr (), s1)"
proof -
  obtain w calls where s: "s = (w, calls)" by (cases s)
  from assms have "fst (agentLogin env (this_serviceUrl self) (this_identifier self)
                    (this_password self) w) = Inr ()" by simp
  then show ?thesis unfolding s client_def io_call_def by (auto split: prod.splits)
qed

lemma createRichText_returns:
  assumes "\<forall>text w. \<exists>detected. fst (agentDetectFacets env text w) = Inr detected"
  shows "\<exists>richText s3. createRichText env text s = Some (Inr richText, s3) \<and> rt_text richText = text"
proof -
  obtain w calls where s: "s = (w, calls)" by (cases s)
  from assms obtain detected where "fst (agentDetectFacets env text w) = Inr detected" by blast
  then show ?thesis
    unfolding s createRichText_def io_bind_def io_effect_def io_return_def
    by (auto split: prod.splits)
qed

lemma postPost_gallery:
  assumes "postPost env self richText images externalEmbed s = Some (r, s')" "images \<noteq> []"
  shows "(\<exists>postData. postingCalls (snd s') = postingCalls (snd s) @ [CreatePost postData] \<and>
            pd_embed postData = Some (EmbedImages images)) \<or>
         ((\<exists>e. r = Inl e) \<and> postingCalls (snd s') = postingCalls (snd s))"
  using assms unfolding postPost_def client_def io_bind_def io_call_def io_effect_def io_return_def Let_def
  by (auto simp: postingCalls_def split: option.splits sum.splits prod.splits if_splits)

lemma handleRegular_gallery:
  assumes "handleRegular env self properties images s = Some (r, s')" "images \<noteq> []"
  shows "(\<exists>postData. postingCalls (snd s') = postingCalls (snd s) @ [CreatePost postData] \<and>
            pd_embed postData = Some (EmbedImages images)) \<or>
         ((\<exists>e. r = Inl e) \<and> postingCalls (snd s') = postingCalls (snd s))"
proof -
  let ?text = "utilsBuildPostText env properties (getExternalUrl (urlHostname env) properties None)"
  from assms have
    "io_bind (createRichText env ?text) (\<lambda>richText.
       io_bind (io_return None) (\<lambda>externalEmbed.
         postPost env self richText images externalEmbed)) s = Some (r, s')"
    unfolding handleRegular_def Let_def by simp
  then show ?thesis
  proof (cases rule: io_bind_cases)
    case (thrown e)
    then show ?thesis using keepsPostingD[OF keeps_createRichText] by blast
  next
    case (returned richText s1)
    from returned(1) have k: "postingCalls (snd s1) = postingCalls (snd s)"
      by (rule keepsPostingD[OF keeps_createRichText])
    from returned(2) have "postPost env self richText images None s1 = Some (r, s')"
      by (simp add: io_bind_def io_return_def)
    from postPost_gallery[OF this assms(2)] show ?thesis unfolding k .
  qed
qed

subsection \<open>The example runs\<close>

lemma exampleEnv_sel:
  "htmlToTextLib exampleEnv = (\<lambda>html. html)"
  "sharpJpeg exampleEnv = sharpLikeJpeg"
  "urlHostname exampleEnv = (\<lambda>url. Some (takeWhile notSlash (drop 8 url)))"
  "urlPathname exampleEnv = (\<lambda>url. Inr (dropWhile notSlash (drop 8 url)))"
  "utilIsSameOrigin exampleEnv = (\<lambda>url other. Inr (takeWhile notSlash (drop 8 url)
                                              = takeWhile notSlash (drop 8 other)))"
  "utilGetCanonicalUrl exampleEnv = (\<lambda>url me. Inr url)"
  "utilsBuildPostText exampleEnv = (\<lambda>properties externalUrl. orEmpty (contentText properties))"
  "utilsExtractHtmlLinks exampleEnv = (\<lambda>html. [])"
  "utilsBuildLinkFacets exampleEnv = (\<lambda>text links. [])"
  "netFetch exampleEnv = (\<lambda>url headers w. (Inr exampleResponse, Suc w))"
  "agentLogin exampleEnv = (\<lambda>service identifier password w. (Inr (), Suc w))"
  "agentGetPost exampleEnv = (\<lambda>did rkey w.
                         (Inr \<lparr> sr_uri = ascii ''at://did:plc:abc/app.bsky.feed.post/xyz'',
                                sr_cid = ascii ''cid'' \<rparr>, Suc w))"
  "agentRepost exampleEnv = (\<lambda>uri cid w. (Inr (ascii ''at://did:plc:me/app.bsky.feed.repost/r1''), Suc w))"
  "agentPost exampleEnv = (\<lambda>postData w. (Inr (ascii ''at://did:plc:me/app.bsky.feed.post/p1''), Suc w))"
  "agentUploadBlob exampleEnv = (\<lambda>blob encoding w. (Inr (ascii ''blob''), Suc w))"
  "agentDetectFacets exampleEnv = (\<lambda>text w. (Inr None, w))"
  "clockNow exampleEnv = (\<lambda>w. (Inr (ascii ''2024-01-01T00:00:00.000Z''), w))"
  by (simp_all add: exampleEnv_def)

lemma exampleSelf_sel:
  "this_identifier exampleSelf = ascii ''me.bsky.social''"
  "this_password exampleSelf = ascii ''app-password''"
  "this_profileUrl exampleSelf = ascii ''https://bsky.app/profile''"
  "this_serviceUrl exampleSelf = ascii ''https://bsky.social''"
  "this_includePermalink exampleSelf = False"
  "this_syndicateExternalLikes exampleSelf = False"
  "this_syndicateExternalReposts exampleSelf = True"
  by (simp_all add: exampleSelf_def newBluesky_def)

lemma run_client:
  "client exampleEnv exampleSelf (w, calls) = Some (Inr (), (Suc w, calls @ [exampleLogin]))"
  by (simp add: client_def io_call_def exampleEnv_sel exampleSelf_sel exampleLogin_def)

lemma io_bind_assoc: "io_bind (io_bind m f) g = io_bind m (\<lambda>a. io_bind (f a) g)"
  by (rule ext) (auto simp: io_bind_def split: option.splits sum.splits)

lemma io_bind_return: "io_bind (io_return a) f s = f a s"
  by (simp add: io_bind_def io_return_def)

lemma bind_client:
  "io_bind (client exampleEnv exampleSelf) f (w, calls) = f () (Suc w, calls @ [exampleLogin])"
  by (simp add: io_bind_def run_client)

lemma exampleEnv_scheduler: "scheduler exampleEnv = (\<lambda>w. 0)"
  by (simp add: exampleEnv_def)

lemma startsWith_png: "startsWith (ascii ''image/png'') (ascii ''image/'')"
  by (simp add: ascii_def)

lemma run_uploadMedia:
  "uploadMedia exampleEnv exampleSelf examplePhoto me AwaitClient (w, calls)
     = (AwaitFetch (ascii ''https://me.example/a.png''), (Suc w, calls @ [exampleLogin]))"
  "uploadMedia exampleEnv exampleSelf examplePhoto me (AwaitFetch mediaUrl) (w, calls)
     = (AwaitUploadBlob [1, 2, 3] (Some (ascii ''image/png'')), (Suc w, calls))"
  "uploadMedia exampleEnv exampleSelf examplePhoto me
       (AwaitUploadBlob [1, 2, 3] (Some (ascii ''image/png''))) (w, calls)
     = (Fulfilled (Some (ascii ''blob'')), (Suc w, calls @ [exampleUpload]))"
proof -
  have g: "getPostImage sharpLikeJpeg [1, 2, 3] (ascii ''image/png'')
      = Some (Inr \<lparr> i_buffer = [1, 2, 3], i_mimeType = ascii ''image/png'' \<rparr>)"
    by (simp add: getPostImage_def MAX_SIZE_def)
  show "uploadMedia exampleEnv exampleSelf examplePhoto me AwaitClient (w, calls)
     = (AwaitFetch (ascii ''https://me.example/a.png''), (Suc w, calls @ [exampleLogin]))"
    by (simp add: exampleEnv_sel exampleSelf_sel examplePhoto_def exampleLogin_def)
  show "uploadMedia exampleEnv exampleSelf examplePhoto me (AwaitFetch mediaUrl) (w, calls)
     = (AwaitUploadBlob [1, 2, 3] (Some (ascii ''image/png'')), (Suc w, calls))"
    by (simp add: exampleEnv_sel exampleResponse_def orEmpty_def startsWith_png g)
  show "uploadMedia exampleEnv exampleSelf examplePhoto me
       (AwaitUploadBlob [1, 2, 3] (Some (ascii ''image/png''))) (w, calls)
     = (Fulfilled (Some (ascii ''blob'')), (Suc w, calls @ [exampleUpload]))"
    by (simp add: exampleEnv_sel exampleUpload_def)
qed

lemma run_promiseAll_1:
  "promiseAll exampleEnv exampleSelf me [examplePhoto] [AwaitClient] None (w, calls)
     = ([Fulfilled (Some (ascii ''blob''))], None,
        (Suc (Suc (Suc w)), calls @ [exampleLogin, exampleUpload]))"
  by (simp add: promiseAll_step promiseAll_done pendingIndices_def nextUpload_def
        exampleEnv_scheduler run_uploadMedia noteRejection_def del: uploadMedia.simps)

lemma run_externalLike_prep:
  "io_bind (client exampleEnv exampleSelf)
     (\<lambda>_. uploadImages exampleEnv exampleSelf externalLike (ascii ''https://me.example'')) (0, [])
     = Some (Inr [exampleImage], (4, [exampleLogin, exampleLogin, exampleUpload]))"
proof -
  have p: "p_photo externalLike = Some [examplePhoto]" by (simp add: externalLike_def)
  have a: "orEmpty (ph_alt examplePhoto) = ascii ''a''" by (simp add: examplePhoto_def orEmpty_def)
  show ?thesis
    unfolding bind_client uploadImages_def p
    by (simp add: run_promiseAll_1 a exampleImage_def uploadedImage_def)
qed

lemma run_createRichText:
  "createRichText exampleEnv text (w, calls) = Some (Inr \<lparr> rt_text = text, rt_facets = None \<rparr>, (w, calls))"
  by (simp add: createRichText_def io_defs exampleEnv_sel)

lemma uri_post: "uriToPostUrl (ascii ''https://bsky.app/profile'') (ascii ''at://did:plc:me/app.bsky.feed.post/p1'')
   = Some (ascii ''https://bsky.app/profile/did:plc:me/post/p1'')"
  using uriToPostUrl_wellformed [of "ascii ''plc:me''" "ascii ''app.bsky.feed.post''" "ascii ''p1''" "ascii ''https://bsky.app/profile''"]
  by (simp add: ascii_def)

lemma uri_repost: "uriToPostUrl (ascii ''https://bsky.app/profile'') (ascii ''at://did:plc:me/app.bsky.feed.repost/r1'')
   = Some (ascii ''https://bsky.app/profile/did:plc:me/repost/r1'')"
  using uriToPostUrl_wellformed [of "ascii ''plc:me''" "ascii ''app.bsky.feed.repost''" "ascii ''r1''" "ascii ''https://bsky.app/profile''"]
  by (simp add: ascii_def)

lemma busyEnv_sel:
  "sharpJpeg busyEnv = sharpLikeJpeg"
  "urlHostname busyEnv = (\<lambda>url. Some (takeWhile notSlash (drop 8 url)))"
  "utilGetCanonicalUrl busyEnv = (\<lambda>url me. Inr url)"
  "utilsBuildPostText busyEnv = (\<lambda>properties externalUrl. orEmpty (contentText properties))"
  "netFetch busyEnv = (\<lambda>url headers w.
      (Inr (exampleResponse \<lparr> r_blob := Inr (map ucast (drop 19 url)) \<rparr>), Suc w))"
  "agentLogin busyEnv = (\<lambda>service identifier password w. (Inr (), Suc w))"
  "agentPost busyEnv = (\<lambda>postData w. (Inr (ascii ''at://did:plc:me/app.bsky.feed.post/p1''), Suc w))"
  "agentUploadBlob busyEnv = (\<lambda>blob encoding w. (Inr (ascii ''blob:'' @ map ucast blob), Suc w))"
  "agentDetectFacets busyEnv = (\<lambda>text w. (Inr None, w))"
  "clockNow busyEnv = (\<lambda>w. (Inr (ascii ''2024-01-01T00:00:00.000Z''), w))"
  "scheduler busyEnv = (\<lambda>w. w)"
  by (simp_all add: busyEnv_def exampleEnv_def)

lemma run_busy_client:
  "client busyEnv exampleSelf (w, calls) = Some (Inr (), (Suc w, calls @ [exampleLogin]))"
  by (simp add: client_def io_call_def busyEnv_sel exampleSelf_sel exampleLogin_def)

lemma run_busy_createRichText:
  "createRichText busyEnv text (w, calls) = Some (Inr \<lparr> rt_text = text, rt_facets = None \<rparr>, (w, calls))"
  by (simp add: createRichText_def io_defs busyEnv_sel)

lemma run_busy_uploadMedia:
  "uploadMedia busyEnv exampleSelf media me AwaitClient (w, calls)
     = (case ph_url media of None \<Rightarrow> Fulfilled None | Some url \<Rightarrow> AwaitFetch url,
        (Suc w, calls @ [exampleLogin]))"
  "length mediaUrl < 1000 \<Longrightarrow>
   uploadMedia busyEnv exampleSelf media me (AwaitFetch mediaUrl) (w, calls)
     = (AwaitUploadBlob (map ucast (drop 19 mediaUrl)) (Some (ascii ''image/png'')), (Suc w, calls))"
  "uploadMedia busyEnv exampleSelf media me (AwaitUploadBlob blob encoding) (w, calls)
     = (Fulfilled (Some (ascii ''blob:'' @ map ucast blob)), (Suc w, calls @ [UploadBlob blob encoding]))"
proof -
  show "uploadMedia busyEnv exampleSelf media me AwaitClient (w, calls)
     = (case ph_url media of None \<Rightarrow> Fulfilled None | Some url \<Rightarrow> AwaitFetch url,
        (Suc w, calls @ [exampleLogin]))"
    by (simp add: busyEnv_sel exampleSelf_sel exampleLogin_def split: option.splits)
  show "uploadMedia busyEnv exampleSelf media me (AwaitUploadBlob blob encoding) (w, calls)
     = (Fulfilled (Some (ascii ''blob:'' @ map ucast blob)), (Suc w, calls @ [UploadBlob blob encoding]))"
    by (simp add: busyEnv_sel)
  assume "length mediaUrl < 1000"
  then have "length (map ucast (drop 19 mediaUrl) :: buffer) < MAX_SIZE"
    by (simp add: MAX_SIZE_def)
  then have g: "getPostImage sharpLikeJpeg (map ucast (drop 19 mediaUrl)) (ascii ''image/png'')
      = Some (Inr \<lparr> i_buffer = map ucast (drop 19 mediaUrl), i_mimeType = ascii ''image/png'' \<rparr>)"
    unfolding getPostImage_def by (simp only: if_True)
  show "uploadMedia busyEnv exampleSelf media me (AwaitFetch mediaUrl) (w, calls)
     = (AwaitUploadBlob (map ucast (drop 19 mediaUrl)) (Some (ascii ''image/png'')), (Suc w, calls))"
    by (simp add: busyEnv_sel exampleResponse_def orEmpty_def startsWith_png g)
qed

lemma photoNote_photos:
  "take 4 [namedPhoto ''a'', namedPhoto ''b'', (namedPhoto ''c'') \<lparr> ph_alt := None \<rparr>,
           namedPhoto ''d'', namedPhoto ''e'']
     = [namedPhoto ''a'', namedPhoto ''b'', (namedPhoto ''c'') \<lparr> ph_alt := None \<rparr>, namedPhoto ''d'']"
  by simp

lemma run_busy_promiseAll:
  "promiseAll busyEnv exampleSelf me
     [namedPhoto ''a'', namedPhoto ''b'', (namedPhoto ''c'') \<lparr> ph_alt := None \<rparr>, namedPhoto ''d'']
     [AwaitClient, AwaitClient, AwaitClient, AwaitClient] None (1, calls)
   = ([Fulfilled (Some (ascii ''blob:a.png'')), Fulfilled (Some (ascii ''blob:b.png'')),
       Fulfilled (Some (ascii ''blob:c.png'')), Fulfilled (Some (ascii ''blob:d.png''))], None,
      (13, calls @ [exampleLogin, exampleLogin, exampleLogin, exampleLogin,
                    namedUpload ''b'', namedUpload ''c'', namedUpload ''d'', namedUpload ''a'']))"
  by (simp add: promiseAll_step promiseAll_done pendingIndices_def nextUpload_def
        busyEnv_sel run_busy_uploadMedia noteRejection_def namedPhoto_def namedUpload_def ascii_def
        mod_Suc del: uploadMedia.simps)

lemma run_getPost:
  "getPost exampleEnv exampleSelf (ascii ''https://bsky.app/profile/did:plc:abc/post/xyz'') (w, calls)
     = Some (Inr \<lparr> sr_uri = ascii ''at://did:plc:abc/app.bsky.feed.post/xyz'', sr_cid = ascii ''cid'' \<rparr>,
             (Suc (Suc w), calls @ [exampleLogin, GetPost (Some (ascii ''did:plc:abc'')) (Some (ascii ''xyz''))]))"
proof -
  have parts: "getPostParts exampleEnv (ascii ''https://bsky.app/profile/did:plc:abc/post/xyz'')
      = Inr (Some (ascii ''did:plc:abc''), Some (ascii ''xyz''))"
    by (simp add: getPostParts_def exampleEnv_sel nthOpt_def ascii_def notSlash_def)
  show ?thesis
    unfolding getPost_def bind_client parts
    by (simp add: io_defs exampleEnv_sel)
qed

lemma run_postRepost:
  "postRepost exampleEnv exampleSelf (ascii ''https://bsky.app/profile/did:plc:abc/post/xyz'') (w, calls)
     = Some (Inr (Some (ascii ''https://bsky.app/profile/did:plc:me/repost/r1'')),
             (Suc (Suc (Suc (Suc w))),
              calls @ [exampleLogin, exampleLogin,
                       GetPost (Some (ascii ''did:plc:abc'')) (Some (ascii ''xyz'')),
                       Repost (ascii ''at://did:plc:abc/app.bsky.feed.post/xyz'') (ascii ''cid'')]))"
  unfolding postRepost_def bind_client
  by (simp only: io_bind_def run_getPost option.case prod.case sum.case)
     (simp add: io_call_def io_return_def exampleEnv_sel exampleSelf_sel uri_repost)

lemma run_likeAndRepost:
  "post exampleEnv exampleSelf likeAndRepost (ascii ''https://me.example'') (0, [])
     = Some (Inr (Some (ascii ''https://bsky.app/profile/did:plc:me/repost/r1'')),
             (5, [exampleLogin, exampleLogin, exampleLogin,
                  GetPost (Some (ascii ''did:plc:abc'')) (Some (ascii ''xyz'')),
                  Repost (ascii ''at://did:plc:abc/app.bsky.feed.post/xyz'') (ascii ''cid'')]))"
proof -
  have m: "truthy (p_repost_of likeAndRepost)" "p_photo likeAndRepost = None"
    "p_content likeAndRepost = None"
    "orEmpty (p_repost_of likeAndRepost) = ascii ''https://bsky.app/profile/did:plc:abc/post/xyz''"
    by (simp_all add: likeAndRepost_def truthy_def orEmpty_def ascii_def)
  have same: "utilIsSameOrigin exampleEnv (ascii ''https://bsky.app/profile/did:plc:abc/post/xyz'')
      (this_profileUrl exampleSelf) = Inr True"
    by (simp add: exampleEnv_sel exampleSelf_sel ascii_def notSlash_def)
  have h: "handleRepost exampleEnv exampleSelf likeAndRepost []
       (ascii ''https://bsky.app/profile/did:plc:abc/post/xyz'') (w, calls)
     = postRepost exampleEnv exampleSelf (ascii ''https://bsky.app/profile/did:plc:abc/post/xyz'') (w, calls)"
    for w calls
    unfolding handleRepost_def same m
    by (simp add: io_bind_def io_lift_def)
  show ?thesis
    unfolding post_unfold bind_client uploadImages_def m
    by (simp only: option.case io_bind_return if_True m h run_postRepost) simp
qed

section \<open>Claims about utils.js\<close>

text \<open>
  Claim C1, as the code has it. When the text composed before the length check is longer
  than 300 code units and the trailing reference line (two newlines and the permalink
  for \<open>getPostText\<close>; two newlines, the heart, a space and the liked URL for
  \<open>getLikePostText\<close>) is at most 297 code units long, the result is the trimmed first
  \<open>297 - length suffix\<close> code units of the content, the three-character ellipsis and
  the reference line. Its length is at most 300, and it is exactly 300 just when
  trimming removes nothing from the kept piece.
\<close>

theorem composed_text_truncated:
  "(300 < length (postTextDraft htmlToText properties) \<and> length (p_url properties) \<le> 295 \<longrightarrow>
      getPostText htmlToText properties includePermalink =
        trim (take (297 - length (newlines @ p_url properties))
                (postTextDraft htmlToText properties))
        @ ascii ''...'' @ newlines @ p_url properties \<and>
      length (getPostText htmlToText properties includePermalink) \<le> 300 \<and>
      (length (getPostText htmlToText properties includePermalink) = 300 \<longleftrightarrow>
         trim (take (297 - length (newlines @ p_url properties))
                 (postTextDraft htmlToText properties))
         = take (297 - length (newlines @ p_url properties))
             (postTextDraft htmlToText properties)))
   \<and>
   (300 < length (likeTextDraft htmlToText properties likedUrl) \<and> length likedUrl \<le> 292 \<longrightarrow>
      getLikePostText htmlToText properties likedUrl =
        trim (take (297 - length (newlines @ heart @ ascii '' '' @ likedUrl))
                (removeFirst (likeTextDraft htmlToText properties likedUrl)
                   (newlines @ heart @ ascii '' '' @ likedUrl)))
        @ ascii ''...'' @ newlines @ heart @ ascii '' '' @ likedUrl \<and>
      length (getLikePostText htmlToText properties likedUrl) \<le> 300 \<and>
      (length (getLikePostText htmlToText properties likedUrl) = 300 \<longleftrightarrow>
         trim (take (297 - length (newlines @ heart @ ascii '' '' @ likedUrl))
                 (removeFirst (likeTextDraft htmlToText properties likedUrl)
                    (newlines @ heart @ ascii '' '' @ likedUrl)))
         = take (297 - length (newlines @ heart @ ascii '' '' @ likedUrl))
             (removeFirst (likeTextDraft htmlToText properties likedUrl)
                (newlines @ heart @ ascii '' '' @ likedUrl))))"
proof (intro conjI impI)
  assume a: "300 < length (postTextDraft htmlToText properties) \<and> length (p_url properties) \<le> 295"
  then have big: "300 < length (postTextDraft htmlToText properties)"
    and url: "length (p_url properties) \<le> 295" by simp_all
  show "getPostText htmlToText properties includePermalink =
        trim (take (297 - length (newlines @ p_url properties))
                (postTextDraft htmlToText properties))
        @ ascii ''...'' @ newlines @ p_url properties"
    using getPostText_truncated(1)[OF big url] by simp
  show "length (getPostText htmlToText properties includePermalink) \<le> 300"
    by (rule getPostText_truncated(2)[OF big url])
  show "length (getPostText htmlToText properties includePermalink) = 300 \<longleftrightarrow>
         trim (take (297 - length (newlines @ p_url properties))
                 (postTextDraft htmlToText properties))
         = take (297 - length (newlines @ p_url properties))
             (postTextDraft htmlToText properties)"
    by (rule getPostText_truncated(3)[OF big url])
next
  assume a: "300 < length (likeTextDraft htmlToText properties likedUrl) \<and> length likedUrl \<le> 292"
  then have big: "300 < length (likeTextDraft htmlToText properties likedUrl)"
    and url: "length likedUrl \<le> 292" by simp_all
  show "getLikePostText htmlToText properties likedUrl =
        trim (take (297 - length (newlines @ heart @ ascii '' '' @ likedUrl))
                (removeFirst (likeTextDraft htmlToText properties likedUrl)
                   (newlines @ heart @ ascii '' '' @ likedUrl)))
        @ ascii ''...'' @ newlines @ heart @ ascii '' '' @ likedUrl"
    using getLikePostText_truncated(1)[OF big url] by simp
  show "length (getLikePostText htmlToText properties likedUrl) \<le> 300"
    by (rule getLikePostText_truncated(2)[OF big url])
  show "length (getLikePostText htmlToText properties likedUrl) = 300 \<longleftrightarrow>
         trim (take (297 - length (newlines @ heart @ ascii '' '' @ likedUrl))
                 (removeFirst (likeTextDraft htmlToText properties likedUrl)
                    (newlines @ heart @ ascii '' '' @ likedUrl)))
         = take (297 - length (newlines @ heart @ ascii '' '' @ likedUrl))
             (removeFirst (likeTextDraft htmlToText properties likedUrl)
                (newlines @ heart @ ascii '' '' @ likedUrl))"
    by (rule getLikePostText_truncated(3)[OF big url])
qed

text \<open>
  The claim as stated asks for exactly 300 code units. The note below has a space as
  the last code unit of the kept piece; \<open>trim\<close> removes it and the result is 299
  code units long.
\<close>

theorem composed_text_length_counterexample: 
  "300 < length (postTextDraft id noteWithSpaceAtCut) \<and>
   length (getPostText id noteWithSpaceAtCut False) = 299"
  by (simp add: getPostText_def text_defs noteWithSpaceAtCut_def slice0_def trim_def isWhiteSpace_def)

theorem composed_text_truncated_witness:
  "300 < length (postTextDraft id longNote) \<and> length (p_url longNote) \<le> 295 \<and>
   getPostText id longNote False =
     replicate 274 0x61 @ ascii ''...'' @ newlines @ ascii ''https://me.example/p1'' \<and>
   length (getPostText id longNote False) = 300 \<and>
   300 < length (likeTextDraft id longNote (ascii ''https://other.example/post'')) \<and>
   length (ascii ''https://other.example/post'') \<le> 292 \<and>
   getLikePostText id longNote (ascii ''https://other.example/post'') =
     replicate 266 0x61 @ ascii ''...'' @ newlines @ heart @ ascii '' https://other.example/post'' \<and>
   length (getLikePostText id longNote (ascii ''https://other.example/post'')) = 300"
proof -
  have u: "p_url longNote = ascii ''https://me.example/p1''" by (simp add: longNote_def)
  have r: "removeFirst (replicate 301 0x61 @ newlines @ heart @ ascii '' https://other.example/post'')
             (newlines @ heart @ ascii '' '' @ ascii ''https://other.example/post'') = replicate 301 (0x61 :: 16 word)"
    using removeFirst_replicate[of "0x61 :: 16 word" "0x0A" 301 "0x0A # heart @ ascii '' https://other.example/post''"]
    by (simp add: newlines_def ascii_def)
  have t: "\<And>n. trim (replicate n 0x61) = replicate n 0x61"
    by (simp add: trim_def isWhiteSpace_def)
  note c = composed_text_truncated [where htmlToText = id and properties = longNote
       and includePermalink = False and likedUrl = "ascii ''https://other.example/post''"]
  have h1: "300 < length (postTextDraft id longNote) \<and> length (p_url longNote) \<le> 295"
    unfolding draft_longNote u by (simp add: ascii_def)
  have h2: "300 < length (likeTextDraft id longNote (ascii ''https://other.example/post'')) \<and>
     length (ascii ''https://other.example/post'') \<le> 292"
    unfolding like_draft_longNote by (simp add: ascii_def newlines_def heart_def)
  from c h1 have g1: "getPostText id longNote False =
        trim (take (297 - length (newlines @ p_url longNote)) (postTextDraft id longNote))
        @ ascii ''...'' @ newlines @ p_url longNote" by blast
  from c h2 have g2: "getLikePostText id longNote (ascii ''https://other.example/post'') =
        trim (take (297 - length (newlines @ heart @ ascii '' '' @ ascii ''https://other.example/post''))
                (removeFirst (likeTextDraft id longNote (ascii ''https://other.example/post''))
                   (newlines @ heart @ ascii '' '' @ ascii ''https://other.example/post'')))
        @ ascii ''...'' @ newlines @ heart @ ascii '' '' @ ascii ''https://other.example/post''" by blast
  have e1: "getPostText id longNote False =
     replicate 274 0x61 @ ascii ''...'' @ newlines @ ascii ''https://me.example/p1''"
    unfolding g1 draft_longNote u by (simp add: t) (simp add: newlines_def ascii_def)
  have e2: "getLikePostText id longNote (ascii ''https://other.example/post'') =
     replicate 266 0x61 @ ascii ''...'' @ newlines @ heart @ ascii '' https://other.example/post''"
    unfolding g2 like_draft_longNote r by (simp add: t) (simp add: newlines_def ascii_def heart_def)
  show ?thesis
    using h1 h2 unfolding e1 e2 by (simp add: newlines_def ascii_def heart_def)
qed

text \<open>
  Claim C2, as the code has it. \<open>getExternalUrl\<close> tests the markers in the order
  like-of, bookmark-of, in-reply-to and returns the first one that is present and not
  empty: with a like-of marker it returns the liked URL, whatever the other markers.
\<close>

theorem getExternalUrl_marker_priority:
  "(truthy (p_like_of properties) \<longrightarrow>
      getExternalUrl hostname properties ownDomain = p_like_of properties) \<and>
   (\<not> truthy (p_like_of properties) \<and> truthy (p_bookmark_of properties) \<longrightarrow>
      getExternalUrl hostname properties ownDomain = p_bookmark_of properties) \<and>
   (\<not> truthy (p_like_of properties) \<and> \<not> truthy (p_bookmark_of properties) \<and>
    truthy (p_in_reply_to properties) \<longrightarrow>
      getExternalUrl hostname properties ownDomain = p_in_reply_to properties)"
  by (simp add: getExternalUrl_def)

text \<open>
  The claim as stated gives bookmark-of the priority over like-of. With both present
  the code returns the liked URL.
\<close>

theorem getExternalUrl_bookmark_first_counterexample:
  "truthy (p_bookmark_of likeAndBookmark) \<and> truthy (p_like_of likeAndBookmark) \<and>
   getExternalUrl (\<lambda>url. None) likeAndBookmark None = Some (ascii ''https://liked.example/a'') \<and>
   getExternalUrl (\<lambda>url. None) likeAndBookmark None \<noteq> p_bookmark_of likeAndBookmark"
  by (simp add: getExternalUrl_def likeAndBookmark_def truthy_def ascii_def)

theorem getExternalUrl_marker_priority_witness:
  "truthy (p_like_of likeAndBookmark) \<and>
   getExternalUrl (\<lambda>url. None) likeAndBookmark None = Some (ascii ''https://liked.example/a'') \<and>
   \<not> truthy (p_like_of (likeAndBookmark \<lparr> p_like_of := None \<rparr>)) \<and>
   truthy (p_bookmark_of (likeAndBookmark \<lparr> p_like_of := None \<rparr>)) \<and>
   getExternalUrl (\<lambda>url. None) (likeAndBookmark \<lparr> p_like_of := None \<rparr>) None
     = Some (ascii ''https://bookmarked.example/b'') \<and>
   \<not> truthy (p_like_of (likeAndBookmark \<lparr> p_like_of := Some [], p_bookmark_of := None,
                                            p_in_reply_to := Some (ascii ''https://r.example/c'') \<rparr>)) \<and>
   \<not> truthy (p_bookmark_of (likeAndBookmark \<lparr> p_like_of := Some [], p_bookmark_of := None,
                                            p_in_reply_to := Some (ascii ''https://r.example/c'') \<rparr>)) \<and>
   truthy (p_in_reply_to (likeAndBookmark \<lparr> p_like_of := Some [], p_bookmark_of := None,
                                            p_in_reply_to := Some (ascii ''https://r.example/c'') \<rparr>)) \<and>
   getExternalUrl (\<lambda>url. None) (likeAndBookmark \<lparr> p_like_of := Some [], p_bookmark_of := None,
                                            p_in_reply_to := Some (ascii ''https://r.example/c'') \<rparr>) None
     = Some (ascii ''https://r.example/c'')"
  using getExternalUrl_marker_priority [of likeAndBookmark "\<lambda>url. None" None]
        getExternalUrl_marker_priority [of "likeAndBookmark \<lparr> p_like_of := None \<rparr>" "\<lambda>url. None" None]
        getExternalUrl_marker_priority [of "likeAndBookmark \<lparr> p_like_of := Some [], p_bookmark_of := None,
                                            p_in_reply_to := Some (ascii ''https://r.example/c'') \<rparr>" "\<lambda>url. None" None]
  by (simp add: likeAndBookmark_def truthy_def ascii_def)

text \<open>
  Claim C3, as the code has it. \<open>constrainImage\<close> tries the qualities \<open>quality\<close>,
  \<open>quality - 5\<close>, \<open>quality - 10\<close>, ... in turn. When the encodings at the first \<open>k\<close>
  of them are over budget and the next one fits, it returns that one, after \<open>k + 1\<close>
  encodings; when the next one is rejected by the encoder, the rejection is thrown.
  Whatever buffer it returns is within the budget. When the encoder's output is over
  budget at every quality, it never returns.
\<close>

theorem constrainImage_first_fit:
  "((\<forall>j<k. \<exists>c. jpeg buffer (quality - 5 * int j) = Inr c \<and> maxBytes < length c) \<and>
    jpeg buffer (quality - 5 * int k) = Inr fit \<and> length fit \<le> maxBytes \<longrightarrow>
      constrainImage jpeg buffer maxBytes quality = Some (Inr fit)) \<and>
   ((\<forall>j<k. \<exists>c. jpeg buffer (quality - 5 * int j) = Inr c \<and> maxBytes < length c) \<and>
    jpeg buffer (quality - 5 * int k) = Inl e \<longrightarrow>
      constrainImage jpeg buffer maxBytes quality = Some (Inl e)) \<and>
   (constrainImage jpeg buffer maxBytes quality = Some (Inr returned) \<longrightarrow>
      length returned \<le> maxBytes) \<and>
   ((\<forall>q. \<exists>c. jpeg buffer q = Inr c \<and> maxBytes < length c) \<longrightarrow>
      constrainImage jpeg buffer maxBytes quality = None)"
proof (intro conjI impI)
  assume a: "(\<forall>j<k. \<exists>c. jpeg buffer (quality - 5 * int j) = Inr c \<and> maxBytes < length c) \<and>
    jpeg buffer (quality - 5 * int k) = Inr fit \<and> length fit \<le> maxBytes"
  then have "constrainImage jpeg buffer maxBytes quality =
      constrainImage jpeg buffer maxBytes (quality - 5 * int k)"
    by (intro constrainImage_skip) simp
  also have "\<dots> = Some (Inr fit)" using a by (intro constrainImage_stop) simp_all
  finally show "constrainImage jpeg buffer maxBytes quality = Some (Inr fit)" .
next
  assume a: "(\<forall>j<k. \<exists>c. jpeg buffer (quality - 5 * int j) = Inr c \<and> maxBytes < length c) \<and>
    jpeg buffer (quality - 5 * int k) = Inl e"
  then have "constrainImage jpeg buffer maxBytes quality =
      constrainImage jpeg buffer maxBytes (quality - 5 * int k)"
    by (intro constrainImage_skip) simp
  also have "\<dots> = Some (Inl e)" using a by (intro constrainImage_reject) simp
  finally show "constrainImage jpeg buffer maxBytes quality = Some (Inl e)" .
next
  assume "constrainImage jpeg buffer maxBytes quality = Some (Inr returned)"
  then show "length returned \<le> maxBytes" by (simp add: constrainImage_fits)
next
  assume a: "\<forall>q. \<exists>c. jpeg buffer q = Inr c \<and> maxBytes < length c"
  show "constrainImage jpeg buffer maxBytes quality = None"
  proof (cases "constrainImage jpeg buffer maxBytes quality")
    case (Some r)
    from constrainImage_never[OF this a] show ?thesis ..
  qed simp
qed

text \<open>
  The claim as stated promises a buffer within the budget for every positive budget.
  With a budget of one byte and an encoder whose output has two bytes, the call never
  returns when the encoder accepts every quality, and throws the encoder's error at
  quality 0 when the encoder rejects qualities below 1.
\<close>

theorem constrainImage_counterexample:
  "constrainImage twoByteJpeg [0xFF, 0xD8, 0xFF, 0xD9] 1 90 = None \<and>
   constrainImage sharpLikeJpeg [0xFF, 0xD8, 0xFF, 0xD9] 1 90
     = Some (Inl (JsError (ascii ''Expected integer between 1 and 100 for quality'')))"
proof
  have "\<forall>q. \<exists>c. twoByteJpeg [0xFF, 0xD8, 0xFF, 0xD9] q = Inr c \<and> 1 < length c"
    by (simp add: twoByteJpeg_def)
  then show "constrainImage twoByteJpeg [0xFF, 0xD8, 0xFF, 0xD9] 1 90 = None"
    using constrainImage_never[of twoByteJpeg "[0xFF, 0xD8, 0xFF, 0xD9]" 1 90]
    by (cases "constrainImage twoByteJpeg [0xFF, 0xD8, 0xFF, 0xD9] 1 90") auto
  show "constrainImage sharpLikeJpeg [0xFF, 0xD8, 0xFF, 0xD9] 1 90
     = Some (Inl (JsError (ascii ''Expected integer between 1 and 100 for quality'')))"
    by (simp add: constrainImage.simps sharpLikeJpeg_def)
qed

theorem constrainImage_first_fit_witness:
  "shrinkingJpeg [1, 2, 3] 90 = Inr (replicate 90 0) \<and> 80 < length (replicate 90 (0 :: 8 word)) \<and>
   shrinkingJpeg [1, 2, 3] 85 = Inr (replicate 85 0) \<and> 80 < length (replicate 85 (0 :: 8 word)) \<and>
   shrinkingJpeg [1, 2, 3] 80 = Inr (replicate 80 0) \<and>
   length (replicate 80 (0 :: 8 word)) \<le> 80 \<and>
   constrainImage shrinkingJpeg [1, 2, 3] 80 90 = Some (Inr (replicate 80 0)) \<and>
   sharpLikeJpeg [1, 2, 3] 10 = Inr [0xFF, 0xD8] \<and>
   sharpLikeJpeg [1, 2, 3] 5 = Inr [0xFF, 0xD8] \<and>
   1 < length [0xFF, 0xD8 :: 8 word] \<and>
   sharpLikeJpeg [1, 2, 3] 0
     = Inl (JsError (ascii ''Expected integer between 1 and 100 for quality'')) \<and>
   constrainImage sharpLikeJpeg [1, 2, 3] 1 10
     = Some (Inl (JsError (ascii ''Expected integer between 1 and 100 for quality''))) \<and>
   (\<forall>q. \<exists>c. twoByteJpeg [1, 2, 3] q = Inr c \<and> 1 < length c) \<and>
   constrainImage twoByteJpeg [1, 2, 3] 1 90 = None"
proof -
  have less2: "\<And>j :: nat. j < 2 \<longleftrightarrow> j = 0 \<or> j = 1" by auto
  have s: "shrinkingJpeg [1, 2, 3] 90 = Inr (replicate 90 0)"
    "shrinkingJpeg [1, 2, 3] 85 = Inr (replicate 85 0)"
    "shrinkingJpeg [1, 2, 3] 80 = Inr (replicate 80 0)"
    by (simp_all add: shrinkingJpeg_def)
  have l: "sharpLikeJpeg [1, 2, 3] 10 = Inr [0xFF, 0xD8]"
    "sharpLikeJpeg [1, 2, 3] 5 = Inr [0xFF, 0xD8]"
    "sharpLikeJpeg [1, 2, 3] 0 = Inl (JsError (ascii ''Expected integer between 1 and 100 for quality''))"
    by (simp_all add: sharpLikeJpeg_def)
  have h1: "(\<forall>j<2. \<exists>c. shrinkingJpeg [1, 2, 3] (90 - 5 * int j) = Inr c \<and> 80 < length c) \<and>
   shrinkingJpeg [1, 2, 3] (90 - 5 * int 2) = Inr (replicate 80 0) \<and>
   length (replicate 80 (0 :: 8 word)) \<le> 80"
    using s by (auto simp: less2)
  have h2: "(\<forall>j<2. \<exists>c. sharpLikeJpeg [1, 2, 3] (10 - 5 * int j) = Inr c \<and> 1 < length c) \<and>
   sharpLikeJpeg [1, 2, 3] (10 - 5 * int 2)
     = Inl (JsError (ascii ''Expected integer between 1 and 100 for quality''))"
    using l by (auto simp: less2)
  have h4: "\<forall>q. \<exists>c. twoByteJpeg [1, 2, 3] q = Inr c \<and> 1 < length c"
    by (simp add: twoByteJpeg_def)
  note t1 = constrainImage_first_fit [where jpeg = shrinkingJpeg and buffer = "[1, 2, 3]"
      and quality = 90 and maxBytes = 80 and k = 2 and fit = "replicate 80 0"]
  note t2 = constrainImage_first_fit [where jpeg = sharpLikeJpeg and buffer = "[1, 2, 3]"
      and quality = 10 and maxBytes = 1 and k = 2
      and e = "JsError (ascii ''Expected integer between 1 and 100 for quality'')"]
  note t4 = constrainImage_first_fit [where jpeg = twoByteJpeg and buffer = "[1, 2, 3]"
      and quality = 90 and maxBytes = 1]
  from t1 h1 have r1: "constrainImage shrinkingJpeg [1, 2, 3] 80 90 = Some (Inr (replicate 80 0))"
    by blast
  from t2 h2 have r2: "constrainImage sharpLikeJpeg [1, 2, 3] 1 10
     = Some (Inl (JsError (ascii ''Expected integer between 1 and 100 for quality'')))"
    by blast
  from t4 h4 have r4: "constrainImage twoByteJpeg [1, 2, 3] 1 90 = None"
    by blast
  show ?thesis using s l h4 r1 r2 r4 by simp
qed

text \<open>
  Claim C4. From every state \<open>fetchOpenGraphData\<close> returns a metadata record: it
  neither throws nor fails to return, and it makes no agent call. When the fetch
  rejects (a network error or a timeout), when the response is not a success, when
  reading the body fails, or when the HTML parser throws, the record is the URL as the
  title, the empty description and no image URL.
\<close>

theorem fetchOpenGraphData_never_throws:
  "(\<exists>m w'. fetchOpenGraphData env url (w, calls) = Some (Inr m, (w', calls))) \<and>
   (netFetch env url ogRequestHeaders w = (Inl e, w1) \<longrightarrow>
      fetchOpenGraphData env url (w, calls)
        = Some (Inr \<lparr> m_title = url, m_description = [], m_imageUrl = None \<rparr>, (w1, calls))) \<and>
   (netFetch env url ogRequestHeaders w = (Inr r, w1) \<and> \<not> r_ok r \<longrightarrow>
      fetchOpenGraphData env url (w, calls)
        = Some (Inr \<lparr> m_title = url, m_description = [], m_imageUrl = None \<rparr>, (w1, calls))) \<and>
   (netFetch env url ogRequestHeaders w = (Inr r, w1) \<and> r_ok r \<and> r_text r = Inl e \<longrightarrow>
      fetchOpenGraphData env url (w, calls)
        = Some (Inr \<lparr> m_title = url, m_description = [], m_imageUrl = None \<rparr>, (w1, calls))) \<and>
   (netFetch env url ogRequestHeaders w = (Inr r, w1) \<and> r_ok r \<and> r_text r = Inr html \<and>
    jsdomParse env html = Inl e \<longrightarrow>
      fetchOpenGraphData env url (w, calls)
        = Some (Inr \<lparr> m_title = url, m_description = [], m_imageUrl = None \<rparr>, (w1, calls)))"
  using fetchOpenGraphData_returns [of env url w calls]
        fetchOpenGraphData_fetch_rejected [of env url w e w1 calls]
        fetchOpenGraphData_not_ok [of env url w r w1 calls]
        fetchOpenGraphData_text_rejected [of env url w r w1 e calls]
        fetchOpenGraphData_parse_error [of env url w r w1 html e calls]
  by (simp add: ogFallback_def)

theorem fetchOpenGraphData_never_throws_witness:
  "netFetch offlineEnv (ascii ''https://a.example/x'') ogRequestHeaders 0
     = (Inl (JsError (ascii ''fetch failed'')), 1) \<and>
   fetchOpenGraphData offlineEnv (ascii ''https://a.example/x'') (0, [])
     = Some (Inr \<lparr> m_title = ascii ''https://a.example/x'', m_description = [],
                    m_imageUrl = None \<rparr>, (1, [])) \<and>
   netFetch notFoundEnv (ascii ''https://a.example/x'') ogRequestHeaders 0
     = (Inr notFoundResponse, 1) \<and> \<not> r_ok notFoundResponse \<and>
   fetchOpenGraphData notFoundEnv (ascii ''https://a.example/x'') (0, [])
     = Some (Inr \<lparr> m_title = ascii ''https://a.example/x'', m_description = [],
                    m_imageUrl = None \<rparr>, (1, [])) \<and>
   netFetch brokenBodyEnv (ascii ''https://a.example/x'') ogRequestHeaders 0
     = (Inr brokenBodyResponse, 1) \<and> r_ok brokenBodyResponse \<and>
   r_text brokenBodyResponse = Inl (JsError (ascii ''terminated'')) \<and>
   fetchOpenGraphData brokenBodyEnv (ascii ''https://a.example/x'') (0, [])
     = Some (Inr \<lparr> m_title = ascii ''https://a.example/x'', m_description = [],
                    m_imageUrl = None \<rparr>, (1, [])) \<and>
   netFetch brokenParserEnv (ascii ''https://a.example/x'') ogRequestHeaders 0
     = (Inr exampleResponse, 1) \<and> r_ok exampleResponse \<and> r_text exampleResponse = Inr [] \<and>
   jsdomParse brokenParserEnv [] = Inl (JsError (ascii ''parse error'')) \<and>
   fetchOpenGraphData brokenParserEnv (ascii ''https://a.example/x'') (0, [])
     = Some (Inr \<lparr> m_title = ascii ''https://a.example/x'', m_description = [],
                    m_imageUrl = None \<rparr>, (1, []))"
proof -
  note t1 = fetchOpenGraphData_never_throws [where env = offlineEnv and url = "ascii ''https://a.example/x''"
     and w = 0 and calls = "[]" and ?w1.0 = 1 and e = "JsError (ascii ''fetch failed'')"]
  note t2 = fetchOpenGraphData_never_throws [where env = notFoundEnv and url = "ascii ''https://a.example/x''"
     and w = 0 and calls = "[]" and ?w1.0 = 1 and r = notFoundResponse]
  note t3 = fetchOpenGraphData_never_throws [where env = brokenBodyEnv and url = "ascii ''https://a.example/x''"
     and w = 0 and calls = "[]" and ?w1.0 = 1 and r = brokenBodyResponse
     and e = "JsError (ascii ''terminated'')"]
  note t4 = fetchOpenGraphData_never_throws [where env = brokenParserEnv and url = "ascii ''https://a.example/x''"
     and w = 0 and calls = "[]" and ?w1.0 = 1 and r = exampleResponse
     and html = "[]" and e = "JsError (ascii ''parse error'')"]
  have h1: "netFetch offlineEnv (ascii ''https://a.example/x'') ogRequestHeaders 0
     = (Inl (JsError (ascii ''fetch failed'')), 1)"
    by (simp add: example_env_defs)
  have h2: "netFetch notFoundEnv (ascii ''https://a.example/x'') ogRequestHeaders 0
     = (Inr notFoundResponse, 1) \<and> \<not> r_ok notFoundResponse"
    by (simp add: example_env_defs)
  have h3: "netFetch brokenBodyEnv (ascii ''https://a.example/x'') ogRequestHeaders 0
     = (Inr brokenBodyResponse, 1) \<and> r_ok brokenBodyResponse \<and>
     r_text brokenBodyResponse = Inl (JsError (ascii ''terminated''))"
    by (simp add: example_env_defs)
  have h4: "netFetch brokenParserEnv (ascii ''https://a.example/x'') ogRequestHeaders 0
     = (Inr exampleResponse, 1) \<and> r_ok exampleResponse \<and> r_text exampleResponse = Inr [] \<and>
     jsdomParse brokenParserEnv [] = Inl (JsError (ascii ''parse error''))"
    by (simp add: example_env_defs)
  from t1 h1 have r1: "fetchOpenGraphData offlineEnv (ascii ''https://a.example/x'') (0, [])
     = Some (Inr \<lparr> m_title = ascii ''https://a.example/x'', m_description = [],
                    m_imageUrl = None \<rparr>, (1, []))" by blast
  from t2 h2 have r2: "fetchOpenGraphData notFoundEnv (ascii ''https://a.example/x'') (0, [])
     = Some (Inr \<lparr> m_title = ascii ''https://a.example/x'', m_description = [],
                    m_imageUrl = None \<rparr>, (1, []))" by blast
  from t3 h3 have r3: "fetchOpenGraphData brokenBodyEnv (ascii ''https://a.example/x'') (0, [])
     = Some (Inr \<lparr> m_title = ascii ''https://a.example/x'', m_description = [],
                    m_imageUrl = None \<rparr>, (1, []))" by blast
  from t4 h4 have r4: "fetchOpenGraphData brokenParserEnv (ascii ''https://a.example/x'') (0, [])
     = Some (Inr \<lparr> m_title = ascii ''https://a.example/x'', m_description = [],
                    m_imageUrl = None \<rparr>, (1, []))" by blast
  show ?thesis using h1 h2 h3 h4 r1 r2 r3 r4 by blast
qed

text \<open>
  Claim C5 fails on the code. The success path cuts the title to 300 code units, also
  when the title is the URL itself; the two failure paths return the URL as the title
  without cutting it. With the network down and a URL of 310 code units the title has
  310 code units. (The description is within its cap on every path, and the title on
  the success path: lemma \<open>fetchOpenGraphData_caps\<close>.)
\<close>

theorem fetchOpenGraphData_fallback_title_uncapped:
  "fetchOpenGraphData offlineEnv longUrl (0, [])
     = Some (Inr \<lparr> m_title = longUrl, m_description = [], m_imageUrl = None \<rparr>, (1, [])) \<and>
   length longUrl = 310"
  by (simp add: fetchOpenGraphData_def fetchOpenGraphDataBody_def io_defs offlineEnv_def exampleEnv_def
       ogFallback_def longUrl_def ascii_def)

text \<open>
  Claim C6. For a record URI \<open>at://did:x/t/k\<close> whose three parts are not empty and hold
  no slash, \<open>uriToPostUrl\<close> returns the profile base, the DID, the part of the record
  type after its last dot and the record key, joined by slashes; in particular for the
  URI of the specification.
\<close>

theorem uriToPostUrl_record_uri:
  "(x \<noteq> [] \<and> 0x2F \<notin> set x \<and> t \<noteq> [] \<and> 0x2F \<notin> set t \<and> k \<noteq> [] \<and> 0x2F \<notin> set k \<longrightarrow>
      uriToPostUrl profileBase (ascii ''at://did:'' @ x @ ascii ''/'' @ t @ ascii ''/'' @ k)
        = Some (profileBase @ ascii ''/'' @ (ascii ''did:'' @ x) @ ascii ''/'' @
                rev (takeWhile (\<lambda>c. c \<noteq> 0x2E) (rev t)) @ ascii ''/'' @ k))
   \<and> uriToPostUrl profileBase (ascii ''at://did:plc:abc/app.bsky.feed.post/xyz'')
        = Some (profileBase @ ascii ''/did:plc:abc/post/xyz'')"
proof (intro conjI impI)
  assume "x \<noteq> [] \<and> 0x2F \<notin> set x \<and> t \<noteq> [] \<and> 0x2F \<notin> set t \<and> k \<noteq> [] \<and> 0x2F \<notin> set k"
  then show "uriToPostUrl profileBase (ascii ''at://did:'' @ x @ ascii ''/'' @ t @ ascii ''/'' @ k)
        = Some (profileBase @ ascii ''/'' @ (ascii ''did:'' @ x) @ ascii ''/'' @
                rev (takeWhile (\<lambda>c. c \<noteq> 0x2E) (rev t)) @ ascii ''/'' @ k)"
    by (simp add: uriToPostUrl_wellformed)
next
  show "uriToPostUrl profileBase (ascii ''at://did:plc:abc/app.bsky.feed.post/xyz'')
        = Some (profileBase @ ascii ''/did:plc:abc/post/xyz'')"
    using uriToPostUrl_wellformed [of "ascii ''plc:abc''" "ascii ''app.bsky.feed.post''" "ascii ''xyz''" profileBase]
    by (simp add: ascii_def)
qed

theorem uriToPostUrl_record_uri_witness:
  "ascii ''plc:abc'' \<noteq> [] \<and> 0x2F \<notin> set (ascii ''plc:abc'') \<and>
   ascii ''app.bsky.feed.post'' \<noteq> [] \<and> 0x2F \<notin> set (ascii ''app.bsky.feed.post'') \<and>
   ascii ''xyz'' \<noteq> [] \<and> 0x2F \<notin> set (ascii ''xyz'') \<and>
   uriToPostUrl (ascii ''https://bsky.app/profile'') (ascii ''at://did:plc:abc/app.bsky.feed.post/xyz'')
     = Some (ascii ''https://bsky.app/profile/did:plc:abc/post/xyz'')"
  using uriToPostUrl_record_uri [of "ascii ''plc:abc''" "ascii ''app.bsky.feed.post''" "ascii ''xyz''"
       "ascii ''https://bsky.app/profile''"]
  by (simp add: ascii_def)

text \<open>
  Claim C8 fails on the code. A word longer than the line limit that follows a shorter
  word becomes the current line without being truncated, and is pushed as it is: the
  second line below has 43 code units.
\<close>

theorem wrapText_long_word_kept:
  "wrapText (ascii ''The Donaudampfschifffahrtsgesellschaftskapitaen'') 35 4
     = Inr [ascii ''The'', ascii ''Donaudampfschifffahrtsgesellschaftskapitaen''] \<and>
   length (ascii ''Donaudampfschifffahrtsgesellschaftskapitaen'') = 43"
  by (simp add: wrapText_def ascii_def isWhiteSpace_def)

text \<open>
  Claim C10. A buffer shorter than 1048576 bytes is returned as it is with its MIME
  type. A buffer of 1048576 bytes or more, so also one of exactly 1 MiB, goes through
  \<open>constrainImage\<close> at 1 MiB from quality 90: an image that is returned then has the
  MIME type image/jpeg and holds an output of the encoder of at most 1 MiB.
\<close>

theorem getPostImage_threshold:
  "(length buffer < 1048576 \<longrightarrow>
      getPostImage jpeg buffer mimeType
        = Some (Inr \<lparr> i_buffer = buffer, i_mimeType = mimeType \<rparr>)) \<and>
   (1048576 \<le> length buffer \<longrightarrow>
      getPostImage jpeg buffer mimeType
        = map_option (map_sum id (\<lambda>c. \<lparr> i_buffer = c, i_mimeType = ascii ''image/jpeg'' \<rparr>))
            (constrainImage jpeg buffer 1048576 90)) \<and>
   (1048576 \<le> length buffer \<and> getPostImage jpeg buffer mimeType = Some (Inr returned) \<longrightarrow>
      i_mimeType returned = ascii ''image/jpeg'' \<and>
      (\<exists>k. jpeg buffer (90 - 5 * int k) = Inr (i_buffer returned)) \<and>
      length (i_buffer returned) \<le> 1048576)"
proof (intro conjI impI)
  assume "length buffer < 1048576"
  then show "getPostImage jpeg buffer mimeType
        = Some (Inr \<lparr> i_buffer = buffer, i_mimeType = mimeType \<rparr>)"
    by (simp add: getPostImage_def MAX_SIZE_def)
next
  assume "1048576 \<le> length buffer"
  then show "getPostImage jpeg buffer mimeType
        = map_option (map_sum id (\<lambda>c. \<lparr> i_buffer = c, i_mimeType = ascii ''image/jpeg'' \<rparr>))
            (constrainImage jpeg buffer 1048576 90)"
    by (simp add: getPostImage_def MAX_SIZE_def split: option.splits sum.splits)
next
  assume a: "1048576 \<le> length buffer \<and> getPostImage jpeg buffer mimeType = Some (Inr returned)"
  then obtain c where c: "constrainImage jpeg buffer 1048576 90 = Some (Inr c)"
    and r: "returned = \<lparr> i_buffer = c, i_mimeType = ascii ''image/jpeg'' \<rparr>"
    by (auto simp: getPostImage_def MAX_SIZE_def split: option.splits sum.splits)
  show "i_mimeType returned = ascii ''image/jpeg''" using r by simp
  show "\<exists>k. jpeg buffer (90 - 5 * int k) = Inr (i_buffer returned)"
    using constrainImage_fits[OF c] r by simp
  show "length (i_buffer returned) \<le> 1048576"
    using constrainImage_fits[OF c] r by simp
qed

theorem getPostImage_threshold_witness:
  "length [1, 2, 3 :: 8 word] < 1048576 \<and>
   getPostImage sharpLikeJpeg [1, 2, 3] (ascii ''image/png'')
     = Some (Inr \<lparr> i_buffer = [1, 2, 3], i_mimeType = ascii ''image/png'' \<rparr>) \<and>
   1048576 \<le> length (replicate 1048576 (0 :: 8 word)) \<and>
   getPostImage sharpLikeJpeg (replicate 1048576 0) (ascii ''image/png'')
     = Some (Inr \<lparr> i_buffer = [0xFF, 0xD8], i_mimeType = ascii ''image/jpeg'' \<rparr>) \<and>
   i_mimeType \<lparr> i_buffer = [0xFF, 0xD8], i_mimeType = ascii ''image/jpeg'' \<rparr> = ascii ''image/jpeg'' \<and>
   length (i_buffer \<lparr> i_buffer = [0xFF, 0xD8 :: 8 word], i_mimeType = ascii ''image/jpeg'' \<rparr>) \<le> 1048576"
proof -
  have c: "constrainImage sharpLikeJpeg (replicate 1048576 0) 1048576 90 = Some (Inr [0xFF, 0xD8])"
    by (subst constrainImage.simps) (simp add: sharpLikeJpeg_def)
  note t1 = getPostImage_threshold [where buffer = "[1, 2, 3]" and jpeg = sharpLikeJpeg
      and mimeType = "ascii ''image/png''"]
  note t2 = getPostImage_threshold [where buffer = "replicate 1048576 0" and jpeg = sharpLikeJpeg
      and mimeType = "ascii ''image/png''"
      and returned = "\<lparr> i_buffer = [0xFF, 0xD8], i_mimeType = ascii ''image/jpeg'' \<rparr>"]
  have r1: "getPostImage sharpLikeJpeg [1, 2, 3] (ascii ''image/png'')
     = Some (Inr \<lparr> i_buffer = [1, 2, 3], i_mimeType = ascii ''image/png'' \<rparr>)"
    using t1 by simp
  have r2: "getPostImage sharpLikeJpeg (replicate 1048576 0) (ascii ''image/png'')
     = Some (Inr \<lparr> i_buffer = [0xFF, 0xD8], i_mimeType = ascii ''image/jpeg'' \<rparr>)"
    using t2 c by simp
  show ?thesis using r1 r2 t2 by simp
qed

section \<open>Claims about bluesky.js\<close>

text \<open>
  Claim C7, as the code has it. For properties with a like-of marker and no repost-of
  marker, when the liked URL is not same-origin with the profile URL, the account does
  not syndicate external likes, and the login and the uploads of the supplied photos
  succeed, \<open>post\<close> returns \<open>undefined\<close> without throwing, in the state the uploads
  left, and makes no posting call (no post, like or repost record is created).
\<close>

theorem post_external_like_not_syndicated:
  assumes "truthy (p_like_of properties)" "\<not> truthy (p_repost_of properties)"
      "utilIsSameOrigin env (orEmpty (p_like_of properties)) (this_profileUrl self) = Inr False"
      "\<not> this_syndicateExternalLikes self"
      "io_bind (client env self) (\<lambda>_. uploadImages env self properties me) s = Some (Inr images, s1)"
  shows "post env self properties me s = Some (Inr None, s1) \<and>
         postingCalls (snd s1) = postingCalls (snd s)"
proof
  have k: "keepsPosting (io_bind (client env self) (\<lambda>_. uploadImages env self properties me))"
    by auto
  show "postingCalls (snd s1) = postingCalls (snd s)"
    by (rule keepsPostingD[OF k assms(5)])
  from assms(5) obtain u s0 where c: "client env self s = Some (Inr u, s0)"
    and up: "uploadImages env self properties me s0 = Some (Inr images, s1)"
    by (cases rule: io_bind_cases) auto
  have "handleLike env self properties images (orEmpty (p_like_of properties)) s1 = Some (Inr None, s1)"
    unfolding handleLike_def using assms(3,4)
    by (simp add: io_bind_def io_lift_def io_return_def)
  then show "post env self properties me s = Some (Inr None, s1)"
    unfolding post_unfold using assms(1,2) c up
    by (simp add: io_bind_returned)
qed

text \<open>
  The claim as stated is about every post with a like-of marker. The repost branch
  comes first in \<open>post\<close>: a post that also has a repost-of marker pointing into the
  account's own network is reposted there, and the URL of the repost is returned. And
  the login comes before the cascade: when the backend refuses it, \<open>post\<close> throws.
\<close>

theorem post_like_with_repost_counterexample:
  "truthy (p_like_of likeAndRepost) \<and>
   utilIsSameOrigin exampleEnv (orEmpty (p_like_of likeAndRepost)) (this_profileUrl exampleSelf)
     = Inr False \<and>
   \<not> this_syndicateExternalLikes exampleSelf \<and>
   post exampleEnv exampleSelf likeAndRepost (ascii ''https://me.example'') (0, [])
     = Some (Inr (Some (ascii ''https://bsky.app/profile/did:plc:me/repost/r1'')),
             (5, [exampleLogin, exampleLogin, exampleLogin,
                  GetPost (Some (ascii ''did:plc:abc'')) (Some (ascii ''xyz'')),
                  Repost (ascii ''at://did:plc:abc/app.bsky.feed.post/xyz'') (ascii ''cid'')])) \<and>
   truthy (p_like_of externalLike) \<and>
   utilIsSameOrigin lockedOutEnv (orEmpty (p_like_of externalLike)) (this_profileUrl exampleSelf)
     = Inr False \<and>
   post lockedOutEnv exampleSelf externalLike (ascii ''https://me.example'') (0, [])
     = Some (Inl (JsError (ascii ''Invalid identifier or password'')), (1, [exampleLogin]))"
proof -
  have "truthy (p_like_of likeAndRepost)" by (simp add: likeAndRepost_def truthy_def ascii_def)
  moreover have "utilIsSameOrigin exampleEnv (orEmpty (p_like_of likeAndRepost)) (this_profileUrl exampleSelf)
     = Inr False"
    by (simp add: exampleEnv_sel exampleSelf_sel likeAndRepost_def orEmpty_def ascii_def notSlash_def)
  moreover have "\<not> this_syndicateExternalLikes exampleSelf" by (simp add: exampleSelf_sel)
  moreover have "truthy (p_like_of externalLike)" by (simp add: externalLike_def truthy_def ascii_def)
  moreover have "utilIsSameOrigin lockedOutEnv (orEmpty (p_like_of externalLike)) (this_profileUrl exampleSelf)
     = Inr False"
    by (simp add: lockedOutEnv_def exampleEnv_def exampleSelf_sel externalLike_def orEmpty_def
          ascii_def notSlash_def)
  moreover have "post lockedOutEnv exampleSelf externalLike (ascii ''https://me.example'') (0, [])
     = Some (Inl (JsError (ascii ''Invalid identifier or password'')), (1, [exampleLogin]))"
  proof -
    have c: "client lockedOutEnv exampleSelf (0, [])
       = Some (Inl (JsError (ascii ''Invalid identifier or password'')), (1, [exampleLogin]))"
      by (simp add: client_def io_call_def lockedOutEnv_def exampleEnv_def exampleSelf_sel
            exampleLogin_def)
    show ?thesis unfolding post_unfold by (simp add: io_bind_def c)
  qed
  ultimately show ?thesis using run_likeAndRepost by simp
qed

theorem post_external_like_not_syndicated_witness:
  "truthy (p_like_of externalLike) \<and> \<not> truthy (p_repost_of externalLike) \<and>
   utilIsSameOrigin exampleEnv (orEmpty (p_like_of externalLike)) (this_profileUrl exampleSelf)
     = Inr False \<and>
   \<not> this_syndicateExternalLikes exampleSelf \<and>
   io_bind (client exampleEnv exampleSelf)
     (\<lambda>_. uploadImages exampleEnv exampleSelf externalLike (ascii ''https://me.example'')) (0, [])
     = Some (Inr [exampleImage], (4, [exampleLogin, exampleLogin, exampleUpload])) \<and>
   post exampleEnv exampleSelf externalLike (ascii ''https://me.example'') (0, [])
     = Some (Inr None, (4, [exampleLogin, exampleLogin, exampleUpload])) \<and>
   postingCalls [exampleLogin, exampleLogin, exampleUpload] = postingCalls []"
proof -
  have h1: "truthy (p_like_of externalLike)" by (simp add: externalLike_def truthy_def ascii_def)
  have h2: "\<not> truthy (p_repost_of externalLike)" by (simp add: externalLike_def truthy_def)
  have h3: "utilIsSameOrigin exampleEnv (orEmpty (p_like_of externalLike)) (this_profileUrl exampleSelf)
     = Inr False"
    by (simp add: exampleEnv_sel exampleSelf_sel externalLike_def orEmpty_def ascii_def notSlash_def)
  have h4: "\<not> this_syndicateExternalLikes exampleSelf" by (simp add: exampleSelf_sel)
  note h5 = run_externalLike_prep
  from post_external_like_not_syndicated [OF h1 h2 h3 h4 h5]
  show ?thesis using h1 h2 h3 h4 h5 by simp
qed

text \<open>
  Claim C9. Take a regular post (no repost-of, like-of or bookmark-of marker) with at
  least one photo.

  First, the run itself. When the login, the uploads, the annotator, the login of
  \<open>postPost\<close> and the clock succeed, \<open>post\<close> returns: it has handed one record to the
  backend and made no other posting call, the embed of the record is the image gallery
  of exactly the images the uploads returned, and \<open>post\<close> gives the backend's answer
  (the URL of the new post, or the backend's error). The gallery has one image for each
  of the first four photos, in the order of the photos whatever the order in which the
  uploads ran: at least one and at most four, each with the alternative text of its
  photo (empty if it has none), and with a blob reference that an \<open>uploadBlob\<close> call of
  these uploads was answered with, or \<open>undefined\<close> just when the photo has no URL.

  Second, these steps do succeed, under every schedule of the uploads, when the
  collaborators do: every login, every fetch (an \<open>ok\<close> response whose body can be read
  and, if it is an image, compressed), every \<open>uploadBlob\<close>, the annotator and the
  clock succeed, and the URLs of the photos are resolved. Then \<open>post\<close> returns, and
  the one posting call it has made is the record with the gallery.

  Third, whatever the collaborators do, a run of \<open>post\<close> that ends has handed exactly
  one record to the backend, with the image gallery as its embed, or has thrown
  without any posting call. In no case is an external card attached.
\<close>

theorem post_regular_with_photos:
  fixes env :: "'w env"
  assumes "\<not> truthy (p_repost_of properties)" "\<not> truthy (p_like_of properties)"
      "\<not> truthy (p_bookmark_of properties)"
      "p_photo properties = Some photos" "photos \<noteq> []"
  shows
    "(\<forall>s1 images s2 richText s3 s4 createdAt w5 postData.
        client env self s = Some (Inr (), s1) \<and>
        uploadImages env self properties me s1 = Some (Inr images, s2) \<and>
        createRichText env
          (utilsBuildPostText env properties (getExternalUrl (urlHostname env) properties None)) s2
          = Some (Inr richText, s3) \<and>
        client env self s3 = Some (Inr (), s4) \<and>
        clockNow env (fst s4) = (Inr createdAt, w5) \<and>
        postData = \<lparr> pd_text = rt_text richText, pd_facets = rt_facets richText,
                     pd_createdAt = createdAt, pd_embed = Some (EmbedImages images) \<rparr> \<longrightarrow>
          post env self properties me s =
            Some (map_sum id (uriToPostUrl (this_profileUrl self)) (fst (agentPost env postData w5)),
                  (snd (agentPost env postData w5), snd s4 @ [CreatePost postData])) \<and>
          postingCalls (snd s4 @ [CreatePost postData]) = postingCalls (snd s) @ [CreatePost postData] \<and>
          length images = min 4 (length photos) \<and> 1 \<le> length images \<and> length images \<le> 4 \<and>
          list_all2 (\<lambda>photo im. im_alt im = orEmpty (ph_alt photo) \<and>
                                 (im_image im = None \<longleftrightarrow> ph_url photo = None))
            (take 4 photos) images \<and>
          (\<forall>im\<in>set images. \<forall>b. im_image im = Some b \<longrightarrow>
             (\<exists>blob encoding w.
                UploadBlob blob encoding \<in> set (drop (length (snd s1)) (snd s2)) \<and>
                fst (agentUploadBlob env blob encoding w) = Inr b))) \<and>
     ((\<forall>w. fst (agentLogin env (this_serviceUrl self) (this_identifier self)
                 (this_password self) w) = Inr ()) \<and>
      (\<forall>photo\<in>set (take 4 photos). \<forall>url. ph_url photo = Some url \<longrightarrow>
         (\<exists>mediaUrl. utilGetCanonicalUrl env url me = Inr mediaUrl)) \<and>
      (\<forall>mediaUrl w. \<exists>mediaResponse blob.
         fst (netFetch env mediaUrl [] w) = Inr mediaResponse \<and> r_ok mediaResponse \<and>
         r_blob mediaResponse = Inr blob \<and>
         (startsWith (orEmpty (r_contentType mediaResponse)) (ascii ''image/'') \<longrightarrow>
          (\<exists>compressed. getPostImage (sharpJpeg env) blob
                          (orEmpty (r_contentType mediaResponse)) = Some (Inr compressed)))) \<and>
      (\<forall>blob encoding w. \<exists>uploaded. fst (agentUploadBlob env blob encoding w) = Inr uploaded) \<and>
      (\<forall>text w. \<exists>detected. fst (agentDetectFacets env text w) = Inr detected) \<and>
      (\<forall>w. \<exists>createdAt. fst (clockNow env w) = Inr createdAt) \<longrightarrow>
        (\<exists>r s' postData images w.
           post env self properties me s = Some (r, s') \<and>
           r = map_sum id (uriToPostUrl (this_profileUrl self)) (fst (agentPost env postData w)) \<and>
           postingCalls (snd s') = postingCalls (snd s) @ [CreatePost postData] \<and>
           pd_embed postData = Some (EmbedImages images) \<and>
           pd_text postData =
             utilsBuildPostText env properties (getExternalUrl (urlHostname env) properties None) \<and>
           list_all2 (\<lambda>photo im. im_alt im = orEmpty (ph_alt photo) \<and>
                                  (im_image im = None \<longleftrightarrow> ph_url photo = None))
             (take 4 photos) images)) \<and>
     (\<forall>r s'. post env self properties me s = Some (r, s') \<longrightarrow>
        (\<exists>postData images.
           postingCalls (snd s') = postingCalls (snd s) @ [CreatePost postData] \<and>
           pd_embed postData = Some (EmbedImages images) \<and>
           length images = min 4 (length photos) \<and> 1 \<le> length images \<and> length images \<le> 4 \<and>
           list_all2 (\<lambda>photo im. im_alt im = orEmpty (ph_alt photo) \<and>
                                  (im_image im = None \<longleftrightarrow> ph_url photo = None))
             (take 4 photos) images) \<or>
        ((\<exists>e. r = Inl e) \<and> postingCalls (snd s') = postingCalls (snd s)))"
proof -
  let ?text = "utilsBuildPostText env properties (getExternalUrl (urlHostname env) properties None)"
  let ?gallery = "list_all2 (\<lambda>photo im. im_alt im = orEmpty (ph_alt photo) \<and>
                                  (im_image im = None \<longleftrightarrow> ph_url photo = None)) (take 4 photos)"
  have bounds: "images \<noteq> [] \<and> 1 \<le> length images \<and> length images \<le> 4"
    if "length images = min 4 (length photos)" for images :: "imageEntry list"
    using that assms(5) by (cases photos; cases images) auto
  have run: "post env self properties me s =
            Some (map_sum id (uriToPostUrl (this_profileUrl self)) (fst (agentPost env postData w5)),
                  (snd (agentPost env postData w5), snd s4 @ [CreatePost postData])) \<and>
          postingCalls (snd s4 @ [CreatePost postData]) = postingCalls (snd s) @ [CreatePost postData] \<and>
          length images = min 4 (length photos) \<and> 1 \<le> length images \<and> length images \<le> 4 \<and>
          ?gallery images \<and>
          (\<forall>im\<in>set images. \<forall>b. im_image im = Some b \<longrightarrow>
             (\<exists>blob encoding w.
                UploadBlob blob encoding \<in> set (drop (length (snd s1)) (snd s2)) \<and>
                fst (agentUploadBlob env blob encoding w) = Inr b))"
    if c1: "client env self s = Some (Inr (), s1)"
      and up: "uploadImages env self properties me s1 = Some (Inr images, s2)"
      and rt: "createRichText env ?text s2 = Some (Inr richText, s3)"
      and c2: "client env self s3 = Some (Inr (), s4)"
      and ck: "clockNow env (fst s4) = (Inr createdAt, w5)"
      and pd: "postData = \<lparr> pd_text = rt_text richText, pd_facets = rt_facets richText,
                     pd_createdAt = createdAt, pd_embed = Some (EmbedImages images) \<rparr>"
    for s1 images s2 richText s3 s4 createdAt w5 postData
  proof -
    note g = uploadImages_gallery[OF assms(4) up]
    from bounds[OF g(1)] have ne: "images \<noteq> []" and b: "1 \<le> length images" "length images \<le> 4"
      by simp_all
    note r = post_regular_run[OF assms(1-3) ne c1 up rt c2 ck]
    have "post env self properties me s =
            Some (map_sum id (uriToPostUrl (this_profileUrl self)) (fst (agentPost env postData w5)),
                  (snd (agentPost env postData w5), snd s4 @ [CreatePost postData]))"
      unfolding pd by (rule r(1))
    moreover have "postingCalls (snd s4 @ [CreatePost postData])
                     = postingCalls (snd s) @ [CreatePost postData]"
      using r(2) by (simp add: postingCalls_def)
    ultimately show ?thesis
      apply (intro conjI)
            apply assumption
           apply assumption
          apply (rule g(1))
         apply (rule b(1))
        apply (rule b(2))
       apply (rule g(2))
      apply (rule g(3))
      done
  qed
  have progress: "\<exists>r s' postData images w.
           post env self properties me s = Some (r, s') \<and>
           r = map_sum id (uriToPostUrl (this_profileUrl self)) (fst (agentPost env postData w)) \<and>
           postingCalls (snd s') = postingCalls (snd s) @ [CreatePost postData] \<and>
           pd_embed postData = Some (EmbedImages images) \<and>
           pd_text postData = ?text \<and> ?gallery images"
    if login: "\<forall>w. fst (agentLogin env (this_serviceUrl self) (this_identifier self)
                 (this_password self) w) = Inr ()"
      and canonical: "\<forall>photo\<in>set (take 4 photos). \<forall>url. ph_url photo = Some url \<longrightarrow>
         (\<exists>mediaUrl. utilGetCanonicalUrl env url me = Inr mediaUrl)"
      and fetch: "\<forall>mediaUrl w. \<exists>mediaResponse blob.
         fst (netFetch env mediaUrl [] w) = Inr mediaResponse \<and> r_ok mediaResponse \<and>
         r_blob mediaResponse = Inr blob \<and>
         (startsWith (orEmpty (r_contentType mediaResponse)) (ascii ''image/'') \<longrightarrow>
          (\<exists>compressed. getPostImage (sharpJpeg env) blob
                          (orEmpty (r_contentType mediaResponse)) = Some (Inr compressed)))"
      and upload: "\<forall>blob encoding w. \<exists>uploaded. fst (agentUploadBlob env blob encoding w) = Inr uploaded"
      and detect: "\<forall>text w. \<exists>detected. fst (agentDetectFacets env text w) = Inr detected"
      and clock: "\<forall>w. \<exists>createdAt. fst (clockNow env w) = Inr createdAt"
  proof -
    from client_returns[OF login] obtain s1 where c1: "client env self s = Some (Inr (), s1)"
      by blast
    from uploadImages_returns[OF login canonical fetch upload assms(4)]
    obtain images s2 where up: "uploadImages env self properties me s1 = Some (Inr images, s2)"
      by blast
    from createRichText_returns[OF detect] obtain richText s3 where
      rt: "createRichText env ?text s2 = Some (Inr richText, s3)" and tx: "rt_text richText = ?text"
      by blast
    from client_returns[OF login] obtain s4 where c2: "client env self s3 = Some (Inr (), s4)"
      by blast
    from clock obtain createdAt where "fst (clockNow env (fst s4)) = Inr createdAt" by blast
    then have ck: "clockNow env (fst s4) = (Inr createdAt, snd (clockNow env (fst s4)))"
      by (metis prod.collapse)
    define postData where "postData = \<lparr> pd_text = rt_text richText, pd_facets = rt_facets richText,
                     pd_createdAt = createdAt, pd_embed = Some (EmbedImages images) \<rparr>"
    note r = run[OF c1 up rt c2 ck postData_def]
    have e: "pd_embed postData = Some (EmbedImages images)" and t: "pd_text postData = ?text"
      unfolding postData_def using tx by simp_all
    have k: "postingCalls (snd (snd (agentPost env postData (snd (clockNow env (fst s4)))),
                                snd s4 @ [CreatePost postData]))
               = postingCalls (snd s) @ [CreatePost postData]"
      using r by simp
    show ?thesis
      apply (rule exI[of _ "map_sum id (uriToPostUrl (this_profileUrl self))
                              (fst (agentPost env postData (snd (clockNow env (fst s4)))))"])
      apply (rule exI[of _ "(snd (agentPost env postData (snd (clockNow env (fst s4)))),
                             snd s4 @ [CreatePost postData])"])
      apply (rule exI[of _ postData])
      apply (rule exI[of _ images])
      apply (rule exI[of _ "snd (clockNow env (fst s4))"])
      apply (intro conjI)
           apply (rule r[THEN conjunct1])
          apply (rule refl)
         apply (rule k)
        apply (rule e)
       apply (rule t)
      apply (rule r[THEN conjunct2, THEN conjunct2, THEN conjunct2, THEN conjunct2, THEN conjunct2,
                    THEN conjunct1])
      done
  qed
  have safety: "(\<exists>postData images.
           postingCalls (snd s') = postingCalls (snd s) @ [CreatePost postData] \<and>
           pd_embed postData = Some (EmbedImages images) \<and>
           length images = min 4 (length photos) \<and> 1 \<le> length images \<and> length images \<le> 4 \<and>
           ?gallery images) \<or>
        ((\<exists>e. r = Inl e) \<and> postingCalls (snd s') = postingCalls (snd s))"
    if "post env self properties me s = Some (r, s')" for r s'
  proof -
    from that have
      "io_bind (client env self) (\<lambda>_.
       io_bind (uploadImages env self properties me) (\<lambda>images.
         handleRegular env self properties images)) s = Some (r, s')"
      unfolding post_unfold using assms(1-3) by simp
    then show ?thesis
    proof (cases rule: io_bind_cases)
      case (thrown e)
      then show ?thesis using keepsPostingD[OF keeps_client] by blast
    next
      case (returned u s1)
      from returned(1) have k1: "postingCalls (snd s1) = postingCalls (snd s)"
        by (rule keepsPostingD[OF keeps_client])
      from returned(2) show ?thesis
      proof (cases rule: io_bind_cases)
        case (thrown e)
        then show ?thesis using keepsPostingD[OF keeps_uploadImages] k1 by metis
      next
        case (returned images s2)
        from returned(1) have k2: "postingCalls (snd s2) = postingCalls (snd s1)"
          by (rule keepsPostingD[OF keeps_uploadImages])
        note g = uploadImages_gallery[OF assms(4) returned(1)]
        from bounds[OF g(1)] have ne: "images \<noteq> []" and b: "1 \<le> length images" "length images \<le> 4"
          by simp_all
        from handleRegular_gallery[OF returned(2) ne] show ?thesis
          unfolding k2 k1 using g(1,2) b by blast
      qed
    qed
  qed
  have part1: "\<forall>s1 images s2 richText s3 s4 createdAt w5 postData.
        client env self s = Some (Inr (), s1) \<and>
        uploadImages env self properties me s1 = Some (Inr images, s2) \<and>
        createRichText env ?text s2 = Some (Inr richText, s3) \<and>
        client env self s3 = Some (Inr (), s4) \<and>
        clockNow env (fst s4) = (Inr createdAt, w5) \<and>
        postData = \<lparr> pd_text = rt_text richText, pd_facets = rt_facets richText,
                     pd_createdAt = createdAt, pd_embed = Some (EmbedImages images) \<rparr> \<longrightarrow>
          post env self properties me s =
            Some (map_sum id (uriToPostUrl (this_profileUrl self)) (fst (agentPost env postData w5)),
                  (snd (agentPost env postData w5), snd s4 @ [CreatePost postData])) \<and>
          postingCalls (snd s4 @ [CreatePost postData]) = postingCalls (snd s) @ [CreatePost postData] \<and>
          length images = min 4 (length photos) \<and> 1 \<le> length images \<and> length images \<le> 4 \<and>
          ?gallery images \<and>
          (\<forall>im\<in>set images. \<forall>b. im_image im = Some b \<longrightarrow>
             (\<exists>blob encoding w.
                UploadBlob blob encoding \<in> set (drop (length (snd s1)) (snd s2)) \<and>
                fst (agentUploadBlob env blob encoding w) = Inr b))"
    apply (intro allI impI)
    apply (elim conjE)
    apply (rule run)
         apply assumption+
    done
  have part2: "(\<forall>w. fst (agentLogin env (this_serviceUrl self) (this_identifier self)
                 (this_password self) w) = Inr ()) \<and>
      (\<forall>photo\<in>set (take 4 photos). \<forall>url. ph_url photo = Some url \<longrightarrow>
         (\<exists>mediaUrl. utilGetCanonicalUrl env url me = Inr mediaUrl)) \<and>
      (\<forall>mediaUrl w. \<exists>mediaResponse blob.
         fst (netFetch env mediaUrl [] w) = Inr mediaResponse \<and> r_ok mediaResponse \<and>
         r_blob mediaResponse = Inr blob \<and>
         (startsWith (orEmpty (r_contentType mediaResponse)) (ascii ''image/'') \<longrightarrow>
          (\<exists>compressed. getPostImage (sharpJpeg env) blob
                          (orEmpty (r_contentType mediaResponse)) = Some (Inr compressed)))) \<and>
      (\<forall>blob encoding w. \<exists>uploaded. fst (agentUploadBlob env blob encoding w) = Inr uploaded) \<and>
      (\<forall>text w. \<exists>detected. fst (agentDetectFacets env text w) = Inr detected) \<and>
      (\<forall>w. \<exists>createdAt. fst (clockNow env w) = Inr createdAt) \<longrightarrow>
        (\<exists>r s' postData images w.
           post env self properties me s = Some (r, s') \<and>
           r = map_sum id (uriToPostUrl (this_profileUrl self)) (fst (agentPost env postData w)) \<and>
           postingCalls (snd s') = postingCalls (snd s) @ [CreatePost postData] \<and>
           pd_embed postData = Some (EmbedImages images) \<and>
           pd_text postData = ?text \<and> ?gallery images)"
    apply (rule impI)
    apply (elim conjE)
    apply (rule progress)
         apply assumption+
    done
  have part3: "\<forall>r s'. post env self properties me s = Some (r, s') \<longrightarrow>
        (\<exists>postData images.
           postingCalls (snd s') = postingCalls (snd s) @ [CreatePost postData] \<and>
           pd_embed postData = Some (EmbedImages images) \<and>
           length images = min 4 (length photos) \<and> 1 \<le> length images \<and> length images \<le> 4 \<and>
           ?gallery images) \<or>
        ((\<exists>e. r = Inl e) \<and> postingCalls (snd s') = postingCalls (snd s))"
    apply (intro allI impI)
    apply (rule safety)
    apply assumption
    done
  show ?thesis by (rule conjI[OF part1 conjI[OF part2 part3]])
qed

theorem post_regular_with_photos_witness:
  "\<not> truthy (p_repost_of photoNote) \<and> \<not> truthy (p_like_of photoNote) \<and>
   \<not> truthy (p_bookmark_of photoNote) \<and>
   p_photo photoNote = Some [namedPhoto ''a'', namedPhoto ''b'',
                             (namedPhoto ''c'') \<lparr> ph_alt := None \<rparr>,
                             namedPhoto ''d'', namedPhoto ''e''] \<and>
   [namedPhoto ''a'', namedPhoto ''b'', (namedPhoto ''c'') \<lparr> ph_alt := None \<rparr>,
    namedPhoto ''d'', namedPhoto ''e''] \<noteq> [] \<and>
   client busyEnv exampleSelf (0, []) = Some (Inr (), (1, [exampleLogin])) \<and>
   uploadImages busyEnv exampleSelf photoNote (ascii ''https://me.example'') (1, [exampleLogin])
     = Some (Inr exampleGallery, (13, photoNoteUploads)) \<and>
   createRichText busyEnv
       (utilsBuildPostText busyEnv photoNote (getExternalUrl (urlHostname busyEnv) photoNote None))
       (13, photoNoteUploads)
     = Some (Inr \<lparr> rt_text = ascii ''hello'', rt_facets = None \<rparr>, (13, photoNoteUploads)) \<and>
   client busyEnv exampleSelf (13, photoNoteUploads)
     = Some (Inr (), (14, photoNoteUploads @ [exampleLogin])) \<and>
   clockNow busyEnv 14 = (Inr (ascii ''2024-01-01T00:00:00.000Z''), 14) \<and>
   post busyEnv exampleSelf photoNote (ascii ''https://me.example'') (0, [])
     = Some (Inr (Some (ascii ''https://bsky.app/profile/did:plc:me/post/p1'')),
             (15, photoNoteUploads @ [exampleLogin, CreatePost examplePostData])) \<and>
   postingCalls (photoNoteUploads @ [exampleLogin, CreatePost examplePostData])
     = [CreatePost examplePostData] \<and>
   pd_embed examplePostData = Some (EmbedImages exampleGallery) \<and>
   length exampleGallery = 4 \<and>
   map im_alt exampleGallery = [ascii ''a'', ascii ''b'', [], ascii ''d''] \<and>
   map im_image exampleGallery = [Some (ascii ''blob:a.png''), Some (ascii ''blob:b.png''),
                                  Some (ascii ''blob:c.png''), Some (ascii ''blob:d.png'')] \<and>
   (\<forall>w. fst (agentLogin busyEnv (this_serviceUrl exampleSelf) (this_identifier exampleSelf)
               (this_password exampleSelf) w) = Inr ()) \<and>
   (\<forall>url. utilGetCanonicalUrl busyEnv url (ascii ''https://me.example'') = Inr url) \<and>
   (\<forall>mediaUrl w. fst (netFetch busyEnv mediaUrl [] w)
      = Inr (exampleResponse \<lparr> r_blob := Inr (map ucast (drop 19 mediaUrl)) \<rparr>)) \<and>
   (\<forall>blob. \<exists>compressed.
      getPostImage (sharpJpeg busyEnv) blob (ascii ''image/png'') = Some (Inr compressed)) \<and>
   (\<forall>blob encoding w. fst (agentUploadBlob busyEnv blob encoding w)
      = Inr (ascii ''blob:'' @ map ucast blob)) \<and>
   (\<forall>text w. fst (agentDetectFacets busyEnv text w) = Inr None) \<and>
   (\<forall>w. fst (clockNow busyEnv w) = Inr (ascii ''2024-01-01T00:00:00.000Z'')) \<and>
   (\<exists>r s' postData images w.
      post busyEnv exampleSelf photoNote (ascii ''https://me.example'') (0, []) = Some (r, s') \<and>
      r = map_sum id (uriToPostUrl (this_profileUrl exampleSelf)) (fst (agentPost busyEnv postData w)) \<and>
      postingCalls (snd s') = postingCalls [] @ [CreatePost postData] \<and>
      pd_embed postData = Some (EmbedImages images))"
proof -
  let ?me = "ascii ''https://me.example''"
  let ?photos = "[namedPhoto ''a'', namedPhoto ''b'', (namedPhoto ''c'') \<lparr> ph_alt := None \<rparr>,
                  namedPhoto ''d'', namedPhoto ''e'']"
  have h: "\<not> truthy (p_repost_of photoNote)" "\<not> truthy (p_like_of photoNote)"
    "\<not> truthy (p_bookmark_of photoNote)"
    "p_photo photoNote = Some ?photos" "?photos \<noteq> []"
    by (simp_all add: photoNote_def truthy_def)
  have tx: "utilsBuildPostText busyEnv photoNote x = ascii ''hello''" for x
    by (simp add: busyEnv_sel photoNote_def contentText_def orEmpty_def)
  have c1: "client busyEnv exampleSelf (0, []) = Some (Inr (), (1, [exampleLogin]))"
    by (simp add: run_busy_client)
  have up: "uploadImages busyEnv exampleSelf photoNote ?me (1, [exampleLogin])
     = Some (Inr exampleGallery, (13, photoNoteUploads))"
    unfolding uploadImages_def h(4) option.case photoNote_photos Let_def list.map
      run_busy_promiseAll
    by (simp add: photoNoteUploads_def exampleGallery_def namedImage_def namedPhoto_def
          uploadedImage_def orEmpty_def ascii_def)
  have rt: "createRichText busyEnv
       (utilsBuildPostText busyEnv photoNote (getExternalUrl (urlHostname busyEnv) photoNote None))
       (13, photoNoteUploads)
     = Some (Inr \<lparr> rt_text = ascii ''hello'', rt_facets = None \<rparr>, (13, photoNoteUploads))"
    unfolding tx by (rule run_busy_createRichText)
  have c2: "client busyEnv exampleSelf (13, photoNoteUploads)
     = Some (Inr (), (14, photoNoteUploads @ [exampleLogin]))"
    by (simp add: run_busy_client)
  have ck: "clockNow busyEnv (fst (14 :: nat, photoNoteUploads @ [exampleLogin]))
     = (Inr (ascii ''2024-01-01T00:00:00.000Z''), 14)"
    by (simp add: busyEnv_sel)
  have pd: "examplePostData
     = \<lparr> pd_text = rt_text \<lparr> rt_text = ascii ''hello'', rt_facets = None \<rparr>,
         pd_facets = rt_facets \<lparr> rt_text = ascii ''hello'', rt_facets = None \<rparr>,
         pd_createdAt = ascii ''2024-01-01T00:00:00.000Z'',
         pd_embed = Some (EmbedImages exampleGallery) \<rparr>"
    by (simp add: examplePostData_def)
  have l: "\<forall>w. fst (agentLogin busyEnv (this_serviceUrl exampleSelf) (this_identifier exampleSelf)
               (this_password exampleSelf) w) = Inr ()"
    by (simp add: busyEnv_sel)
  have cn: "\<forall>url. utilGetCanonicalUrl busyEnv url ?me = Inr url"
    by (simp add: busyEnv_sel)
  have f: "\<forall>mediaUrl w. fst (netFetch busyEnv mediaUrl [] w)
      = Inr (exampleResponse \<lparr> r_blob := Inr (map ucast (drop 19 mediaUrl)) \<rparr>)"
    by (simp add: busyEnv_sel)
  have g: "\<forall>blob. \<exists>compressed.
      getPostImage (sharpJpeg busyEnv) blob (ascii ''image/png'') = Some (Inr compressed)"
  proof
    fix blob :: buffer
    have "constrainImage sharpLikeJpeg blob MAX_SIZE 90 = Some (Inr [0xFF, 0xD8])"
      by (subst constrainImage.simps) (simp add: sharpLikeJpeg_def MAX_SIZE_def)
    then show "\<exists>compressed.
      getPostImage (sharpJpeg busyEnv) blob (ascii ''image/png'') = Some (Inr compressed)"
      by (simp add: getPostImage_def busyEnv_sel)
  qed
  have u: "\<forall>blob encoding w. fst (agentUploadBlob busyEnv blob encoding w)
      = Inr (ascii ''blob:'' @ map ucast blob)"
    by (simp add: busyEnv_sel)
  have d: "\<forall>text w. fst (agentDetectFacets busyEnv text w) = Inr None"
    by (simp add: busyEnv_sel)
  have k: "\<forall>w. fst (clockNow busyEnv w) = Inr (ascii ''2024-01-01T00:00:00.000Z'')"
    by (simp add: busyEnv_sel)
  have ct: "orEmpty (r_contentType (exampleResponse \<lparr> r_blob := Inr blob \<rparr>)) = ascii ''image/png''"
    for blob
    by (simp add: exampleResponse_def orEmpty_def)
  have collaborators:
    "(\<forall>w. fst (agentLogin busyEnv (this_serviceUrl exampleSelf) (this_identifier exampleSelf)
                 (this_password exampleSelf) w) = Inr ()) \<and>
      (\<forall>photo\<in>set (take 4 ?photos). \<forall>url. ph_url photo = Some url \<longrightarrow>
         (\<exists>mediaUrl. utilGetCanonicalUrl busyEnv url ?me = Inr mediaUrl)) \<and>
      (\<forall>mediaUrl w. \<exists>mediaResponse blob.
         fst (netFetch busyEnv mediaUrl [] w) = Inr mediaResponse \<and> r_ok mediaResponse \<and>
         r_blob mediaResponse = Inr blob \<and>
         (startsWith (orEmpty (r_contentType mediaResponse)) (ascii ''image/'') \<longrightarrow>
          (\<exists>compressed. getPostImage (sharpJpeg busyEnv) blob
                          (orEmpty (r_contentType mediaResponse)) = Some (Inr compressed)))) \<and>
      (\<forall>blob encoding w. \<exists>uploaded. fst (agentUploadBlob busyEnv blob encoding w) = Inr uploaded) \<and>
      (\<forall>text w. \<exists>detected. fst (agentDetectFacets busyEnv text w) = Inr detected) \<and>
      (\<forall>w. \<exists>createdAt. fst (clockNow busyEnv w) = Inr createdAt)"
  proof (intro conjI)
    show "\<forall>w. fst (agentLogin busyEnv (this_serviceUrl exampleSelf) (this_identifier exampleSelf)
                 (this_password exampleSelf) w) = Inr ()" by (rule l)
    show "\<forall>photo\<in>set (take 4 ?photos). \<forall>url. ph_url photo = Some url \<longrightarrow>
         (\<exists>mediaUrl. utilGetCanonicalUrl busyEnv url ?me = Inr mediaUrl)"
      using cn by blast
    show "\<forall>mediaUrl w. \<exists>mediaResponse blob.
         fst (netFetch busyEnv mediaUrl [] w) = Inr mediaResponse \<and> r_ok mediaResponse \<and>
         r_blob mediaResponse = Inr blob \<and>
         (startsWith (orEmpty (r_contentType mediaResponse)) (ascii ''image/'') \<longrightarrow>
          (\<exists>compressed. getPostImage (sharpJpeg busyEnv) blob
                          (orEmpty (r_contentType mediaResponse)) = Some (Inr compressed)))"
    proof (intro allI)
      fix mediaUrl :: jsstring and w :: nat
      let ?r = "exampleResponse \<lparr> r_blob := Inr (map ucast (drop 19 mediaUrl)) \<rparr>"
      have "fst (netFetch busyEnv mediaUrl [] w) = Inr ?r" using f by simp
      moreover have "r_ok ?r" by (simp add: exampleResponse_def)
      moreover have "r_blob ?r = Inr (map ucast (drop 19 mediaUrl))" by simp
      moreover have "\<exists>compressed. getPostImage (sharpJpeg busyEnv) (map ucast (drop 19 mediaUrl))
                          (orEmpty (r_contentType ?r)) = Some (Inr compressed)"
        unfolding ct using g by simp
      ultimately show "\<exists>mediaResponse blob.
         fst (netFetch busyEnv mediaUrl [] w) = Inr mediaResponse \<and> r_ok mediaResponse \<and>
         r_blob mediaResponse = Inr blob \<and>
         (startsWith (orEmpty (r_contentType mediaResponse)) (ascii ''image/'') \<longrightarrow>
          (\<exists>compressed. getPostImage (sharpJpeg busyEnv) blob
                          (orEmpty (r_contentType mediaResponse)) = Some (Inr compressed)))"
        by blast
    qed
    show "\<forall>blob encoding w. \<exists>uploaded. fst (agentUploadBlob busyEnv blob encoding w) = Inr uploaded"
      using u by simp
    show "\<forall>text w. \<exists>detected. fst (agentDetectFacets busyEnv text w) = Inr detected"
      using d by simp
    show "\<forall>w. \<exists>createdAt. fst (clockNow busyEnv w) = Inr createdAt"
      using k by simp
  qed
  note claim = post_regular_with_photos [OF h, where env = busyEnv and self = exampleSelf
      and me = ?me and s = "(0, [])"]
  note steps = conjI[OF c1 conjI[OF up conjI[OF rt conjI[OF c2 conjI[OF ck pd]]]]]
  note r = claim[THEN conjunct1, rule_format, OF steps]
  note run = r[THEN conjunct1]
  note calls = r[THEN conjunct2, THEN conjunct1]
  note p = mp[OF claim[THEN conjunct2, THEN conjunct1] collaborators]
  from p have progress: "\<exists>r s' postData images w.
      post busyEnv exampleSelf photoNote ?me (0, []) = Some (r, s') \<and>
      r = map_sum id (uriToPostUrl (this_profileUrl exampleSelf)) (fst (agentPost busyEnv postData w)) \<and>
      postingCalls (snd s') = postingCalls [] @ [CreatePost postData] \<and>
      pd_embed postData = Some (EmbedImages images)"
    by (simp only: snd_conv) blast
  have post: "post busyEnv exampleSelf photoNote ?me (0, [])
     = Some (Inr (Some (ascii ''https://bsky.app/profile/did:plc:me/post/p1'')),
             (15, photoNoteUploads @ [exampleLogin, CreatePost examplePostData]))"
    unfolding run by (simp add: busyEnv_sel exampleSelf_sel uri_post)
  have pc: "postingCalls (photoNoteUploads @ [exampleLogin, CreatePost examplePostData])
     = [CreatePost examplePostData]"
    using calls by (simp add: postingCalls_def)
  have e: "pd_embed examplePostData = Some (EmbedImages exampleGallery)"
    by (simp add: examplePostData_def)
  have len: "length exampleGallery = 4" by (simp add: exampleGallery_def)
  have alts: "map im_alt exampleGallery = [ascii ''a'', ascii ''b'', [], ascii ''d'']"
    by (simp add: exampleGallery_def namedImage_def)
  have blobs: "map im_image exampleGallery = [Some (ascii ''blob:a.png''), Some (ascii ''blob:b.png''),
                                  Some (ascii ''blob:c.png''), Some (ascii ''blob:d.png'')]"
    by (simp add: exampleGallery_def namedImage_def ascii_def)
  have ck': "clockNow busyEnv 14 = (Inr (ascii ''2024-01-01T00:00:00.000Z''), 14)"
    using ck by simp
  show ?thesis
    apply (intro conjI)
    apply (rule h(1)) apply (rule h(2)) apply (rule h(3)) apply (rule h(4)) apply (rule h(5))
    apply (rule c1) apply (rule up) apply (rule rt) apply (rule c2) apply (rule ck')
    apply (rule post) apply (rule pc) apply (rule e) apply (rule len) apply (rule alts)
    apply (rule blobs) apply (rule l) apply (rule cn) apply (rule f) apply (rule g)
    apply (rule u) apply (rule d) apply (rule k) apply (rule progress)
    done
qed


end
